theory Spec2Isabelle
  imports Complex_Main "HOL-Library.Product_Lexorder" "HOL-Library.List_Lexorder"
begin

section \<open>Strings, character classes and dates\<close>

text \<open>
  A Python \<open>str\<close> is a sequence of Unicode code points, so a string is a list of
  code points. ASCII literals are written through \<open>asc\<close>; every other character of the
  script is given by its code point.
\<close>

type_synonym ustring = "nat list"

definition asc :: "string \<Rightarrow> ustring" where
  "asc s = map of_char s"

text \<open>
  \<open>str.isspace\<close>, \<open>str.strip\<close> and the regular expression class \<open>\s\<close> share one
  table of white space in CPython.
\<close>

definition isspace :: "nat \<Rightarrow> bool" where
  "isspace c \<longleftrightarrow>
     (0x09 \<le> c \<and> c \<le> 0x0D) \<or> (0x1C \<le> c \<and> c \<le> 0x20) \<or> c = 0x85 \<or> c = 0xA0 \<or>
     c = 0x1680 \<or> (0x2000 \<le> c \<and> c \<le> 0x200A) \<or> c = 0x2028 \<or> c = 0x2029 \<or>
     c = 0x202F \<or> c = 0x205F \<or> c = 0x3000"

text \<open>
  The class \<open>\d\<close> of a \<open>str\<close> pattern is the Unicode category Nd, and \<open>int\<close> reads
  every such digit with its decimal value. The digits come in runs of ten; the list holds
  the zero of each run (Unicode 14.0).
\<close>

definition decimal_zeros :: "nat list" where
  "decimal_zeros =
     [0x30, 0x660, 0x6F0, 0x7C0, 0x966, 0x9E6, 0xA66, 0xAE6, 0xB66, 0xBE6, 0xC66, 0xCE6,
      0xD66, 0xDE6, 0xE50, 0xED0, 0xF20, 0x1040, 0x1090, 0x17E0, 0x1810, 0x1946, 0x19D0,
      0x1A80, 0x1A90, 0x1B50, 0x1BB0, 0x1C40, 0x1C50, 0xA620, 0xA8D0, 0xA900, 0xA9D0,
      0xA9F0, 0xAA50, 0xABF0, 0xFF10, 0x104A0, 0x10D30, 0x11066, 0x110F0, 0x11136,
      0x111D0, 0x112F0, 0x11450, 0x114D0, 0x11650, 0x116C0, 0x11730, 0x118E0, 0x11950,
      0x11C50, 0x11D50, 0x11DA0, 0x16A60, 0x16AC0, 0x16B50, 0x1D7CE, 0x1D7D8, 0x1D7E2,
      0x1D7EC, 0x1D7F6, 0x1E140, 0x1E2F0, 0x1E950, 0x1FBF0]"

definition digit_value :: "nat \<Rightarrow> nat option" where
  "digit_value c =
     (case find (\<lambda>z. z \<le> c \<and> c < z + 10) decimal_zeros of
        None \<Rightarrow> None
      | Some z \<Rightarrow> Some (c - z))"

definition isdecimal :: "nat \<Rightarrow> bool" where
  "isdecimal c \<longleftrightarrow> digit_value c \<noteq> None"

text \<open>\<open>int(s)\<close> on a string of decimal digits.\<close>

definition int_of_digits :: "ustring \<Rightarrow> nat" where
  "int_of_digits s = foldl (\<lambda>a c. 10 * a + (case digit_value c of None \<Rightarrow> 0 | Some v \<Rightarrow> v)) 0 s"

text \<open>
  \<open>re.search(r"(\d{n})", s)\<close>: the leftmost position at which \<open>n\<close> digits follow one
  another; the match is those \<open>n\<close> characters.
\<close>

fun search_digits :: "nat \<Rightarrow> ustring \<Rightarrow> ustring option" where
  "search_digits n [] = (if n = 0 then Some [] else None)"
| "search_digits n (c # cs) =
     (if n \<le> Suc (length cs) \<and> list_all isdecimal (take n (c # cs))
      then Some (take n (c # cs))
      else search_digits n cs)"

text \<open>
  A \<open>datetime\<close> is year, month, day and the time of day, compared from the left.
\<close>

type_synonym datetime = "nat \<times> nat \<times> nat \<times> nat"

definition datetime :: "nat \<Rightarrow> nat \<Rightarrow> nat \<Rightarrow> datetime" where
  "datetime y m d = (y, m, d, 0)"

section \<open>Cutoff resolution\<close>

definition EXAM_CUTOFF_BY_YEAR :: "nat \<rightharpoonup> datetime" where
  "EXAM_CUTOFF_BY_YEAR =
     map_of [(2023, datetime 2023 1 17), (2024, datetime 2024 1 17), (2025, datetime 2025 1 18)]"

definition detect_year_from_stem :: "ustring \<Rightarrow> nat option" where
  "detect_year_from_stem stem =
     (case search_digits 6 stem of
        Some m6 \<Rightarrow> Some (int_of_digits (take 4 m6))
      | None \<Rightarrow>
          (case search_digits 4 stem of
             Some m4 \<Rightarrow> Some (int_of_digits m4)
           | None \<Rightarrow> None))"

definition cutoff_for_stem :: "ustring \<Rightarrow> (ustring \<rightharpoonup> datetime) option \<Rightarrow> datetime option" where
  "cutoff_for_stem stem override_map =
     (let override_map = (case override_map of None \<Rightarrow> Map.empty | Some m \<Rightarrow> m) in
      case search_digits 6 stem of
        Some key6 \<Rightarrow>
          (case override_map key6 of
             Some d \<Rightarrow> Some d
           | None \<Rightarrow> EXAM_CUTOFF_BY_YEAR (int_of_digits (take 4 key6) + 1))
      | None \<Rightarrow>
          (case detect_year_from_stem stem of
             None \<Rightarrow> None
           | Some year \<Rightarrow> if year \<noteq> 0 then EXAM_CUTOFF_BY_YEAR (year + 1) else None))"

text \<open>The stem holds \<open>n\<close> digits in a row somewhere.\<close>

definition has_digit_run :: "nat \<Rightarrow> ustring \<Rightarrow> bool" where
  "has_digit_run n s \<longleftrightarrow>
     (\<exists>pre run post. s = pre @ run @ post \<and> length run = n \<and> list_all isdecimal run)"

definition kekka :: ustring where
  "kekka = [0x7D50, 0x679C]"

section \<open>Regular expression tables and grade normalization\<close>

text \<open>
  Two tables of the regular expression engine cover all of Unicode and are parameters of
  the model: \<open>ignorecase u p c\<close> holds when the pattern character \<open>p\<close> matches the
  character \<open>c\<close> under \<open>re.I\<close>, and \<open>isword u c\<close> when \<open>c\<close> belongs to the class
  \<open>\w\<close>. \<open>ascii_tables\<close> is the instance used for concrete runs; it agrees with
  CPython on ASCII, kana and the CJK ideographs.
\<close>

record re_tables =
  ignorecase :: "nat \<Rightarrow> nat \<Rightarrow> bool"
  isword :: "nat \<Rightarrow> bool"

definition ascii_lower :: "nat \<Rightarrow> nat" where
  "ascii_lower c = (if 0x41 \<le> c \<and> c \<le> 0x5A then c + 0x20 else c)"

definition ascii_tables :: re_tables where
  "ascii_tables =
     \<lparr>ignorecase = (\<lambda>p c. ascii_lower p = ascii_lower c),
      isword = (\<lambda>c. (0x30 \<le> c \<and> c \<le> 0x39) \<or> (0x41 \<le> c \<and> c \<le> 0x5A) \<or> c = 0x5F \<or>
                     (0x61 \<le> c \<and> c \<le> 0x7A) \<or> (0x3041 \<le> c \<and> c \<le> 0x3096) \<or>
                     (0x30A1 \<le> c \<and> c \<le> 0x30FA) \<or> (0x4E00 \<le> c \<and> c \<le> 0x9FFF))\<rparr>"

text \<open>\<open>str.strip()\<close>, and the substring test \<open>p in s\<close>.\<close>

definition strip :: "ustring \<Rightarrow> ustring" where
  "strip s = rev (dropWhile isspace (rev (dropWhile isspace s)))"

fun startswith :: "ustring \<Rightarrow> ustring \<Rightarrow> bool" where
  "startswith [] s = True"
| "startswith (p # ps) [] = False"
| "startswith (p # ps) (c # cs) = (p = c \<and> startswith ps cs)"

fun contains :: "ustring \<Rightarrow> ustring \<Rightarrow> bool" where
  "contains p [] = (p = [])"
| "contains p (c # cs) = (startswith p (c # cs) \<or> contains p cs)"

text \<open>The two cohort labels: U+9AD8 followed by \<open>3\<close>, and by \<open>1+2\<close>.\<close>

definition kou3 :: ustring where
  "kou3 = [0x9AD8, 0x33]"

definition kou1_2 :: ustring where
  "kou1_2 = [0x9AD8, 0x31, 0x2B, 0x32]"

text \<open>
  The table of \<open>str.maketrans\<close>: the full-width digits go to the ASCII digits, U+9AD8 to
  itself, the ideographic space and the space to a space.
\<close>

definition grade_trans :: "nat \<Rightarrow> nat" where
  "grade_trans c =
     (case map_of (zip [0xFF10, 0xFF11, 0xFF12, 0xFF13, 0xFF14, 0xFF15, 0xFF16, 0xFF17, 0xFF18,
                        0xFF19, 0x9AD8, 0x3000, 0x20]
                       [0x30, 0x31, 0x32, 0x33, 0x34, 0x35, 0x36, 0x37, 0x38, 0x39, 0x9AD8,
                        0x20, 0x20]) c of
        None \<Rightarrow> c
      | Some d \<Rightarrow> d)"

text \<open>
  \<open>\b\<close> holds between two positions when exactly one side is a word character; the
  start and the end of the string count as no word character.
\<close>

definition word_at :: "re_tables \<Rightarrow> nat option \<Rightarrow> bool" where
  "word_at u c = (case c of None \<Rightarrow> False | Some x \<Rightarrow> isword u x)"

definition boundary :: "re_tables \<Rightarrow> nat option \<Rightarrow> nat option \<Rightarrow> bool" where
  "boundary u prev nxt \<longleftrightarrow> word_at u prev \<noteq> word_at u nxt"

definition first_char :: "ustring \<Rightarrow> nat option" where
  "first_char s = (case s of [] \<Rightarrow> None | c # _ \<Rightarrow> Some c)"

text \<open>
  The pattern of \<open>normalize_grade_val\<close> has three alternatives: U+9AD8, white space,
  \<open>3\<close>; \<open>3\<close> followed by U+5E74; \<open>3\<close> between two word boundaries.
  \<open>grade3_at\<close> tries them at one position, where \<open>prev\<close> is the character before it;
  \<open>grade3_search\<close> is \<open>re.search\<close>, which tries every position from the left.
\<close>

definition grade3_at :: "re_tables \<Rightarrow> nat option \<Rightarrow> ustring \<Rightarrow> bool" where
  "grade3_at u prev s =
     (case s of
        [] \<Rightarrow> False
      | c # cs \<Rightarrow>
          (c = 0x9AD8 \<and> first_char (dropWhile isspace cs) = Some 0x33) \<or>
          (c = 0x33 \<and> first_char cs = Some 0x5E74) \<or>
          (c = 0x33 \<and> boundary u prev (Some c) \<and> boundary u (Some c) (first_char cs)))"

fun grade3_search :: "re_tables \<Rightarrow> nat option \<Rightarrow> ustring \<Rightarrow> bool" where
  "grade3_search u prev [] = False"
| "grade3_search u prev (c # cs) = (grade3_at u prev (c # cs) \<or> grade3_search u (Some c) cs)"

text \<open>The argument is \<open>str(x)\<close>, the text of the cell.\<close>

definition normalize_grade_val :: "re_tables \<Rightarrow> ustring \<Rightarrow> ustring" where
  "normalize_grade_val u x =
     (let s = strip (map grade_trans x)
      in if grade3_search u None s then kou3 else kou1_2)"

text \<open>
  What a grade-3 marker is, said without the search: the string holds one of the three
  shapes somewhere.
\<close>

definition last_char :: "ustring \<Rightarrow> nat option" where
  "last_char s = (if s = [] then None else Some (last s))"

definition grade3_marker :: "re_tables \<Rightarrow> ustring \<Rightarrow> bool" where
  "grade3_marker u s \<longleftrightarrow>
     (\<exists>pre ws post. s = pre @ [0x9AD8] @ ws @ [0x33] @ post \<and> list_all isspace ws) \<or>
     (\<exists>pre post. s = pre @ [0x33, 0x5E74] @ post) \<or>
     (\<exists>pre post. s = pre @ [0x33] @ post \<and> boundary u (last_char pre) (Some 0x33) \<and>
        boundary u (Some 0x33) (first_char post))"

text \<open>The same with the character before the string given, for the induction.\<close>

definition marker_from :: "re_tables \<Rightarrow> nat option \<Rightarrow> ustring \<Rightarrow> bool" where
  "marker_from u prev s \<longleftrightarrow>
     (\<exists>pre ws post. s = pre @ [0x9AD8] @ ws @ [0x33] @ post \<and> list_all isspace ws) \<or>
     (\<exists>pre post. s = pre @ [0x33, 0x5E74] @ post) \<or>
     (\<exists>pre post. s = pre @ [0x33] @ post \<and>
        boundary u (if pre = [] then prev else Some (last pre)) (Some 0x33) \<and>
        boundary u (Some 0x33) (first_char post))"

section \<open>Sheet matcher\<close>

text \<open>The first unit name of the English catalog, and a sheet name that carries it.\<close>

definition eitango1800 :: ustring where
  "eitango1800 = [0x82F1, 0x5358, 0x8A9E] @ asc ''1800''"

definition sheet_2024_eitango1800 :: ustring where
  "sheet_2024_eitango1800 = asc ''2024'' @ eitango1800"

definition ENG_TARGETS :: "ustring list" where
  "ENG_TARGETS =
     [eitango1800,
      [0x82F1, 0x719F, 0x8A9E] @ asc ''750'',
      [0x82F1, 0x6587, 0x6CD5] @ asc ''750'',
      [0x82F1, 0x4F8B, 0x6587] @ asc ''300'',
      [0x4E0A, 0x7D1A, 0x82F1, 0x5358, 0x8A9E] @ asc ''1000'',
      [0x4E0A, 0x7D1A, 0x82F1, 0x719F, 0x8A9E] @ asc ''500'']"

definition MATH_TARGETS :: "ustring list" where
  "MATH_TARGETS =
     [[0x6570, 0x5B66, 0x2160],
      [0x6570, 0x5B66, 0x41],
      [0x6570, 0x5B66, 0x2161],
      [0x6570, 0x5B66, 0x42],
      [0x6570, 0x5B66, 0x2160, 0x41, 0x4E0A, 0x7D1A],
      [0x6570, 0x5B66, 0x2161, 0x42, 0x4E0A, 0x7D1A]]"

text \<open>\<open>norm_str\<close> is \<open>re.sub(r"\s+", "", str(x))\<close>: every white space character goes.\<close>

definition norm_str :: "ustring \<Rightarrow> ustring" where
  "norm_str x = filter (\<lambda>c. \<not> isspace c) x"

text \<open>
  The compiled pattern of a target is \<open>^\s*\d{4}\s*.*T\s*$\<close> with \<open>re.I\<close>, where
  \<open>T\<close> is the escaped, normalized target, and \<open>pat.match\<close> applies it at the start of
  the string. After the leading white space come four digits. \<open>tail_match\<close> is the rest,
  \<open>\s*.*T\s*$\<close>: the string splits at some \<open>k\<close> into a front, which is white space
  followed by characters other than the line feed (the only character the dot refuses),
  and a back, which is \<open>T\<close> up to case followed by white space only.
\<close>

definition tail_match :: "re_tables \<Rightarrow> ustring \<Rightarrow> ustring \<Rightarrow> bool" where
  "tail_match u T s \<longleftrightarrow>
     (\<exists>k \<in> set [0..<Suc (length s)].
        0x0A \<notin> set (dropWhile isspace (take k s)) \<and>
        length T \<le> length (drop k s) \<and>
        list_all2 (ignorecase u) T (take (length T) (drop k s)) \<and>
        list_all isspace (drop (length T) (drop k s)))"

definition pat_match :: "re_tables \<Rightarrow> ustring \<Rightarrow> ustring \<Rightarrow> bool" where
  "pat_match u T s \<longleftrightarrow>
     (let s1 = dropWhile isspace s
      in 4 \<le> length s1 \<and> list_all isdecimal (take 4 s1) \<and> tail_match u T (drop 4 s1))"

text \<open>
  Each sheet name is paired with the first target of the list whose pattern matches it,
  and left out when none does.
\<close>

definition sheets_for_targets ::
  "re_tables \<Rightarrow> ustring list \<Rightarrow> ustring list \<Rightarrow> (ustring \<times> ustring) list" where
  "sheets_for_targets u sheet_names target_list =
     (let compiled = map (\<lambda>t. (t, norm_str t)) target_list
      in concat (map (\<lambda>s. case find (\<lambda>(t, pat). pat_match u pat (norm_str s)) compiled of
                              None \<Rightarrow> []
                            | Some (t, pat) \<Rightarrow> [(t, s)])
                     sheet_names))"

text \<open>
  The shape of a matching sheet name, said without the matcher: with all white space
  removed it is four digits, then any text, then the target name up to case.
\<close>

definition year_unit_name :: "re_tables \<Rightarrow> ustring \<Rightarrow> ustring \<Rightarrow> bool" where
  "year_unit_name u t s \<longleftrightarrow>
     (\<exists>d mid e. norm_str s = d @ mid @ e \<and> length d = 4 \<and> list_all isdecimal d \<and>
        list_all2 (ignorecase u) (norm_str t) e)"

section \<open>Workbooks\<close>

text \<open>
  A cell is known by what the three coercions of the script make of it:
  \<open>pd.to_numeric(errors="coerce")\<close>, where \<open>None\<close> is NaN,
  \<open>pd.to_datetime(errors="coerce")\<close>, where \<open>None\<close> is NaT, and \<open>str\<close>. Numbers are
  rationals. A frame is its header row and its data rows; a workbook is, besides its
  sheets, the two parts of its path that \<open>Path(fp).name\<close> and \<open>Path(fp).stem\<close>
  return. Tables are lists of rows; the order in which pandas returns the rows of a
  \<open>groupby\<close> or a \<open>merge\<close> is not modelled.
\<close>

record cell =
  c_num :: "rat option"
  c_date :: "datetime option"
  c_text :: ustring

record frame =
  columns :: "ustring list"
  rows :: "cell list list"

record workbook =
  file_name :: ustring
  file_stem :: ustring
  file_sheets :: "(ustring \<times> frame) list"

definition blank :: cell where
  "blank = \<lparr>c_num = None, c_date = None, c_text = asc ''nan''\<rparr>"

definition sheet_names :: "workbook \<Rightarrow> ustring list" where
  "sheet_names wb = map fst (file_sheets wb)"

definition read_excel :: "workbook \<Rightarrow> ustring \<Rightarrow> frame" where
  "read_excel wb s =
     (case map_of (file_sheets wb) s of
        None \<Rightarrow> \<lparr>columns = [], rows = []\<rparr>
      | Some df \<Rightarrow> df)"

definition clean_cols :: "frame \<Rightarrow> frame" where
  "clean_cols df =
     df\<lparr>columns := map (\<lambda>c. filter (\<lambda>x. x \<noteq> 0x3000) (filter (\<lambda>x. x \<noteq> 0xA0) (strip c)))
                          (columns df)\<rparr>"

text \<open>
  \<open>df[c]\<close> is read row by row: the cell of a row in the first column named \<open>c\<close>.
  A row shorter than the header is padded with blank cells, as \<open>read_excel\<close> does.
\<close>

fun index_of :: "'a \<Rightarrow> 'a list \<Rightarrow> nat option" where
  "index_of x [] = None"
| "index_of x (y # ys) = (if x = y then Some 0 else map_option Suc (index_of x ys))"

definition cell_at :: "cell list \<Rightarrow> nat \<Rightarrow> cell" where
  "cell_at r i = (if i < length r then r ! i else blank)"

definition cell_of :: "frame \<Rightarrow> ustring \<Rightarrow> cell list \<Rightarrow> cell" where
  "cell_of df c r = (case index_of c (columns df) of None \<Rightarrow> blank | Some i \<Rightarrow> cell_at r i)"

definition getcol :: "frame \<Rightarrow> ustring \<Rightarrow> cell list" where
  "getcol df c = map (cell_of df c) (rows df)"

text \<open>Header markers: the student number, the completion date, the results sheet.\<close>

definition seito_bango :: ustring where
  "seito_bango = [0x751F, 0x5F92, 0x756A, 0x53F7]"

definition seito_id :: ustring where
  "seito_id = [0x751F, 0x5F92, 0x49, 0x44]"

definition kanzen_shutokubi :: ustring where
  "kanzen_shutokubi = [0x5B8C, 0x5168, 0x4FEE, 0x5F97, 0x65E5]"

definition godo_kyote_kekka :: ustring where
  "godo_kyote_kekka = [0x5408, 0x540C, 0x5171, 0x30C6, 0x7D50, 0x679C]"

definition id_col :: "frame \<Rightarrow> ustring option" where
  "id_col df = find (\<lambda>c. contains seito_bango c \<or> c \<in> set [asc ''ID'', seito_id]) (columns df)"

text \<open>\<open>astype(int)\<close> cuts the fraction off, towards zero.\<close>

definition astype_int :: "rat \<Rightarrow> int" where
  "astype_int q = (if 0 \<le> q then \<lfloor>q\<rfloor> else \<lceil>q\<rceil>)"

definition fillna0 :: "'a::zero option \<Rightarrow> 'a" where
  "fillna0 v = (case v of None \<Rightarrow> 0 | Some x \<Rightarrow> x)"

text \<open>
  \<open>dropna(subset=["student_id"])\<close> followed by \<open>astype(int).astype(str)\<close>. The text
  of an integer determines it, so the student id stays an integer.
\<close>

definition dropna_id :: "(rat option \<times> 'a) list \<Rightarrow> (int \<times> 'a) list" where
  "dropna_id sub = [(astype_int q, v). (Some q, v) \<leftarrow> sub]"

section \<open>Mastery counter\<close>

definition read_kdate_series :: "frame \<Rightarrow> datetime option list option" where
  "read_kdate_series df =
     (if kanzen_shutokubi \<in> set (columns df) then Some (map c_date (getcol df kanzen_shutokubi))
      else if 10 < length (columns df) \<and> strip (columns df ! 10) = kanzen_shutokubi
      then Some (map (\<lambda>r. c_date (cell_at r 10)) (rows df))
      else None)"

text \<open>
  \<open>dates.notna() & ((dates <= cutoff) if cutoff is not None else dates.notna())\<close>;
  a comparison with NaT is false.
\<close>

definition completed :: "datetime option \<Rightarrow> datetime option \<Rightarrow> bool" where
  "completed cutoff d \<longleftrightarrow>
     d \<noteq> None \<and>
     (case cutoff of
        Some c \<Rightarrow> (case d of None \<Rightarrow> False | Some x \<Rightarrow> x \<le> c)
      | None \<Rightarrow> d \<noteq> None)"

text \<open>\<open>groupby("student_id")["completed"].max()\<close>.\<close>

definition groupby_max :: "(int \<times> int) list \<Rightarrow> (int \<times> int) list" where
  "groupby_max sub =
     map (\<lambda>k. (k, Max (set [v. (k', v) \<leftarrow> sub, k' = k]))) (remdups (map fst sub))"

text \<open>One sheet of a unit: \<open>None\<close> when the loop body leaves by \<open>continue\<close>.\<close>

definition mastery_frame :: "datetime option \<Rightarrow> frame \<Rightarrow> (int \<times> int) list option" where
  "mastery_frame cutoff df =
     (case id_col df of
        None \<Rightarrow> None
      | Some ic \<Rightarrow>
          (case read_kdate_series df of
             None \<Rightarrow> None
           | Some dates \<Rightarrow>
               Some (groupby_max
                 (map (\<lambda>(k, b). (k, if b then 1 else 0))
                   (dropna_id (zip (map c_num (getcol df ic)) (map (completed cutoff) dates)))))))"

text \<open>
  The rows of a table with a given key, and \<open>base.merge(add, on="student_id",
  how="outer")\<close>, where \<open>base\<close> has \<open>n\<close> unit columns and \<open>add\<close> has one: each
  row of \<open>base\<close> is paired with every row of \<open>add\<close> of the same key, or filled with
  NaN when there is none, and the rows of \<open>add\<close> without partner follow, filled with
  NaN on the left. The unit names of a catalog differ from one another, so a row is its
  key and the cells of the unit columns in catalog order.
\<close>

definition partners :: "int \<Rightarrow> (int \<times> 'a) list \<Rightarrow> 'a list" where
  "partners k add = [v. (k', v) \<leftarrow> add, k' = k]"

definition outer_merge ::
  "nat \<Rightarrow> (int \<times> int option list) list \<Rightarrow> (int \<times> int) list \<Rightarrow> (int \<times> int option list) list" where
  "outer_merge n base add =
     concat (map (\<lambda>(k, vs). if partners k add = [] then [(k, vs @ [None])]
                              else map (\<lambda>v. (k, vs @ [Some v])) (partners k add)) base) @
     [(k, replicate n None @ [Some v]). (k, v) \<leftarrow> add, k \<notin> fst ` set base]"

fun merge_all ::
  "nat \<Rightarrow> (int \<times> int option list) list \<Rightarrow> (int \<times> int) list list \<Rightarrow> (int \<times> int option list) list" where
  "merge_all n base [] = base"
| "merge_all n base (add # rest) = merge_all (Suc n) (outer_merge n base add) rest"

text \<open>
  The tail of both counters: nothing for an empty catalog, else the merge of the unit
  tables from the left, NaN filled with 0, and the sum of each row.
\<close>

definition sum_targets :: "(int \<times> int) list list \<Rightarrow> (int \<times> int) list" where
  "sum_targets per_target =
     (case per_target of
        [] \<Rightarrow> []
      | first # rest \<Rightarrow>
          map (\<lambda>(k, vs). (k, sum_list (map fillna0 vs)))
            (merge_all 1 (map (\<lambda>(k, v). (k, [Some v])) first) rest))"

definition count_mastery ::
  "re_tables \<Rightarrow> workbook \<Rightarrow> ustring list \<Rightarrow> datetime option \<Rightarrow> (int \<times> int) list" where
  "count_mastery u fp target_list cutoff =
     (let hit_pairs = sheets_for_targets u (sheet_names fp) target_list;
          per_target =
            map (\<lambda>tgt.
                  let frames =
                        List.map_filter
                          (\<lambda>(t, s). if t \<noteq> tgt then None
                                    else mastery_frame cutoff (clean_cols (read_excel fp s)))
                          hit_pairs
                  in if frames \<noteq> [] then groupby_max (concat frames) else [])
                target_list
      in sum_targets per_target)"

section \<open>Late completion counter\<close>

text \<open>\<open>groupby("student_id")["date"].min()\<close>: the minimum skips NaT.\<close>

definition min_date :: "datetime option list \<Rightarrow> datetime option" where
  "min_date ds = (case [x. Some x \<leftarrow> ds] of [] \<Rightarrow> None | x # xs \<Rightarrow> Some (Min (set (x # xs))))"

definition groupby_min :: "(int \<times> datetime option) list \<Rightarrow> (int \<times> datetime option) list" where
  "groupby_min sub =
     map (\<lambda>k. (k, min_date [d. (k', d) \<leftarrow> sub, k' = k])) (remdups (map fst sub))"

definition late_frame :: "frame \<Rightarrow> (int \<times> datetime option) list option" where
  "late_frame df =
     (case id_col df of
        None \<Rightarrow> None
      | Some ic \<Rightarrow>
          (case read_kdate_series df of
             None \<Rightarrow> None
           | Some dates \<Rightarrow>
               Some (groupby_min (dropna_id (zip (map c_num (getcol df ic)) dates)))))"

text \<open>\<open>(tgt_df["date"] > cutoff).fillna(False).astype(int)\<close>.\<close>

definition late_flag :: "datetime \<Rightarrow> datetime option \<Rightarrow> int" where
  "late_flag cutoff d = (case d of None \<Rightarrow> 0 | Some x \<Rightarrow> if x > cutoff then 1 else 0)"

definition count_late_mastery ::
  "re_tables \<Rightarrow> workbook \<Rightarrow> ustring list \<Rightarrow> datetime option \<Rightarrow> (int \<times> int) list" where
  "count_late_mastery u fp target_list cutoff =
     (case cutoff of
        None \<Rightarrow> []
      | Some co \<Rightarrow>
          (let hit_pairs = sheets_for_targets u (sheet_names fp) target_list;
               per_target =
                 map (\<lambda>tgt.
                       let frames =
                             List.map_filter
                               (\<lambda>(t, s). if t \<noteq> tgt then None
                                         else late_frame (clean_cols (read_excel fp s)))
                               hit_pairs;
                           tgt_df = (if frames \<noteq> [] then concat frames else [])
                       in map (\<lambda>(k, d). (k, late_flag co d)) tgt_df)
                     target_list
           in sum_targets per_target))"

section \<open>What the counters are to compute\<close>

text \<open>
  The entries of a usable sheet are the student id and the completion date of each row
  with a numeric id. The entries of a unit are those of all usable sheets that the
  Sheet Matcher pairs with the unit.
\<close>

definition sheet_entries :: "frame \<Rightarrow> (int \<times> datetime option) list option" where
  "sheet_entries df =
     (case id_col df of
        None \<Rightarrow> None
      | Some ic \<Rightarrow>
          (case read_kdate_series df of
             None \<Rightarrow> None
           | Some dates \<Rightarrow> Some (dropna_id (zip (map c_num (getcol df ic)) dates))))"

definition entries_of ::
  "workbook \<Rightarrow> ustring \<Rightarrow> (ustring \<times> ustring) list \<Rightarrow> (int \<times> datetime option) list" where
  "entries_of fp tgt hit_pairs =
     concat (List.map_filter
       (\<lambda>(t, s). if t \<noteq> tgt then None else sheet_entries (clean_cols (read_excel fp s)))
       hit_pairs)"

definition unit_entries ::
  "re_tables \<Rightarrow> workbook \<Rightarrow> ustring list \<Rightarrow> ustring \<Rightarrow> (int \<times> datetime option) list" where
  "unit_entries u fp target_list tgt =
     entries_of fp tgt (sheets_for_targets u (sheet_names fp) target_list)"

text \<open>
  A student has completed a unit when some entry of the unit for the student has a date
  that counts; the mastery count is the number of units of the catalog completed.
\<close>

definition unit_completed ::
  "re_tables \<Rightarrow> workbook \<Rightarrow> ustring list \<Rightarrow> datetime option \<Rightarrow> ustring \<Rightarrow> int \<Rightarrow> bool" where
  "unit_completed u fp target_list cutoff tgt k \<longleftrightarrow>
     (\<exists>d. (k, d) \<in> set (unit_entries u fp target_list tgt) \<and> completed cutoff d)"

definition mastery_spec ::
  "re_tables \<Rightarrow> workbook \<Rightarrow> ustring list \<Rightarrow> datetime option \<Rightarrow> int \<Rightarrow> int" where
  "mastery_spec u fp target_list cutoff k =
     (\<Sum>tgt\<leftarrow>target_list. if unit_completed u fp target_list cutoff tgt k then 1 else 0)"

definition unit_students :: "re_tables \<Rightarrow> workbook \<Rightarrow> ustring list \<Rightarrow> int set" where
  "unit_students u fp target_list =
     (\<Union>tgt \<in> set target_list. fst ` set (unit_entries u fp target_list tgt))"

text \<open>The frames of one unit, as the loop of \<open>count_mastery\<close> collects them.\<close>

definition mastery_frames ::
  "datetime option \<Rightarrow> workbook \<Rightarrow> ustring \<Rightarrow> (ustring \<times> ustring) list \<Rightarrow> (int \<times> int) list list" where
  "mastery_frames cutoff fp tgt hit_pairs =
     List.map_filter
       (\<lambda>(t, s). if t \<noteq> tgt then None else mastery_frame cutoff (clean_cols (read_excel fp s)))
       hit_pairs"

definition unit_table ::
  "datetime option \<Rightarrow> workbook \<Rightarrow> (ustring \<times> ustring) list \<Rightarrow> ustring \<Rightarrow> (int \<times> int) list" where
  "unit_table cutoff fp hit_pairs tgt =
     (let frames = mastery_frames cutoff fp tgt hit_pairs
      in if frames \<noteq> [] then groupby_max (concat frames) else [])"

text \<open>The table of one unit, as the loop of \<open>count_late_mastery\<close> builds it.\<close>

definition late_table ::
  "datetime \<Rightarrow> workbook \<Rightarrow> (ustring \<times> ustring) list \<Rightarrow> ustring \<Rightarrow> (int \<times> int) list" where
  "late_table co fp hit_pairs tgt =
     (let frames = List.map_filter
                     (\<lambda>(t, s). if t \<noteq> tgt then None
                               else late_frame (clean_cols (read_excel fp s)))
                     hit_pairs;
          tgt_df = (if frames \<noteq> [] then concat frames else [])
      in map (\<lambda>(k, d). (k, late_flag co d)) tgt_df)"

definition flag_of :: "datetime option \<Rightarrow> int \<times> datetime option \<Rightarrow> int \<times> int" where
  "flag_of cutoff e = (fst e, if completed cutoff (snd e) then 1 else 0)"

text \<open>
  The state of the merge loop after the unit tables \<open>done\<close>: one row per student of
  these tables, holding the student's cell of each table.
\<close>

definition merged_rows ::
  "nat \<Rightarrow> (int \<times> int option list) list \<Rightarrow> (int \<times> int) list list \<Rightarrow> bool" where
  "merged_rows n base done \<longleftrightarrow>
     n = length done \<and> distinct (map fst base) \<and>
     fst ` set base = (\<Union>T \<in> set done. fst ` set T) \<and>
     (\<forall>(k, vs) \<in> set base. vs = map (\<lambda>T. map_of T k) done)"

section \<open>Exam score extractor\<close>

definition eigo :: ustring where
  "eigo = [0x82F1, 0x8A9E]"

definition gakunen :: ustring where
  "gakunen = [0x5B66, 0x5E74]"

definition sugaku_1A :: ustring where
  "sugaku_1A = [0x6570, 0x5B66, 0x2160, 0x30FB, 0x6570, 0x5B66, 0x41]"

definition sugaku_2BC :: ustring where
  "sugaku_2BC = [0x6570, 0x5B66, 0x2161, 0x30FB, 0x6570, 0x5B66, 0x42, 0x30FB, 0x6570, 0x5B66, 0x43]"

definition kokugo :: ustring where
  "kokugo = [0x56FD, 0x8A9E, 0x28, 0x73FE, 0x53E4, 0x6F22, 0x29]"

definition pick_exam_sheets :: "ustring list \<Rightarrow> ustring list" where
  "pick_exam_sheets xls_names = filter (contains godo_kyote_kekka) xls_names"

record exam_row =
  student_id :: int
  grade_norm :: ustring
  score_eng :: "rat option"
  score_math :: "rat option"
  score_jpn :: "rat option"

text \<open>
  The math score of a row: the sum of the two sub-scores, each NaN filled with 0, when
  both columns were found, and missing otherwise.
\<close>

definition math_score :: "frame \<Rightarrow> ustring option \<Rightarrow> ustring option \<Rightarrow> cell list \<Rightarrow> rat option" where
  "math_score df math1_col math2_col r =
     (case (math1_col, math2_col) of
        (Some m1, Some m2) \<Rightarrow>
          Some (fillna0 (c_num (cell_of df m1 r)) + fillna0 (c_num (cell_of df m2 r)))
      | _ \<Rightarrow> None)"

text \<open>One results sheet: \<open>None\<close> when the loop body leaves by \<open>continue\<close>.\<close>

definition exam_frame :: "re_tables \<Rightarrow> frame \<Rightarrow> exam_row list option" where
  "exam_frame u df =
     (if eigo \<notin> set (columns df) then None
      else
        let grade_col = find (contains gakunen) (columns df);
            math1_col = find (contains sugaku_1A) (columns df);
            math2_col = find (contains sugaku_2BC) (columns df);
            jpn_col = find (contains kokugo) (columns df)
        in case (id_col df, grade_col) of
             (Some ic, Some gc) \<Rightarrow>
               Some [\<lparr>student_id = astype_int q,
                      grade_norm = normalize_grade_val u (c_text (cell_of df gc r)),
                      score_eng = c_num (cell_of df eigo r),
                      score_math = math_score df math1_col math2_col r,
                      score_jpn = (case jpn_col of None \<Rightarrow> None
                                   | Some jc \<Rightarrow> c_num (cell_of df jc r))\<rparr>.
                     r \<leftarrow> rows df, Some q \<leftarrow> [c_num (cell_of df ic r)]]
           | _ \<Rightarrow> None)"

text \<open>The aggregate \<open>max\<close> of a score column skips NaN.\<close>

definition max_score :: "rat option list \<Rightarrow> rat option" where
  "max_score vs = (case [x. Some x \<leftarrow> vs] of [] \<Rightarrow> None | x # xs \<Rightarrow> Some (Max (set (x # xs))))"

definition read_exam :: "re_tables \<Rightarrow> workbook \<Rightarrow> exam_row list" where
  "read_exam u fp =
     (let sheets = pick_exam_sheets (sheet_names fp);
          dfs = List.map_filter (\<lambda>s. exam_frame u (clean_cols (read_excel fp s))) sheets
      in if dfs \<noteq> [] then
           (let out = concat dfs
            in map (\<lambda>(k, g).
                     let grp = filter (\<lambda>r. student_id r = k \<and> grade_norm r = g) out
                     in \<lparr>student_id = k, grade_norm = g,
                         score_eng = max_score (map score_eng grp),
                         score_math = max_score (map score_math grp),
                         score_jpn = max_score (map score_jpn grp)\<rparr>)
                   (remdups (map (\<lambda>r. (student_id r, grade_norm r)) out)))
         else [])"

section \<open>The panel\<close>

text \<open>
  \<open>left.merge(right, on="student_id", how="left")\<close>: each row of the left table is
  paired with every row of the right table of the same key, or with NaN when there is
  none.
\<close>

definition left_merge :: "('a \<Rightarrow> int) \<Rightarrow> 'a list \<Rightarrow> (int \<times> int) list \<Rightarrow> ('a \<times> int option) list" where
  "left_merge key left right =
     concat (map (\<lambda>l. if partners (key l) right = [] then [(l, None)]
                       else map (\<lambda>v. (l, Some v)) (partners (key l) right)) left)"

record panel_row =
  p_exam :: exam_row
  eng_mas :: int
  math_mas :: int
  tot_mas :: int
  yyyymm_or_year :: ustring
  eng_late :: int
  math_late :: int

record meta_row =
  meta_run :: ustring
  meta_file :: ustring
  meta_key :: ustring
  meta_cutoff :: ustring
  meta_students :: nat

text \<open>\<open>strftime("%Y-%m-%d")\<close>, for a year of four digits.\<close>

definition dec :: "nat \<Rightarrow> nat \<Rightarrow> ustring" where
  "dec w n = map (\<lambda>i. 0x30 + (n div 10 ^ (w - 1 - i)) mod 10) [0..<w]"

definition strftime_ymd :: "datetime \<Rightarrow> ustring" where
  "strftime_ymd d = (case d of (y, m, dd, t) \<Rightarrow> dec 4 y @ [0x2D] @ dec 2 m @ [0x2D] @ dec 2 dd)"

text \<open>The table \<open>merged\<close> that the loop of \<open>main\<close> builds for one file.\<close>

definition merged_of :: "re_tables \<Rightarrow> (ustring \<rightharpoonup> datetime) \<Rightarrow> workbook \<Rightarrow> panel_row list" where
  "merged_of u cutoff_override fp =
     (let stem = file_stem fp;
          cutoff = cutoff_for_stem stem (Some cutoff_override);
          base = read_exam u fp;
          eng_m = count_mastery u fp ENG_TARGETS cutoff;
          math_m = count_mastery u fp MATH_TARGETS cutoff;
          merged = left_merge (\<lambda>(r, e). student_id r) (left_merge student_id base eng_m) math_m;
          eng_l = count_late_mastery u fp ENG_TARGETS cutoff;
          math_l = count_late_mastery u fp MATH_TARGETS cutoff;
          merged = left_merge (\<lambda>(((r, e), m), el). student_id r)
                     (left_merge (\<lambda>((r, e), m). student_id r) merged eng_l) math_l
      in map (\<lambda>((((r, e), m), el), ml).
               \<lparr>p_exam = r, eng_mas = fillna0 e, math_mas = fillna0 m,
                tot_mas = fillna0 e + fillna0 m, yyyymm_or_year = stem,
                eng_late = fillna0 el, math_late = fillna0 ml\<rparr>) merged)"

definition meta_of ::
  "re_tables \<Rightarrow> (ustring \<rightharpoonup> datetime) \<Rightarrow> ustring \<Rightarrow> workbook \<Rightarrow> meta_row" where
  "meta_of u cutoff_override run_ts fp =
     \<lparr>meta_run = run_ts, meta_file = file_name fp, meta_key = file_stem fp,
      meta_cutoff = (case cutoff_for_stem (file_stem fp) (Some cutoff_override) of
                       None \<Rightarrow> [] | Some c \<Rightarrow> strftime_ymd c),
      meta_students =
        length (remdups (map (\<lambda>r. student_id (p_exam r)) (merged_of u cutoff_override fp)))\<rparr>"

section \<open>Report shaper\<close>

text \<open>
  Means are taken in exact arithmetic; \<open>round(1)\<close> rounds the tenfold to the nearest
  integer, a tie to the even one.
\<close>

definition mean :: "rat list \<Rightarrow> rat" where
  "mean xs = sum_list xs / of_nat (length xs)"

definition round_half_even :: "rat \<Rightarrow> int" where
  "round_half_even q =
     (let f = \<lfloor>q\<rfloor>; r = q - of_int f
      in if r < 1 / 2 then f else if 1 / 2 < r then f + 1 else if even f then f else f + 1)"

definition round1 :: "rat \<Rightarrow> rat" where
  "round1 q = of_int (round_half_even (q * 10)) / 10"

record long_row =
  l_cohort :: ustring
  l_key :: int
  l_count :: int
  l_mean :: "rat option"

record dist_row =
  d_cohort :: ustring
  d_key :: int
  d_count :: int

text \<open>\<open>pd.MultiIndex.from_product\<close> of the two cohorts and \<open>range(0, max_val + 1)\<close>.\<close>

definition template :: "int \<Rightarrow> (ustring \<times> int) list" where
  "template max_val = [(c, b). c \<leftarrow> [kou1_2, kou3], b \<leftarrow> [0..max_val]]"

text \<open>
  The key and the score column are given by their accessors. The groups are those of
  the rows with a score; each has its number of distinct student ids and its mean. The
  template is joined to the groups from the left, the missing head count is filled with
  0, and the rows are sorted by cohort and key.
\<close>

definition summarize_long ::
  "panel_row list \<Rightarrow> (panel_row \<Rightarrow> int) \<Rightarrow> (panel_row \<Rightarrow> rat option) \<Rightarrow> int \<Rightarrow> long_row list" where
  "summarize_long df key score_col max_val =
     (let kept = filter (\<lambda>r. score_col r \<noteq> None) df;
          g = map (\<lambda>(c, b).
                    let grp = filter (\<lambda>r. grade_norm (p_exam r) = c \<and> key r = b) kept
                    in ((c, b),
                        int (length (remdups (map (\<lambda>r. student_id (p_exam r)) grp))),
                        mean (List.map_filter score_col grp)))
                  (remdups (map (\<lambda>r. (grade_norm (p_exam r), key r)) kept));
          out = map (\<lambda>(c, b). case map_of g (c, b) of
                                 None \<Rightarrow> \<lparr>l_cohort = c, l_key = b, l_count = 0, l_mean = None\<rparr>
                               | Some (n, m) \<Rightarrow>
                                   \<lparr>l_cohort = c, l_key = b, l_count = n, l_mean = Some (round1 m)\<rparr>)
                    (template max_val)
      in sort_key (\<lambda>r. (l_cohort r, l_key r)) out)"

definition summarize_distribution ::
  "panel_row list \<Rightarrow> (panel_row \<Rightarrow> int) \<Rightarrow> int \<Rightarrow> dist_row list" where
  "summarize_distribution df key max_val =
     (let g = map (\<lambda>(c, b).
                    let grp = filter (\<lambda>r. grade_norm (p_exam r) = c \<and> key r = b) df
                    in ((c, b), int (length (remdups (map (\<lambda>r. student_id (p_exam r)) grp)))))
                  (remdups (map (\<lambda>r. (grade_norm (p_exam r), key r)) df));
          out = map (\<lambda>(c, b). case map_of g (c, b) of
                                 None \<Rightarrow> \<lparr>d_cohort = c, d_key = b, d_count = 0\<rparr>
                               | Some n \<Rightarrow> \<lparr>d_cohort = c, d_key = b, d_count = n\<rparr>)
                    (template max_val)
      in sort_key (\<lambda>r. (d_cohort r, d_key r)) out)"

text \<open>
  \<open>pivot_table\<close> with \<open>aggfunc="first"\<close> keeps the cells with a mean: a row for each
  key and a column for each cohort that has one, and in each cell the first mean of
  that key and cohort, if any.
\<close>

record wide_table =
  w_columns :: "ustring list"
  w_rows :: "(int \<times> rat option list) list"

definition summarize_wide :: "long_row list \<Rightarrow> wide_table" where
  "summarize_wide long_df =
     (let vals = filter (\<lambda>r. l_mean r \<noteq> None) long_df;
          cols = filter (\<lambda>c. c \<in> l_cohort ` set vals) [kou1_2, kou3]
      in \<lparr>w_columns = cols,
          w_rows = map (\<lambda>b. (b, map (\<lambda>c. case filter (\<lambda>r. l_key r = b \<and> l_cohort r = c) vals of
                                            [] \<Rightarrow> None | r # rs \<Rightarrow> l_mean r) cols))
                       (sort (remdups (map l_key vals)))\<rparr>)"

section \<open>Main\<close>

datatype table =
  Long "long_row list"
| Wide wide_table
| Dist "dist_row list"
| Meta "meta_row list"

definition title_eng_long :: ustring where
  "title_eng_long = [0x82F1, 0x8A9E, 0x30DE, 0x30B9, 0x30BF, 0x30FC, 0xD7, 0x5E73, 0x5747,
                     0x82F1, 0x8A9E, 0xFF08, 0x9577, 0xFF09]"

definition title_math_long :: ustring where
  "title_math_long = [0x6570, 0x5B66, 0x30DE, 0x30B9, 0x30BF, 0x30FC, 0xD7, 0x5E73, 0x5747,
                      0x6570, 0x5B66, 0xFF08, 0x9577, 0xFF09]"

definition title_jpn_long :: ustring where
  "title_jpn_long = [0x82F1, 0x6570, 0x5408, 0x8A08, 0xD7, 0x5E73, 0x5747, 0x56FD, 0x8A9E,
                     0xFF08, 0x9577, 0xFF09]"

definition title_eng_wide :: ustring where
  "title_eng_wide = [0x68D2, 0x30B0, 0x30E9, 0x30D5, 0x7528, 0x5F, 0x82F1, 0x8A9E, 0xFF08,
                     0x6A2A, 0xFF09]"

definition title_math_wide :: ustring where
  "title_math_wide = [0x68D2, 0x30B0, 0x30E9, 0x30D5, 0x7528, 0x5F, 0x6570, 0x5B66, 0xFF08,
                      0x6A2A, 0xFF09]"

definition title_jpn_wide :: ustring where
  "title_jpn_wide = [0x68D2, 0x30B0, 0x30E9, 0x30D5, 0x7528, 0x5F, 0x56FD, 0x8A9E, 0xFF08,
                     0x6A2A, 0xFF09]"

definition title_ref_eng :: ustring where
  "title_ref_eng = [0x53C2, 0x8003, 0x5F, 0x82F1, 0x8A9E, 0x20, 0x7DE0, 0x5207, 0x8D85, 0x904E,
                    0x6570, 0x306E, 0x5206, 0x5E03]"

definition title_ref_math :: ustring where
  "title_ref_math = [0x53C2, 0x8003, 0x5F, 0x6570, 0x5B66, 0x20, 0x7DE0, 0x5207, 0x8D85, 0x904E,
                     0x6570, 0x306E, 0x5206, 0x5E03]"

definition title_meta :: ustring where
  "title_meta = [0x96C6, 0x8A08, 0x30E1, 0x30BF, 0x30C7, 0x30FC, 0x30BF]"

text \<open>
  The run: the files and the overrides of the command line and the time of the run go
  in; the sheets of the written workbook come out, as titles and tables in the order of
  writing, or nothing when there is no record. The header names and the styling of the
  sheets are left out.
\<close>

definition panel_of :: "re_tables \<Rightarrow> (ustring \<rightharpoonup> datetime) \<Rightarrow> workbook list \<Rightarrow> panel_row list" where
  "panel_of u cutoff_override files = concat (map (merged_of u cutoff_override) files)"

definition main ::
  "re_tables \<Rightarrow> workbook list \<Rightarrow> (ustring \<rightharpoonup> datetime) \<Rightarrow> ustring \<Rightarrow> (ustring \<times> table) list option" where
  "main u files cutoff_override run_ts =
     (let records = map (merged_of u cutoff_override) files;
          meta_rows = map (meta_of u cutoff_override run_ts) files
      in if records = [] then None
         else
           let panel = concat records;
               t_eng = summarize_long panel eng_mas (\<lambda>r. score_eng (p_exam r)) 6;
               t_math = summarize_long panel math_mas (\<lambda>r. score_math (p_exam r)) 6;
               t_jpn = summarize_long panel tot_mas (\<lambda>r. score_jpn (p_exam r)) 12;
               w_eng = summarize_wide t_eng;
               w_math = summarize_wide t_math;
               w_jpn = summarize_wide t_jpn;
               ref_eng = summarize_distribution panel eng_late 6;
               ref_math = summarize_distribution panel math_late 6
           in Some [(title_eng_long, Long t_eng),
                    (title_math_long, Long t_math),
                    (title_jpn_long, Long t_jpn),
                    (title_eng_wide, Wide w_eng),
                    (title_math_wide, Wide w_math),
                    (title_jpn_wide, Wide w_jpn),
                    (title_ref_eng, Dist ref_eng),
                    (title_ref_math, Dist ref_math),
                    (title_meta, Meta meta_rows)])"

section \<open>What the tables are to hold\<close>

text \<open>
  The cell of a long table for a cohort and a key: the rows of the panel of that cohort
  and key that have a score give the head count and the mean; without such a row the
  head count is 0 and the mean is missing. The same for a distribution table, which
  takes all rows and has no mean.
\<close>

definition long_cell ::
  "panel_row list \<Rightarrow> (panel_row \<Rightarrow> int) \<Rightarrow> (panel_row \<Rightarrow> rat option) \<Rightarrow> ustring \<Rightarrow> int \<Rightarrow> long_row" where
  "long_cell df key score_col c b =
     (let grp = filter (\<lambda>r. grade_norm (p_exam r) = c \<and> key r = b)
                  (filter (\<lambda>r. score_col r \<noteq> None) df)
      in if grp = [] then \<lparr>l_cohort = c, l_key = b, l_count = 0, l_mean = None\<rparr>
         else \<lparr>l_cohort = c, l_key = b,
               l_count = int (length (remdups (map (\<lambda>r. student_id (p_exam r)) grp))),
               l_mean = Some (round1 (mean (List.map_filter score_col grp)))\<rparr>)"

definition dist_cell :: "panel_row list \<Rightarrow> (panel_row \<Rightarrow> int) \<Rightarrow> ustring \<Rightarrow> int \<Rightarrow> dist_row" where
  "dist_cell df key c b =
     (let grp = filter (\<lambda>r. grade_norm (p_exam r) = c \<and> key r = b) df
      in \<lparr>d_cohort = c, d_key = b,
          d_count = (if grp = [] then 0
                     else int (length (remdups (map (\<lambda>r. student_id (p_exam r)) grp))))\<rparr>)"

text \<open>The rows extracted from the results sheets of a file, before grouping.\<close>

definition exam_entries :: "re_tables \<Rightarrow> workbook \<Rightarrow> exam_row list" where
  "exam_entries u fp =
     concat (List.map_filter (\<lambda>s. exam_frame u (clean_cols (read_excel fp s)))
               (pick_exam_sheets (sheet_names fp)))"

text \<open>A panel row for the examples: student 8 of the lower cohort, nothing completed.\<close>

definition ex_row :: panel_row where
  "ex_row =
     \<lparr>p_exam = \<lparr>student_id = 8, grade_norm = kou1_2, score_eng = Some 80,
                 score_math = Some 30, score_jpn = None\<rparr>,
      eng_mas = 0, math_mas = 0, tot_mas = 0, yyyymm_or_year = asc ''2024'' @ kekka,
      eng_late = 1, math_late = 0\<rparr>"

section \<open>An example workbook\<close>

text \<open>
  The workbook has a results sheet with the students 7 and 8, whose math cells are
  partly blank, and two sheets of the first English unit: student 7 completed it on
  2025-01-10 by the first sheet and on 2025-02-01 by the second, student 8 on
  2025-02-10, and student 9, who is in no results sheet, not at all. Its stem is 2024
  followed by U+7D50 U+679C, so its cutoff is 2025-01-18.
\<close>

definition number_cell :: "rat \<Rightarrow> cell" where
  "number_cell q = \<lparr>c_num = Some q, c_date = None, c_text = []\<rparr>"

definition date_cell :: "datetime \<Rightarrow> cell" where
  "date_cell d = \<lparr>c_num = None, c_date = Some d, c_text = []\<rparr>"

definition text_cell :: "ustring \<Rightarrow> cell" where
  "text_cell s = \<lparr>c_num = None, c_date = None, c_text = s\<rparr>"

definition ex_results :: frame where
  "ex_results =
     \<lparr>columns = [seito_bango, gakunen, eigo, sugaku_1A, sugaku_2BC],
      rows = [[number_cell 7, text_cell [0xFF13, 0x5E74], number_cell 50, blank, blank],
              [number_cell 8, text_cell (asc ''1''), number_cell 80, number_cell 30, blank]]\<rparr>"

definition ex_unit_a :: frame where
  "ex_unit_a =
     \<lparr>columns = [seito_bango, kanzen_shutokubi],
      rows = [[number_cell 7, date_cell (datetime 2025 1 10)],
              [number_cell 8, date_cell (datetime 2025 2 10)],
              [number_cell 9, blank]]\<rparr>"

definition ex_unit_b :: frame where
  "ex_unit_b =
     \<lparr>columns = [seito_bango, kanzen_shutokubi],
      rows = [[number_cell 7, date_cell (datetime 2025 2 1)]]\<rparr>"

definition sheet_2024_results :: ustring where
  "sheet_2024_results = asc ''2024'' @ godo_kyote_kekka"

definition sheet_2024b_eitango1800 :: ustring where
  "sheet_2024b_eitango1800 = asc ''2024b'' @ eitango1800"

definition ex_book :: workbook where
  "ex_book =
     \<lparr>file_name = asc ''2024'' @ kekka @ asc ''.xlsx'',
      file_stem = asc ''2024'' @ kekka,
      file_sheets = [(sheet_2024_results, ex_results),
                     (sheet_2024_eitango1800, ex_unit_a),
                     (sheet_2024b_eitango1800, ex_unit_b)]\<rparr>"

definition cutoff_2025 :: datetime where
  "cutoff_2025 = datetime 2025 1 18"

definition ex_run_ts :: ustring where
  "ex_run_ts = asc ''2025-09-30 10:06:35''"

section \<open>Cutoff resolution: properties\<close>

lemma search_digits_None: "search_digits n s = None \<longleftrightarrow> \<not> has_digit_run n s"
proof (induction s)
  case Nil
  show ?case by (auto simp: has_digit_run_def)
next
  case (Cons c cs)
  show ?case
  proof (cases "n \<le> Suc (length cs) \<and> list_all isdecimal (take n (c # cs))")
    case True
    then have "c # cs = [] @ take n (c # cs) @ drop n (c # cs)"
      and "length (take n (c # cs)) = n" by auto
    with True have "has_digit_run n (c # cs)"
      unfolding has_digit_run_def by blast
    with True show ?thesis by simp
  next
    case False
    have "has_digit_run n (c # cs) \<longleftrightarrow> has_digit_run n cs"
    proof
      assume "has_digit_run n (c # cs)"
      then obtain pre run post where
        s: "c # cs = pre @ run @ post" and l: "length run = n" and d: "list_all isdecimal run"
        unfolding has_digit_run_def by blast
      show "has_digit_run n cs"
      proof (cases pre)
        case Nil
        with s have e: "c # cs = run @ post" by simp
        then have "length (c # cs) = length run + length post"
          by (metis length_append)
        then have "length run \<le> Suc (length cs)" by simp
        with e l have "take n (c # cs) = run" "n \<le> Suc (length cs)"
          by auto
        with d False show ?thesis by simp
      next
        case (Cons p ps)
        with s have "cs = ps @ run @ post" by simp
        with l d show ?thesis unfolding has_digit_run_def by blast
      qed
    next
      assume "has_digit_run n cs"
      then obtain pre run post where
        "cs = pre @ run @ post" "length run = n" "list_all isdecimal run"
        unfolding has_digit_run_def by blast
      then have "c # cs = (c # pre) @ run @ post" by simp
      with \<open>length run = n\<close> \<open>list_all isdecimal run\<close> show "has_digit_run n (c # cs)"
        unfolding has_digit_run_def by blast
    qed
    moreover from False have "search_digits n (c # cs) = search_digits n cs" by auto
    ultimately show ?thesis using Cons.IH by simp
  qed
qed

lemma search_digits_Some:
  "search_digits n s = Some k \<Longrightarrow> length k = n \<and> list_all isdecimal k \<and> (\<exists>pre post. s = pre @ k @ post)"
proof (induction s)
  case Nil
  then show ?case by (auto split: if_splits)
next
  case (Cons c cs)
  show ?case
  proof (cases "n \<le> Suc (length cs) \<and> list_all isdecimal (take n (c # cs))")
    case True
    with Cons.prems have k: "k = take n (c # cs)" by simp
    have "c # cs = [] @ take n (c # cs) @ drop n (c # cs)" by simp
    with k True show ?thesis by (metis length_take min.absorb2 length_Cons)
  next
    case False
    with Cons.prems have "search_digits n cs = Some k" by simp
    from Cons.IH [OF this] obtain pre post where
      "length k = n" "list_all isdecimal k" "cs = pre @ k @ post" by blast
    then have "c # cs = (c # pre) @ k @ post" by simp
    with \<open>length k = n\<close> \<open>list_all isdecimal k\<close> show ?thesis by blast
  qed
qed

lemma EXAM_CUTOFF_BY_YEAR_1: "EXAM_CUTOFF_BY_YEAR (Suc 0) = None"
  by (simp add: EXAM_CUTOFF_BY_YEAR_def)

lemma isdecimal_ascii:
  "isdecimal 0x30" "isdecimal 0x31" "isdecimal 0x32" "isdecimal 0x34"
  by (simp_all add: isdecimal_def digit_value_def decimal_zeros_def)

lemma not_decimal_kekka: "\<not> isdecimal 0x7D50" "\<not> isdecimal 0x679C"
  by (simp_all add: isdecimal_def digit_value_def decimal_zeros_def)

lemma search6_202410: "search_digits 6 (asc ''202410'' @ kekka) = Some (asc ''202410'')"
  by (simp add: asc_def kekka_def isdecimal_ascii)

lemma search6_2024: "search_digits 6 (asc ''2024'' @ kekka) = None"
  by (simp add: asc_def kekka_def not_decimal_kekka)

lemma search4_2024: "search_digits 4 (asc ''2024'' @ kekka) = Some (asc ''2024'')"
  by (simp add: asc_def kekka_def isdecimal_ascii)

lemma int_2024: "int_of_digits (asc ''2024'') = 2024"
  by (simp add: int_of_digits_def asc_def digit_value_def decimal_zeros_def)

lemma take4_202410: "take 4 (asc ''202410'') = asc ''2024''"
  by (simp add: asc_def)

lemma has_digit_run_6_4: "has_digit_run 6 s \<Longrightarrow> has_digit_run 4 s"
proof -
  assume "has_digit_run 6 s"
  then obtain pre run post where
    s: "s = pre @ run @ post" and l: "length run = 6" and d: "list_all isdecimal run"
    unfolding has_digit_run_def by blast
  have "run = take 4 run @ drop 4 run" by simp
  with s have "s = pre @ take 4 run @ (drop 4 run @ post)" by (metis append.assoc)
  moreover from l have "length (take 4 run) = 4" by simp
  moreover from d have "list_all isdecimal (take 4 run)"
    by (metis append_take_drop_id list_all_append)
  ultimately show ?thesis unfolding has_digit_run_def by blast
qed

lemma cutoff_for_stem_six:
  "search_digits 6 stem = Some k \<Longrightarrow>
   cutoff_for_stem stem om =
     (case (case om of None \<Rightarrow> Map.empty | Some m \<Rightarrow> m) k of
        Some d \<Rightarrow> Some d
      | None \<Rightarrow> EXAM_CUTOFF_BY_YEAR (int_of_digits (take 4 k) + 1))"
  by (simp add: cutoff_for_stem_def)

lemma cutoff_for_stem_no_six:
  "search_digits 6 stem = None \<Longrightarrow>
   cutoff_for_stem stem om =
     (case search_digits 4 stem of
        None \<Rightarrow> None
      | Some y \<Rightarrow> EXAM_CUTOFF_BY_YEAR (int_of_digits y + 1))"
  by (simp add: cutoff_for_stem_def detect_year_from_stem_def EXAM_CUTOFF_BY_YEAR_1
      split: option.splits)

lemma search_digits_leftmost:
  "search_digits n s = Some k \<Longrightarrow> 0 < n \<Longrightarrow>
   \<exists>pre post. s = pre @ k @ post \<and> \<not> has_digit_run n (pre @ butlast k)"
proof (induction s)
  case Nil
  then show ?case by (auto split: if_splits)
next
  case (Cons c cs)
  show ?case
  proof (cases "n \<le> Suc (length cs) \<and> list_all isdecimal (take n (c # cs))")
    case True
    with Cons.prems have k: "k = take n (c # cs)" by simp
    with True have l: "length k = n" by simp
    have s: "c # cs = [] @ k @ drop n (c # cs)" unfolding k by simp
    have "\<not> has_digit_run n ([] @ butlast k)"
    proof
      assume "has_digit_run n ([] @ butlast k)"
      then obtain pre run post where
        e: "butlast k = pre @ run @ post" and r: "length run = n"
        unfolding has_digit_run_def by auto
      have "length (butlast k) = length pre + length run + length post"
        unfolding e by simp
      with l r Cons.prems(2) show False by simp
    qed
    with s show ?thesis by blast
  next
    case False
    with Cons.prems have sk: "search_digits n cs = Some k" by simp
    from Cons.IH [OF this Cons.prems(2)] obtain pre post where
      cs: "cs = pre @ k @ post" and no: "\<not> has_digit_run n (pre @ butlast k)" by blast
    from search_digits_Some [OF sk] have l: "length k = n" by blast
    with Cons.prems(2) have kn: "k \<noteq> []" by auto
    let ?L = "c # pre @ butlast k"
    have full: "c # cs = ?L @ ([last k] @ post)"
      using kn cs by simp
    have head: "\<not> (n \<le> length ?L \<and> list_all isdecimal (take n ?L))"
    proof
      assume a: "n \<le> length ?L \<and> list_all isdecimal (take n ?L)"
      then have "take n (c # cs) = take n ?L"
        unfolding full by (simp only: take_append) simp
      moreover from a full have "n \<le> Suc (length cs)"
        by (metis length_append le_add1 le_trans length_Cons)
      ultimately show False using a False by simp
    qed
    from no have "search_digits n (pre @ butlast k) = None"
      by (simp add: search_digits_None)
    with head have "search_digits n ?L = None" by auto
    then have "\<not> has_digit_run n ?L"
      by (rule iffD1 [OF search_digits_None])
    then have "\<not> has_digit_run n ((c # pre) @ butlast k)" by simp
    moreover from cs have "c # cs = (c # pre) @ k @ post" by simp
    ultimately show ?thesis by blast
  qed
qed

lemma search6_1202410:
  "search_digits 6 (asc ''1202410'' @ kekka) = Some (asc ''120241'')"
  by (simp add: asc_def kekka_def isdecimal_ascii)

lemma take4_120241: "take 4 (asc ''120241'') = asc ''1202''"
  by (simp add: asc_def)

lemma int_1202: "int_of_digits (asc ''1202'') = 1202"
  by (simp add: int_of_digits_def asc_def digit_value_def decimal_zeros_def)

lemma EXAM_CUTOFF_BY_YEAR_1203: "EXAM_CUTOFF_BY_YEAR 1203 = None"
  by (simp add: EXAM_CUTOFF_BY_YEAR_def)

lemma asc_neq: "asc ''120241'' \<noteq> asc ''202410''"
  by (simp add: asc_def)

lemma digits_202410: "list_all isdecimal (asc ''202410'')"
  by (simp add: asc_def isdecimal_ascii)

text \<open>
  Claim C3, as the code has it. Cutoff resolution on a file-name stem looks at one 6-digit
  run of the stem only, the leftmost one, which is the match \<open>re.search\<close> returns: six
  digits in a row before whose last digit no six digits in a row end. When that run is a
  key of the override map, the override date is returned whatever the calendar holds.
  Otherwise the first four digits of that run, or failing a 6-digit run the leftmost
  4-digit run, give a year Y and the result is the entry of the fixed calendar for Y+1,
  which is no cutoff when the calendar has no such entry; a later 6-digit run of the stem
  is not looked up. A stem with no 4-digit run has no cutoff, and a stem with no 6-digit
  run resolves the same with and without overrides. The stem 202410 followed by
  U+7D50 U+679C without override and the stem 2024 followed by the same two characters
  both resolve to the calendar's entry for 2025, and the override of 202410 by 2025-03-01
  resolves the first stem to 2025-03-01.
\<close>

theorem cutoff_for_stem_resolution:
  fixes om :: "ustring \<rightharpoonup> datetime"
  shows
  "(search_digits 6 stem = Some k \<and> om k = Some d \<longrightarrow> cutoff_for_stem stem (Some om) = Some d) \<and>
   (search_digits 6 stem = Some k \<and> om k = None \<longrightarrow>
      cutoff_for_stem stem (Some om) = EXAM_CUTOFF_BY_YEAR (int_of_digits (take 4 k) + 1)) \<and>
   (search_digits 6 stem = Some k \<longrightarrow>
      cutoff_for_stem stem None = EXAM_CUTOFF_BY_YEAR (int_of_digits (take 4 k) + 1)) \<and>
   (\<not> has_digit_run 6 stem \<and> search_digits 4 stem = Some y \<longrightarrow>
      cutoff_for_stem stem (Some om) = EXAM_CUTOFF_BY_YEAR (int_of_digits y + 1)) \<and>
   (\<not> has_digit_run 6 stem \<longrightarrow> cutoff_for_stem stem (Some om) = cutoff_for_stem stem None) \<and>
   (\<not> has_digit_run 4 stem \<longrightarrow> cutoff_for_stem stem (Some om) = None) \<and>
   cutoff_for_stem (asc ''202410'' @ kekka) None = EXAM_CUTOFF_BY_YEAR 2025 \<and>
   cutoff_for_stem (asc ''2024'' @ kekka) None = EXAM_CUTOFF_BY_YEAR 2025 \<and>
   cutoff_for_stem (asc ''202410'' @ kekka) (Some [asc ''202410'' \<mapsto> datetime 2025 3 1])
     = Some (datetime 2025 3 1) \<and>
   (search_digits 6 stem = Some k \<longrightarrow>
      length k = 6 \<and> list_all isdecimal k \<and>
      (\<exists>pre post. stem = pre @ k @ post \<and> \<not> has_digit_run 6 (pre @ butlast k)))"
proof (intro conjI impI)
  assume "search_digits 6 stem = Some k \<and> om k = Some d"
  then show "cutoff_for_stem stem (Some om) = Some d"
    by (simp add: cutoff_for_stem_six)
next
  assume "search_digits 6 stem = Some k \<and> om k = None"
  then show "cutoff_for_stem stem (Some om) = EXAM_CUTOFF_BY_YEAR (int_of_digits (take 4 k) + 1)"
    by (simp add: cutoff_for_stem_six)
next
  assume "search_digits 6 stem = Some k"
  then show "cutoff_for_stem stem None = EXAM_CUTOFF_BY_YEAR (int_of_digits (take 4 k) + 1)"
    by (simp add: cutoff_for_stem_six)
next
  assume "\<not> has_digit_run 6 stem \<and> search_digits 4 stem = Some y"
  then show "cutoff_for_stem stem (Some om) = EXAM_CUTOFF_BY_YEAR (int_of_digits y + 1)"
    by (simp add: cutoff_for_stem_no_six search_digits_None)
next
  assume "\<not> has_digit_run 6 stem"
  then have "search_digits 6 stem = None" by (simp add: search_digits_None)
  then show "cutoff_for_stem stem (Some om) = cutoff_for_stem stem None"
    by (simp add: cutoff_for_stem_no_six)
next
  assume n4: "\<not> has_digit_run 4 stem"
  then have "\<not> has_digit_run 6 stem" using has_digit_run_6_4 by blast
  with n4 have "search_digits 6 stem = None" "search_digits 4 stem = None"
    by (simp_all add: search_digits_None)
  then show "cutoff_for_stem stem (Some om) = None"
    by (simp add: cutoff_for_stem_no_six)
next
  show "cutoff_for_stem (asc ''202410'' @ kekka) None = EXAM_CUTOFF_BY_YEAR 2025"
    by (simp add: cutoff_for_stem_six [OF search6_202410] take4_202410 int_2024)
next
  show "cutoff_for_stem (asc ''2024'' @ kekka) None = EXAM_CUTOFF_BY_YEAR 2025"
    by (simp add: cutoff_for_stem_no_six [OF search6_2024] search4_2024 int_2024)
next
  show "cutoff_for_stem (asc ''202410'' @ kekka) (Some [asc ''202410'' \<mapsto> datetime 2025 3 1])
     = Some (datetime 2025 3 1)"
    by (simp add: cutoff_for_stem_six [OF search6_202410])
next
  assume k: "search_digits 6 stem = Some k"
  from search_digits_Some [OF k] show "length k = 6" by blast
  from search_digits_Some [OF k] show "list_all isdecimal k" by blast
  from search_digits_leftmost [OF k]
  show "\<exists>pre post. stem = pre @ k @ post \<and> \<not> has_digit_run 6 (pre @ butlast k)" by simp
qed

theorem cutoff_for_stem_resolution_witness:
  "search_digits 6 (asc ''202410'' @ kekka) = Some (asc ''202410'') \<and>
   cutoff_for_stem (asc ''202410'' @ kekka) (Some [asc ''202410'' \<mapsto> datetime 2025 3 1])
     = Some (datetime 2025 3 1) \<and>
   cutoff_for_stem (asc ''202410'' @ kekka) (Some Map.empty) = Some (datetime 2025 1 18) \<and>
   \<not> has_digit_run 6 (asc ''2024'' @ kekka) \<and>
   search_digits 4 (asc ''2024'' @ kekka) = Some (asc ''2024'') \<and>
   cutoff_for_stem (asc ''2024'' @ kekka) (Some [asc ''202410'' \<mapsto> datetime 2025 3 1])
     = Some (datetime 2025 1 18) \<and>
   \<not> has_digit_run 4 kekka \<and>
   cutoff_for_stem kekka (Some [asc ''202410'' \<mapsto> datetime 2025 3 1]) = None"
proof -
  have n6: "\<not> has_digit_run 6 (asc ''2024'' @ kekka)"
    using search6_2024 by (simp add: search_digits_None)
  have n4: "\<not> has_digit_run 4 kekka"
    by (simp add: search_digits_None [symmetric] kekka_def not_decimal_kekka)
  have e: "EXAM_CUTOFF_BY_YEAR 2025 = Some (datetime 2025 1 18)"
    by (simp add: EXAM_CUTOFF_BY_YEAR_def)
  note a = cutoff_for_stem_resolution
    [of "asc ''202410'' @ kekka" "asc ''202410''" "[asc ''202410'' \<mapsto> datetime 2025 3 1]"
        "datetime 2025 3 1" "asc ''2024''"]
  note b = cutoff_for_stem_resolution
    [of "asc ''202410'' @ kekka" "asc ''202410''" "Map.empty" "datetime 2025 3 1" "asc ''2024''"]
  note c = cutoff_for_stem_resolution
    [of "asc ''2024'' @ kekka" "asc ''202410''" "[asc ''202410'' \<mapsto> datetime 2025 3 1]"
        "datetime 2025 3 1" "asc ''2024''"]
  note d = cutoff_for_stem_resolution
    [of kekka "asc ''202410''" "[asc ''202410'' \<mapsto> datetime 2025 3 1]"
        "datetime 2025 3 1" "asc ''2024''"]
  from a have 1: "cutoff_for_stem (asc ''202410'' @ kekka) (Some [asc ''202410'' \<mapsto> datetime 2025 3 1])
     = Some (datetime 2025 3 1)" by blast
  from b search6_202410 have 2: "cutoff_for_stem (asc ''202410'' @ kekka) (Some Map.empty) = Some (datetime 2025 1 18)"
    by (simp add: take4_202410 int_2024 e)
  from c n6 search4_2024 have 3: "cutoff_for_stem (asc ''2024'' @ kekka) (Some [asc ''202410'' \<mapsto> datetime 2025 3 1])
     = Some (datetime 2025 1 18)"
    by (simp add: int_2024 e)
  from d n4 have 4: "cutoff_for_stem kekka (Some [asc ''202410'' \<mapsto> datetime 2025 3 1]) = None"
    by blast
  from 1 2 3 4 n6 n4 search6_202410 search4_2024 show ?thesis by blast
qed

theorem cutoff_for_stem_later_run_counterexample:
  "asc ''1202410'' @ kekka = asc ''1'' @ asc ''202410'' @ kekka \<and>
   length (asc ''202410'') = 6 \<and>
   list_all isdecimal (asc ''202410'') \<and>
   has_digit_run 6 (asc ''1202410'' @ kekka) \<and>
   [asc ''202410'' \<mapsto> datetime 2025 3 1] (asc ''202410'') = Some (datetime 2025 3 1) \<and>
   cutoff_for_stem (asc ''1202410'' @ kekka) (Some [asc ''202410'' \<mapsto> datetime 2025 3 1]) = None \<and>
   cutoff_for_stem (asc ''1202410'' @ kekka) (Some [asc ''202410'' \<mapsto> datetime 2025 3 1])
     \<noteq> Some (datetime 2025 3 1)"
proof -
  have a: "asc ''1202410'' @ kekka = asc ''1'' @ asc ''202410'' @ kekka"
    by (simp add: asc_def)
  have b: "length (asc ''202410'') = 6" by (simp add: asc_def)
  have h: "has_digit_run 6 (asc ''1202410'' @ kekka)"
    using search6_1202410 search_digits_None [of 6 "asc ''1202410'' @ kekka"] by simp
  have c: "[asc ''202410'' \<mapsto> datetime 2025 3 1] (asc ''202410'') = Some (datetime 2025 3 1)"
    by simp
  have d: "cutoff_for_stem (asc ''1202410'' @ kekka) (Some [asc ''202410'' \<mapsto> datetime 2025 3 1]) = None"
    using asc_neq
    by (simp add: cutoff_for_stem_six [OF search6_1202410] take4_120241 int_1202
        EXAM_CUTOFF_BY_YEAR_1203)
  then have e: "cutoff_for_stem (asc ''1202410'' @ kekka) (Some [asc ''202410'' \<mapsto> datetime 2025 3 1])
     \<noteq> Some (datetime 2025 3 1)" by simp
  show ?thesis by (intro conjI a b digits_202410 h c d e)
qed

section \<open>Grade normalization: properties\<close>

lemma not_isspace_3: "\<not> isspace 0x33"
  by (simp add: isspace_def)

lemma first_char_dropWhile_3:
  "first_char (dropWhile isspace cs) = Some 0x33 \<longleftrightarrow>
     (\<exists>ws post. cs = ws @ [0x33] @ post \<and> list_all isspace ws)"
proof
  assume a: "first_char (dropWhile isspace cs) = Some 0x33"
  then obtain post where d: "dropWhile isspace cs = 0x33 # post"
    by (auto simp: first_char_def split: list.splits)
  have "cs = takeWhile isspace cs @ dropWhile isspace cs" by simp
  with d have "cs = takeWhile isspace cs @ [0x33] @ post" by simp
  moreover have "list_all isspace (takeWhile isspace cs)"
    by (simp add: list_all_iff) (meson set_takeWhileD)
  ultimately show "\<exists>ws post. cs = ws @ [0x33] @ post \<and> list_all isspace ws" by blast
next
  assume "\<exists>ws post. cs = ws @ [0x33] @ post \<and> list_all isspace ws"
  then obtain ws post where c: "cs = ws @ [0x33] @ post" and w: "list_all isspace ws" by blast
  from w have "dropWhile isspace (ws @ 0x33 # post) = dropWhile isspace (0x33 # post)"
    by (simp add: list_all_iff dropWhile_append)
  with c show "first_char (dropWhile isspace cs) = Some 0x33"
    by (simp add: first_char_def not_isspace_3)
qed

lemma marker_from_Nil: "\<not> marker_from u prev []"
  by (simp add: marker_from_def)

lemma marker_from_Cons:
  "marker_from u prev (c # cs) \<longleftrightarrow> grade3_at u prev (c # cs) \<or> marker_from u (Some c) cs"
proof
  assume "marker_from u prev (c # cs)"
  then consider
    (a) pre ws post where "c # cs = pre @ [0x9AD8] @ ws @ [0x33] @ post" "list_all isspace ws"
  | (b) pre post where "c # cs = pre @ [0x33, 0x5E74] @ post"
  | (c) pre post where "c # cs = pre @ [0x33] @ post"
      "boundary u (if pre = [] then prev else Some (last pre)) (Some 0x33)"
      "boundary u (Some 0x33) (first_char post)"
    unfolding marker_from_def by blast
  then show "grade3_at u prev (c # cs) \<or> marker_from u (Some c) cs"
  proof cases
    case a
    show ?thesis
    proof (cases pre)
      case Nil
      with a have "c = 0x9AD8" "cs = ws @ [0x33] @ post" by simp_all
      with a(2) have "first_char (dropWhile isspace cs) = Some 0x33"
        using first_char_dropWhile_3 by blast
      with \<open>c = 0x9AD8\<close> show ?thesis by (simp add: grade3_at_def)
    next
      case (Cons p ps)
      with a have "cs = ps @ [0x9AD8] @ ws @ [0x33] @ post" by simp
      with a(2) show ?thesis unfolding marker_from_def by blast
    qed
  next
    case b
    show ?thesis
    proof (cases pre)
      case Nil
      with b show ?thesis by (simp add: grade3_at_def first_char_def)
    next
      case (Cons p ps)
      with b have "cs = ps @ [0x33, 0x5E74] @ post" by simp
      then show ?thesis unfolding marker_from_def by blast
    qed
  next
    case c
    show ?thesis
    proof (cases pre)
      case Nil
      with c show ?thesis by (simp add: grade3_at_def)
    next
      case (Cons p ps)
      with c have e: "cs = ps @ [0x33] @ post" and pc: "p = c" by simp_all
      from c(2) Cons pc have
        "boundary u (if ps = [] then Some c else Some (last ps)) (Some 0x33)"
        by (simp split: if_splits)
      with e c(3) show ?thesis unfolding marker_from_def by blast
    qed
  qed
next
  assume "grade3_at u prev (c # cs) \<or> marker_from u (Some c) cs"
  then show "marker_from u prev (c # cs)"
  proof
    assume "grade3_at u prev (c # cs)"
    then consider
      (a) "c = 0x9AD8" "first_char (dropWhile isspace cs) = Some 0x33"
    | (b) "c = 0x33" "first_char cs = Some 0x5E74"
    | (c) "c = 0x33" "boundary u prev (Some c)" "boundary u (Some c) (first_char cs)"
      by (auto simp: grade3_at_def)
    then show ?thesis
    proof cases
      case a
      then obtain ws post where "cs = ws @ [0x33] @ post" "list_all isspace ws"
        using first_char_dropWhile_3 by blast
      with a(1) have "c # cs = [] @ [0x9AD8] @ ws @ [0x33] @ post" by simp
      with \<open>list_all isspace ws\<close> show ?thesis unfolding marker_from_def by blast
    next
      case b
      then obtain post where "cs = 0x5E74 # post"
        by (auto simp: first_char_def split: list.splits)
      with b(1) have "c # cs = [] @ [0x33, 0x5E74] @ post" by simp
      then show ?thesis unfolding marker_from_def by blast
    next
      case c
      then have "c # cs = [] @ [0x33] @ cs" by simp
      moreover from c have "boundary u (if ([]::ustring) = [] then prev else Some (last [])) (Some 0x33)"
        by simp
      moreover from c have "boundary u (Some 0x33) (first_char cs)" by simp
      ultimately show ?thesis unfolding marker_from_def by blast
    qed
  next
    assume "marker_from u (Some c) cs"
    then consider
      (a) pre ws post where "cs = pre @ [0x9AD8] @ ws @ [0x33] @ post" "list_all isspace ws"
    | (b) pre post where "cs = pre @ [0x33, 0x5E74] @ post"
    | (c) pre post where "cs = pre @ [0x33] @ post"
        "boundary u (if pre = [] then Some c else Some (last pre)) (Some 0x33)"
        "boundary u (Some 0x33) (first_char post)"
      unfolding marker_from_def by blast
    then show ?thesis
    proof cases
      case a
      then have "c # cs = (c # pre) @ [0x9AD8] @ ws @ [0x33] @ post" by simp
      with a(2) show ?thesis unfolding marker_from_def by blast
    next
      case b
      then have "c # cs = (c # pre) @ [0x33, 0x5E74] @ post" by simp
      then show ?thesis unfolding marker_from_def by blast
    next
      case c
      then have "c # cs = (c # pre) @ [0x33] @ post" by simp
      moreover from c(2) have
        "boundary u (if c # pre = [] then prev else Some (last (c # pre))) (Some 0x33)"
        by (simp split: if_splits)
      ultimately show ?thesis using c(3) unfolding marker_from_def by blast
    qed
  qed
qed

lemma grade3_search_marker: "grade3_search u prev s \<longleftrightarrow> marker_from u prev s"
  by (induction s arbitrary: prev) (simp_all add: marker_from_Nil marker_from_Cons)

lemma grade3_marker_from: "grade3_marker u s \<longleftrightarrow> marker_from u None s"
  by (auto simp: grade3_marker_def marker_from_def last_char_def)

lemma kou_differ: "kou3 \<noteq> kou1_2"
  by (simp add: kou3_def kou1_2_def)

lemmas grade_eval = normalize_grade_val_def strip_def grade_trans_def isspace_def
  grade3_at_def first_char_def asc_def

text \<open>
  Claim C9. Grade normalization always returns one of the two cohort labels. The input is
  translated from full-width to half-width and stripped, and the result is the grade-3
  label exactly when the translated text holds a grade-3 marker, the other label
  otherwise. The full-width 3 followed by U+5E74 gives the grade-3 label; the text 1, the
  empty text, a space, an ideographic space and the text of a missing cell give the
  other label.
\<close>

theorem normalize_grade_val_cohorts:
  "(normalize_grade_val u x = kou3 \<or> normalize_grade_val u x = kou1_2) \<and>
   (normalize_grade_val u x = kou3 \<longleftrightarrow> grade3_marker u (strip (map grade_trans x))) \<and>
   (normalize_grade_val u x = kou1_2 \<longleftrightarrow> \<not> grade3_marker u (strip (map grade_trans x))) \<and>
   normalize_grade_val u [0xFF13, 0x5E74] = kou3 \<and>
   normalize_grade_val u (asc ''1'') = kou1_2 \<and>
   normalize_grade_val u [] = kou1_2 \<and>
   normalize_grade_val u (asc '' '') = kou1_2 \<and>
   normalize_grade_val u [0x3000] = kou1_2 \<and>
   normalize_grade_val u (asc ''nan'') = kou1_2"
proof -
  have "normalize_grade_val u x = kou3 \<or> normalize_grade_val u x = kou1_2"
    by (simp add: normalize_grade_val_def)
  moreover have "normalize_grade_val u x = kou3 \<longleftrightarrow> grade3_marker u (strip (map grade_trans x))"
    using kou_differ by (simp add: normalize_grade_val_def grade3_search_marker grade3_marker_from)
  moreover have "normalize_grade_val u x = kou1_2 \<longleftrightarrow> \<not> grade3_marker u (strip (map grade_trans x))"
    using kou_differ by (simp add: normalize_grade_val_def grade3_search_marker grade3_marker_from)
  moreover have "normalize_grade_val u [0xFF13, 0x5E74] = kou3"
    by (simp add: grade_eval)
  moreover have "normalize_grade_val u (asc ''1'') = kou1_2"
    by (simp add: grade_eval)
  moreover have "normalize_grade_val u [] = kou1_2"
    by (simp add: grade_eval)
  moreover have "normalize_grade_val u (asc '' '') = kou1_2"
    by (simp add: grade_eval)
  moreover have "normalize_grade_val u [0x3000] = kou1_2"
    by (simp add: grade_eval)
  moreover have "normalize_grade_val u (asc ''nan'') = kou1_2"
    by (simp add: grade_eval)
  ultimately show ?thesis by blast
qed

section \<open>Sheet matcher: properties\<close>

lemma norm_no_space: "c \<in> set (norm_str x) \<Longrightarrow> \<not> isspace c"
  by (simp add: norm_str_def)

lemma dropWhile_no_space: "\<forall>c \<in> set s. \<not> isspace c \<Longrightarrow> dropWhile isspace s = s"
  by (cases s) simp_all

lemma all_space_no_space:
  assumes "\<forall>c \<in> set s. \<not> isspace c"
  shows "list_all isspace s \<longleftrightarrow> s = []"
  using assms by (cases s) simp_all

lemma isspace_LF: "isspace 0x0A"
  by (simp add: isspace_def)

lemma tail_match_no_space:
  assumes ns: "\<forall>c \<in> set s. \<not> isspace c"
  shows "tail_match u T s \<longleftrightarrow> (\<exists>mid e. s = mid @ e \<and> list_all2 (ignorecase u) T e)"
proof
  assume "tail_match u T s"
  then obtain k where k: "k \<in> set [0..<Suc (length s)]"
    and len: "length T \<le> length (drop k s)"
    and m: "list_all2 (ignorecase u) T (take (length T) (drop k s))"
    and sp: "list_all isspace (drop (length T) (drop k s))"
    unfolding tail_match_def by blast
  from ns have "\<forall>c \<in> set (drop (length T) (drop k s)). \<not> isspace c"
    by (meson in_set_dropD)
  with sp have "drop (length T) (drop k s) = []"
    using all_space_no_space by blast
  then have "take (length T) (drop k s) = drop k s" by simp
  with m have "list_all2 (ignorecase u) T (drop k s)" by simp
  moreover have "s = take k s @ drop k s" by simp
  ultimately show "\<exists>mid e. s = mid @ e \<and> list_all2 (ignorecase u) T e" by blast
next
  assume "\<exists>mid e. s = mid @ e \<and> list_all2 (ignorecase u) T e"
  then obtain mid e where s: "s = mid @ e" and m: "list_all2 (ignorecase u) T e" by blast
  from m have l: "length T = length e" by (rule list_all2_lengthD)
  let ?k = "length mid"
  from s have "?k \<in> set [0..<Suc (length s)]" by simp
  moreover from ns s isspace_LF have "0x0A \<notin> set (dropWhile isspace (take ?k s))"
    by (auto dest: set_dropWhileD)
  moreover from s l have "length T \<le> length (drop ?k s)" by simp
  moreover from s l m have "list_all2 (ignorecase u) T (take (length T) (drop ?k s))" by simp
  moreover from s l have "list_all isspace (drop (length T) (drop ?k s))" by simp
  ultimately show "tail_match u T s" unfolding tail_match_def by blast
qed

lemma pat_match_norm:
  "pat_match u (norm_str t) (norm_str s) \<longleftrightarrow> year_unit_name u t s"
proof -
  have ns: "\<forall>c \<in> set (norm_str s). \<not> isspace c" by (simp add: norm_str_def)
  then have d: "dropWhile isspace (norm_str s) = norm_str s" by (rule dropWhile_no_space)
  from ns have ns4: "\<forall>c \<in> set (drop 4 (norm_str s)). \<not> isspace c" by (meson in_set_dropD)
  show ?thesis
  proof
    assume "pat_match u (norm_str t) (norm_str s)"
    with d have l: "4 \<le> length (norm_str s)" and dg: "list_all isdecimal (take 4 (norm_str s))"
      and tm: "tail_match u (norm_str t) (drop 4 (norm_str s))"
      by (simp_all add: pat_match_def Let_def)
    from tm ns4 obtain mid e where
      "drop 4 (norm_str s) = mid @ e" "list_all2 (ignorecase u) (norm_str t) e"
      using tail_match_no_space by blast
    moreover have "norm_str s = take 4 (norm_str s) @ drop 4 (norm_str s)" by simp
    ultimately have "norm_str s = take 4 (norm_str s) @ mid @ e" by simp
    moreover from l have "length (take 4 (norm_str s)) = 4" by simp
    ultimately show "year_unit_name u t s"
      using dg \<open>list_all2 (ignorecase u) (norm_str t) e\<close> unfolding year_unit_name_def by blast
  next
    assume "year_unit_name u t s"
    then obtain dd mid e where n: "norm_str s = dd @ mid @ e" and l: "length dd = 4"
      and dg: "list_all isdecimal dd" and m: "list_all2 (ignorecase u) (norm_str t) e"
      unfolding year_unit_name_def by blast
    from n l have "take 4 (norm_str s) = dd" "drop 4 (norm_str s) = mid @ e" "4 \<le> length (norm_str s)"
      by simp_all
    moreover from this(2) m ns4 have "tail_match u (norm_str t) (drop 4 (norm_str s))"
      using tail_match_no_space by blast
    ultimately show "pat_match u (norm_str t) (norm_str s)"
      using dg d by (simp add: pat_match_def Let_def)
  qed
qed

lemma find_compiled:
  "find (\<lambda>(t, pat). pat_match u pat (norm_str s)) (map (\<lambda>t. (t, norm_str t)) tgts) =
   map_option (\<lambda>t. (t, norm_str t)) (find (\<lambda>t. year_unit_name u t s) tgts)"
  by (induction tgts) (simp_all add: pat_match_norm)

lemma sheets_for_targets_eq:
  "sheets_for_targets u names tgts =
   concat (map (\<lambda>s. case find (\<lambda>t. year_unit_name u t s) tgts of
                       None \<Rightarrow> [] | Some t \<Rightarrow> [(t, s)]) names)"
proof -
  have "\<And>s. (case find (\<lambda>(t, pat). pat_match u pat (norm_str s)) (map (\<lambda>t. (t, norm_str t)) tgts) of
                None \<Rightarrow> [] | Some (t, pat) \<Rightarrow> [(t, s)]) =
             (case find (\<lambda>t. year_unit_name u t s) tgts of None \<Rightarrow> [] | Some t \<Rightarrow> [(t, s)])"
    by (simp add: find_compiled split: option.splits)
  then show ?thesis by (simp add: sheets_for_targets_def)
qed

lemma sheets_for_targets_Nil: "sheets_for_targets u [] tgts = []"
  by (simp add: sheets_for_targets_eq)

lemma sheets_for_targets_Cons:
  "sheets_for_targets u (s # names) tgts =
   (case find (\<lambda>t. year_unit_name u t s) tgts of None \<Rightarrow> [] | Some t \<Rightarrow> [(t, s)]) @
   sheets_for_targets u names tgts"
  by (simp add: sheets_for_targets_eq)

lemma sheets_for_targets_mem:
  "(t, s) \<in> set (sheets_for_targets u names tgts) \<longleftrightarrow>
   s \<in> set names \<and> find (\<lambda>t. year_unit_name u t s) tgts = Some t"
  by (induction names)
    (auto simp: sheets_for_targets_Nil sheets_for_targets_Cons split: option.splits)

lemma sheets_for_targets_single:
  "map snd (sheets_for_targets u names [t]) = filter (year_unit_name u t) names"
  by (induction names) (simp_all add: sheets_for_targets_Nil sheets_for_targets_Cons)

lemma year_unit_name_digits:
  "year_unit_name u t s \<Longrightarrow> 4 \<le> length (norm_str s) \<and> list_all isdecimal (take 4 (norm_str s))"
  unfolding year_unit_name_def by auto

lemma not_decimal_ei: "\<not> isdecimal 0x82F1"
  by (simp add: isdecimal_def digit_value_def decimal_zeros_def)


lemma norm_str_name:
  "norm_str eitango1800 = eitango1800"
  "norm_str sheet_2024_eitango1800 = sheet_2024_eitango1800"
  by (simp_all add: norm_str_def asc_def isspace_def eitango1800_def sheet_2024_eitango1800_def)

lemma year_unit_name_2024:
  "year_unit_name ascii_tables eitango1800 sheet_2024_eitango1800"
proof -
  have "norm_str sheet_2024_eitango1800 = asc ''2024'' @ [] @ eitango1800"
    by (simp add: norm_str_name) (simp add: sheet_2024_eitango1800_def)
  moreover have "length (asc ''2024'') = 4" by (simp add: asc_def)
  moreover have "list_all isdecimal (asc ''2024'')"
    by (simp add: asc_def isdecimal_ascii)
  moreover have "list_all2 (ignorecase ascii_tables) (norm_str eitango1800) eitango1800"
    by (simp add: norm_str_name ascii_tables_def list_all2_refl)
  ultimately show ?thesis unfolding year_unit_name_def by blast
qed

lemma eitango1800_no_year:
  "\<not> (4 \<le> length (norm_str eitango1800) \<and> list_all isdecimal (take 4 (norm_str eitango1800)))"
  by (simp add: norm_str_name) (simp add: eitango1800_def not_decimal_ei)

text \<open>
  Claim C6, as the code has it. The year is not optional: for one target, the Sheet
  Matcher returns exactly the sheet names which, with all white space removed, are four
  decimal digits, then any text, then the target name with its white space removed,
  compared without regard to case, at the end of the name. For a list of targets a sheet
  name is paired with the first target it matches in this sense. A sheet name that does
  not start with four digits is never returned, also when it ends with the unit name.
\<close>

theorem sheets_for_targets_year_required:
  "map snd (sheets_for_targets u names [t]) = filter (year_unit_name u t) names \<and>
   ((t, s) \<in> set (sheets_for_targets u names tgts) \<longleftrightarrow>
      s \<in> set names \<and> find (\<lambda>t. year_unit_name u t s) tgts = Some t) \<and>
   (\<not> (4 \<le> length (norm_str s) \<and> list_all isdecimal (take 4 (norm_str s))) \<longrightarrow>
      (t, s) \<notin> set (sheets_for_targets u names tgts))"
proof (intro conjI impI)
  show "map snd (sheets_for_targets u names [t]) = filter (year_unit_name u t) names"
    by (rule sheets_for_targets_single)
next
  show "(t, s) \<in> set (sheets_for_targets u names tgts) \<longleftrightarrow>
      s \<in> set names \<and> find (\<lambda>t. year_unit_name u t s) tgts = Some t"
    by (rule sheets_for_targets_mem)
next
  assume n: "\<not> (4 \<le> length (norm_str s) \<and> list_all isdecimal (take 4 (norm_str s)))"
  show "(t, s) \<notin> set (sheets_for_targets u names tgts)"
  proof
    assume "(t, s) \<in> set (sheets_for_targets u names tgts)"
    then have "find (\<lambda>t. year_unit_name u t s) tgts = Some t"
      by (simp add: sheets_for_targets_mem)
    then have "year_unit_name u t s" by (auto simp: find_Some_iff)
    with n show False using year_unit_name_digits by blast
  qed
qed

theorem sheets_for_targets_year_required_witness:
  "\<not> (4 \<le> length (norm_str eitango1800) \<and>
      list_all isdecimal (take 4 (norm_str eitango1800))) \<and>
   (eitango1800, eitango1800)
     \<notin> set (sheets_for_targets ascii_tables
          [sheet_2024_eitango1800,
           eitango1800]
          [eitango1800]) \<and>
   map snd (sheets_for_targets ascii_tables
          [sheet_2024_eitango1800,
           eitango1800]
          [eitango1800])
     = [sheet_2024_eitango1800]"
proof -
  let ?E = eitango1800
  let ?Y = sheet_2024_eitango1800
  have n: "\<not> (4 \<le> length (norm_str ?E) \<and> list_all isdecimal (take 4 (norm_str ?E)))"
    by (rule eitango1800_no_year)
  have y: "year_unit_name ascii_tables ?E ?Y"
    by (rule year_unit_name_2024)
  have e: "\<not> year_unit_name ascii_tables ?E ?E"
    using n year_unit_name_digits by blast
  note th = sheets_for_targets_year_required [of ascii_tables "[?Y, ?E]" ?E ?E "[?E]"]
  from th n have "(?E, ?E) \<notin> set (sheets_for_targets ascii_tables [?Y, ?E] [?E])" by blast
  moreover from th have "map snd (sheets_for_targets ascii_tables [?Y, ?E] [?E])
      = filter (year_unit_name ascii_tables ?E) [?Y, ?E]" by (rule conjunct1)
  with y e have "map snd (sheets_for_targets ascii_tables [?Y, ?E] [?E]) = [?Y]"
    by simp
  ultimately show ?thesis using n by blast
qed

theorem sheets_for_targets_optional_year_counterexample:
  "sheets_for_targets ascii_tables
     [eitango1800] [eitango1800] = []"
proof -
  have "\<not> pat_match ascii_tables (norm_str eitango1800) (norm_str eitango1800)"
    using eitango1800_no_year year_unit_name_digits pat_match_norm by blast
  then show ?thesis by (simp add: sheets_for_targets_def)
qed

section \<open>Mastery counter: properties\<close>

lemma groupby_max_keys: "map fst (groupby_max sub) = remdups (map fst sub)"
  by (simp add: groupby_max_def comp_def)

lemma groupby_max_distinct: "distinct (map fst (groupby_max sub))"
  by (simp add: groupby_max_keys)

lemma groupby_max_fst: "fst ` set (groupby_max sub) = fst ` set sub"
proof -
  have "set (map fst (groupby_max sub)) = set (map fst sub)"
    by (simp add: groupby_max_keys)
  then show ?thesis by simp
qed

lemma groupby_max_Nil: "groupby_max [] = []"
  by (simp add: groupby_max_def)

lemma group_values: "set [v. (k', v) \<leftarrow> sub, k' = k] = {v. (k, v) \<in> set sub}"
  by auto

lemma groupby_max_value:
  assumes "(k, m) \<in> set (groupby_max sub)"
  shows "m = Max {v. (k, v) \<in> set sub} \<and> k \<in> fst ` set sub"
proof -
  from assms have "m = Max (set [v. (k', v) \<leftarrow> sub, k' = k]) \<and> k \<in> fst ` set sub"
    by (auto simp: groupby_max_def)
  then show ?thesis by (simp only: group_values)
qed

lemma groupby_max_flag:
  assumes m: "(k, m) \<in> set (groupby_max sub)"
    and b: "\<forall>(k, v) \<in> set sub. v = 0 \<or> v = 1"
  shows "m = (if (k, 1) \<in> set sub then 1 else 0)"
proof -
  let ?S = "{v. (k, v) \<in> set sub}"
  from m have mx: "m = Max ?S" and k: "k \<in> fst ` set sub"
    using groupby_max_value by blast+
  have "?S \<subseteq> snd ` set sub" by force
  then have fin: "finite ?S" by (rule finite_subset) simp
  from k have ne: "?S \<noteq> {}" by force
  from fin ne have "Max ?S \<in> ?S" by (rule Max_in)
  with mx have ms: "(k, m) \<in> set sub" by simp
  with b have m01: "m = 0 \<or> m = 1" by blast
  show ?thesis
  proof (cases "(k, 1) \<in> set sub")
    case True
    then have "1 \<in> ?S" by simp
    with fin have "1 \<le> Max ?S" by (rule Max_ge)
    with mx m01 True show ?thesis by auto
  next
    case False
    with ms m01 show ?thesis by auto
  qed
qed

lemma groupby_max_mem_flag:
  assumes b: "\<forall>(k, v) \<in> set sub. v = 0 \<or> v = 1"
  shows "(k, 1) \<in> set (groupby_max sub) \<longleftrightarrow> (k, 1) \<in> set sub"
proof
  assume "(k, 1) \<in> set (groupby_max sub)"
  from groupby_max_flag [OF this b] show "(k, 1) \<in> set sub" by (simp split: if_splits)
next
  assume s: "(k, 1) \<in> set sub"
  then have "k \<in> fst ` set (groupby_max sub)" by (force simp: groupby_max_fst)
  then obtain m where m: "(k, m) \<in> set (groupby_max sub)" by auto
  from groupby_max_flag [OF m b] s have "m = 1" by simp
  with m show "(k, 1) \<in> set (groupby_max sub)" by simp
qed

lemma groupby_max_01:
  assumes "\<forall>(k, v) \<in> set sub. v = 0 \<or> v = 1" and "(k, m) \<in> set (groupby_max sub)"
  shows "m = 0 \<or> m = 1"
  using groupby_max_flag [OF assms(2) assms(1)] by (simp split: if_splits)

lemma dropna_id_map:
  "dropna_id (map (\<lambda>p. (fst p, f (snd p))) xs) = map (\<lambda>p. (fst p, f (snd p))) (dropna_id xs)"
  by (induction xs) (auto simp: dropna_id_def split: option.splits)

lemma zip_map_snd: "zip xs (map f ys) = map (\<lambda>p. (fst p, f (snd p))) (zip xs ys)"
  by (simp add: zip_map2 case_prod_unfold)

lemma flag_of_fun:
  "flag_of cutoff = (\<lambda>p. (fst p, if snd p then 1 else 0)) \<circ> (\<lambda>p. (fst p, completed cutoff (snd p)))"
  by (rule ext) (simp add: flag_of_def)

lemma mastery_frame_entries:
  "mastery_frame cutoff df =
     map_option (\<lambda>es. groupby_max (map (flag_of cutoff) es)) (sheet_entries df)"
  by (simp add: mastery_frame_def sheet_entries_def zip_map_snd dropna_id_map flag_of_fun
      case_prod_unfold split: option.splits)

lemma flag_of_01: "\<forall>(k, v) \<in> set (map (flag_of cutoff) es). v = 0 \<or> v = 1"
  by (auto simp: flag_of_def)

lemma flag_of_1:
  "(k, 1) \<in> set (map (flag_of cutoff) es) \<longleftrightarrow> (\<exists>d. (k, d) \<in> set es \<and> completed cutoff d)"
  by (force simp: flag_of_def split: if_splits)

lemma flag_of_fst: "fst ` set (map (flag_of cutoff) es) = fst ` set es"
  by (force simp: flag_of_def)

lemma frames_entries:
  "fst ` set (concat (mastery_frames cutoff fp tgt hp)) = fst ` set (entries_of fp tgt hp) \<and>
   (\<forall>(k, v) \<in> set (concat (mastery_frames cutoff fp tgt hp)). v = 0 \<or> v = 1) \<and>
   (\<forall>k. (k, 1) \<in> set (concat (mastery_frames cutoff fp tgt hp)) \<longleftrightarrow>
        (\<exists>d. (k, d) \<in> set (entries_of fp tgt hp) \<and> completed cutoff d))"
proof (induction hp)
  case Nil
  show ?case by (simp add: mastery_frames_def entries_of_def map_filter_simps)
next
  case (Cons p hp)
  obtain t s where p: "p = (t, s)" by (cases p)
  let ?df = "clean_cols (read_excel fp s)"
  show ?case
  proof (cases "t \<noteq> tgt \<or> sheet_entries ?df = None")
    case True
    then have "mastery_frames cutoff fp tgt (p # hp) = mastery_frames cutoff fp tgt hp"
      "entries_of fp tgt (p # hp) = entries_of fp tgt hp"
      by (auto simp: p mastery_frames_def entries_of_def map_filter_simps mastery_frame_entries)
    with Cons.IH show ?thesis by simp
  next
    case False
    then obtain es where t: "t = tgt" and es: "sheet_entries ?df = Some es" by auto
    let ?G = "groupby_max (map (flag_of cutoff) es)"
    from t es have f: "mastery_frames cutoff fp tgt (p # hp) = ?G # mastery_frames cutoff fp tgt hp"
      and e: "entries_of fp tgt (p # hp) = es @ entries_of fp tgt hp"
      by (simp_all add: p mastery_frames_def entries_of_def map_filter_simps mastery_frame_entries)
    have g1: "fst ` set ?G = fst ` set es"
      by (simp only: groupby_max_fst flag_of_fst)
    have g2: "\<forall>(k, v) \<in> set ?G. v = 0 \<or> v = 1"
      using groupby_max_01 [OF flag_of_01] by blast
    have g3: "\<And>k. (k, 1) \<in> set ?G \<longleftrightarrow> (\<exists>d. (k, d) \<in> set es \<and> completed cutoff d)"
      by (simp only: groupby_max_mem_flag [OF flag_of_01] flag_of_1)
    from Cons.IH have i1: "fst ` set (concat (mastery_frames cutoff fp tgt hp)) = fst ` set (entries_of fp tgt hp)"
      and i2: "\<forall>(k, v) \<in> set (concat (mastery_frames cutoff fp tgt hp)). v = 0 \<or> v = 1"
      and i3: "\<And>k. (k, 1) \<in> set (concat (mastery_frames cutoff fp tgt hp)) \<longleftrightarrow>
        (\<exists>d. (k, d) \<in> set (entries_of fp tgt hp) \<and> completed cutoff d)"
      by blast+
    have "fst ` set (concat (mastery_frames cutoff fp tgt (p # hp))) = fst ` set (entries_of fp tgt (p # hp))"
      using i1 by (simp add: f e image_Un g1)
    moreover have "\<forall>(k, v) \<in> set (concat (mastery_frames cutoff fp tgt (p # hp))). v = 0 \<or> v = 1"
      using g2 i2 by (auto simp: f)
    moreover have "\<forall>k. (k, 1) \<in> set (concat (mastery_frames cutoff fp tgt (p # hp))) \<longleftrightarrow>
        (\<exists>d. (k, d) \<in> set (entries_of fp tgt (p # hp)) \<and> completed cutoff d)"
      using g3 i3 by (auto simp: f e)
    ultimately show ?thesis by blast
  qed
qed

lemma unit_table_eq:
  "unit_table cutoff fp hp tgt = groupby_max (concat (mastery_frames cutoff fp tgt hp))"
  by (simp add: unit_table_def Let_def groupby_max_Nil)

lemma unit_table_distinct: "distinct (map fst (unit_table cutoff fp hp tgt))"
  by (simp add: unit_table_eq groupby_max_distinct)

lemma unit_table_fst:
  "fst ` set (unit_table cutoff fp hp tgt) = fst ` set (entries_of fp tgt hp)"
  using frames_entries [of cutoff fp tgt hp] by (simp add: unit_table_eq groupby_max_fst)

lemma unit_table_value:
  assumes "(k, m) \<in> set (unit_table cutoff fp hp tgt)"
  shows "m = (if \<exists>d. (k, d) \<in> set (entries_of fp tgt hp) \<and> completed cutoff d then 1 else 0)"
proof -
  let ?C = "concat (mastery_frames cutoff fp tgt hp)"
  from frames_entries [of cutoff fp tgt hp] have
    b: "\<forall>(k, v) \<in> set ?C. v = 0 \<or> v = 1"
    and c: "(k, 1) \<in> set ?C \<longleftrightarrow> (\<exists>d. (k, d) \<in> set (entries_of fp tgt hp) \<and> completed cutoff d)"
    by blast+
  from assms have "(k, m) \<in> set (groupby_max ?C)" by (simp add: unit_table_eq)
  from groupby_max_flag [OF this b] c show ?thesis by simp
qed

lemma unit_table_lookup:
  "fillna0 (map_of (unit_table cutoff fp hp tgt) k) =
     (if \<exists>d. (k, d) \<in> set (entries_of fp tgt hp) \<and> completed cutoff d then 1 else 0)"
proof (cases "map_of (unit_table cutoff fp hp tgt) k")
  case None
  then have "k \<notin> fst ` set (unit_table cutoff fp hp tgt)"
    by (simp add: map_of_eq_None_iff)
  then have "k \<notin> fst ` set (entries_of fp tgt hp)" by (simp add: unit_table_fst)
  then have "\<not> (\<exists>d. (k, d) \<in> set (entries_of fp tgt hp) \<and> completed cutoff d)" by force
  with None show ?thesis by (simp add: fillna0_def)
next
  case (Some m)
  then have "(k, m) \<in> set (unit_table cutoff fp hp tgt)" by (rule map_of_SomeD)
  from unit_table_value [OF this] Some show ?thesis by (simp add: fillna0_def)
qed

lemma partners_distinct:
  "distinct (map fst add) \<Longrightarrow>
   partners k add = (case map_of add k of None \<Rightarrow> [] | Some v \<Rightarrow> [v])"
proof (induction add)
  case Nil
  show ?case by (simp add: partners_def)
next
  case (Cons a add)
  obtain k' v where a: "a = (k', v)" by (cases a)
  from Cons.prems a have nk: "k' \<notin> fst ` set add" and d: "distinct (map fst add)" by auto
  from Cons.IH [OF d] have ih: "partners k add = (case map_of add k of None \<Rightarrow> [] | Some v \<Rightarrow> [v])" .
  have pc: "partners k (a # add) = (if k' = k then [v] else []) @ partners k add"
    by (simp add: partners_def a)
  show ?case
  proof (cases "k' = k")
    case True
    with nk have "map_of add k = None" by (simp add: map_of_eq_None_iff)
    with ih True pc show ?thesis by (simp add: a)
  next
    case False
    with ih pc show ?thesis by (simp add: a)
  qed
qed

lemma outer_merge_distinct_add:
  assumes "distinct (map fst add)"
  shows "outer_merge n base add =
     map (\<lambda>(k, vs). (k, vs @ [map_of add k])) base @
     map (\<lambda>(k, v). (k, replicate n None @ [Some v])) (filter (\<lambda>(k, v). k \<notin> fst ` set base) add)"
proof -
  have "\<And>k vs. (if partners k add = [] then [(k, vs @ [None])]
                 else map (\<lambda>v. (k, vs @ [Some v])) (partners k add)) = [(k, vs @ [map_of add k])]"
    by (simp add: partners_distinct [OF assms] split: option.splits)
  then have "concat (map (\<lambda>(k, vs). if partners k add = [] then [(k, vs @ [None])]
                              else map (\<lambda>v. (k, vs @ [Some v])) (partners k add)) base)
       = map (\<lambda>(k, vs). (k, vs @ [map_of add k])) base"
    by (induction base) auto
  moreover have "[(k, replicate n None @ [Some v]). (k, v) \<leftarrow> add, k \<notin> fst ` set base]
       = map (\<lambda>(k, v). (k, replicate n None @ [Some v])) (filter (\<lambda>(k, v). k \<notin> fst ` set base) add)"
    by (induction add) (simp_all add: case_prod_unfold)
  ultimately show ?thesis by (simp add: outer_merge_def)
qed

lemma map_fst_filter_keys:
  "map fst (filter (\<lambda>(k, v). P k) add) = filter P (map fst add)"
  by (induction add) auto

lemma replicate_None_lookup:
  assumes "\<forall>T \<in> set done. k \<notin> fst ` set T"
  shows "map (\<lambda>T. map_of T k) done = replicate (length done) None"
  using assms by (induction "done") (simp_all add: map_of_eq_None_iff)

lemma merged_rows_step:
  assumes I: "merged_rows n base done" and d: "distinct (map fst add)"
  shows "merged_rows (Suc n) (outer_merge n base add) (done @ [add])"
proof -
  let ?L = "map (\<lambda>(k, vs). (k, vs @ [map_of add k])) base"
  let ?R = "map (\<lambda>(k, v). (k, replicate n None @ [Some v]))
              (filter (\<lambda>(k, v). k \<notin> fst ` set base) add)"
  from I have I': "n = length done \<and> distinct (map fst base) \<and>
      fst ` set base = (\<Union>T \<in> set done. fst ` set T) \<and>
      (\<forall>(k, vs) \<in> set base. vs = map (\<lambda>T. map_of T k) done)"
    unfolding merged_rows_def .
  note n = I' [THEN conjunct1]
    and db = I' [THEN conjunct2, THEN conjunct1]
    and kb = I' [THEN conjunct2, THEN conjunct2, THEN conjunct1]
    and rb = I' [THEN conjunct2, THEN conjunct2, THEN conjunct2]
  have om: "outer_merge n base add = ?L @ ?R" by (rule outer_merge_distinct_add [OF d])
  have fl: "map fst ?L = map fst base" by (simp add: case_prod_unfold comp_def)
  have fr: "map fst ?R = filter (\<lambda>k. k \<notin> fst ` set base) (map fst add)"
    by (simp add: case_prod_unfold comp_def map_fst_filter_keys [symmetric])
  have a: "Suc n = length (done @ [add])" using n by simp
  have "distinct (map fst base @ filter (\<lambda>k. k \<notin> fst ` set base) (map fst add))"
    using db d by auto
  then have b: "distinct (map fst (?L @ ?R))"
    by (simp only: map_append fl fr)
  have c: "fst ` set (?L @ ?R) = (\<Union>T \<in> set (done @ [add]). fst ` set T)"
  proof -
    have "fst ` set (?L @ ?R) = set (map fst ?L) \<union> set (map fst ?R)"
      by (simp only: set_map set_append image_Un)
    also have "\<dots> = set (map fst base) \<union> set (filter (\<lambda>k. k \<notin> fst ` set base) (map fst add))"
      by (simp only: fl fr)
    also have "\<dots> = fst ` set base \<union> fst ` set add" by auto
    also have "\<dots> = (\<Union>T \<in> set (done @ [add]). fst ` set T)" using kb by auto
    finally show ?thesis .
  qed
  have e: "\<forall>(k, ws) \<in> set (?L @ ?R). ws = map (\<lambda>T. map_of T k) (done @ [add])"
  proof -
    have eL: "ws = map (\<lambda>T. map_of T k) (done @ [add])" if "(k, ws) \<in> set ?L" for k ws
    proof -
      from that have "(k, ws) \<in> (\<lambda>p. (fst p, snd p @ [map_of add (fst p)])) ` set base"
        by (simp only: set_map case_prod_unfold)
      then obtain p where p: "p \<in> set base" and kw: "(k, ws) = (fst p, snd p @ [map_of add (fst p)])"
        by (rule imageE)
      from kw have k: "k = fst p" and w: "ws = snd p @ [map_of add k]" by simp_all
      from p k have "(k, snd p) \<in> set base" by simp
      with rb have "snd p = map (\<lambda>T. map_of T k) done" by blast
      with w show ?thesis by simp
    qed
    have eR: "ws = map (\<lambda>T. map_of T k) (done @ [add])" if "(k, ws) \<in> set ?R" for k ws
    proof -
      from that have "(k, ws) \<in> (\<lambda>p. (fst p, replicate n None @ [Some (snd p)])) `
          set (filter (\<lambda>p. fst p \<notin> fst ` set base) add)"
        by (simp only: set_map case_prod_unfold)
      then obtain p where p: "p \<in> set (filter (\<lambda>p. fst p \<notin> fst ` set base) add)"
        and kw: "(k, ws) = (fst p, replicate n None @ [Some (snd p)])"
        by (rule imageE)
      from kw have k: "k = fst p" and ws: "ws = replicate n None @ [Some (snd p)]" by simp_all
      from p k have v: "(k, snd p) \<in> set add" and nk: "k \<notin> fst ` set base" by simp_all
      from nk kb have "\<forall>T \<in> set done. k \<notin> fst ` set T" by blast
      then have "map (\<lambda>T. map_of T k) done = replicate (length done) None"
        by (rule replicate_None_lookup)
      then have "map (\<lambda>T. map_of T k) done = replicate n None"
        by (simp only: n [symmetric])
      moreover from d v have "map_of add k = Some (snd p)" by simp
      ultimately show ?thesis using ws by simp
    qed
    show ?thesis
    proof (rule ballI)
      fix x assume x: "x \<in> set (?L @ ?R)"
      obtain k ws where kw: "x = (k, ws)" by (cases x)
      from x kw have "(k, ws) \<in> set ?L \<or> (k, ws) \<in> set ?R"
        by (simp only: set_append Un_iff)
      then have "ws = map (\<lambda>T. map_of T k) (done @ [add])"
        using eL eR by (rule disjE)
      with kw show "case x of (k, ws) \<Rightarrow> ws = map (\<lambda>T. map_of T k) (done @ [add])"
        by simp
    qed
  qed
  show ?thesis unfolding merged_rows_def om by (intro conjI a b c e)
qed

lemma merge_all_rows:
  "merged_rows n base done \<Longrightarrow> \<forall>T \<in> set rest. distinct (map fst T) \<Longrightarrow>
   merged_rows (n + length rest) (merge_all n base rest) (done @ rest)"
proof (induction rest arbitrary: n base "done")
  case Nil
  then show ?case by simp
next
  case (Cons add rest)
  from Cons.prems have "merged_rows (Suc n) (outer_merge n base add) (done @ [add])"
    by (simp add: merged_rows_step)
  moreover from Cons.prems have "\<forall>T \<in> set rest. distinct (map fst T)" by simp
  ultimately have "merged_rows (Suc n + length rest)
      (merge_all (Suc n) (outer_merge n base add) rest) ((done @ [add]) @ rest)"
    by (rule Cons.IH)
  then show ?case by simp
qed

lemma start_rows:
  assumes "distinct (map fst first)"
  shows "merged_rows 1 (map (\<lambda>(k, v). (k, [Some v])) first) [first]"
proof -
  let ?B = "map (\<lambda>(k, v). (k, [Some v])) first"
  have mf: "map fst ?B = map fst first"
    by (simp add: case_prod_unfold comp_def)
  have r: "\<forall>(k, vs) \<in> set ?B. vs = map (\<lambda>T. map_of T k) [first]"
    using assms by auto
  have d: "distinct (map fst ?B)"
    using assms by (simp only: mf)
  have "fst ` set ?B = set (map fst ?B)" by (simp only: set_map)
  also have "\<dots> = set (map fst first)" by (simp only: mf)
  also have "\<dots> = (\<Union>T \<in> set [first]. fst ` set T)" by simp
  finally have k: "fst ` set ?B = (\<Union>T \<in> set [first]. fst ` set T)" .
  have n: "(1::nat) = length [first]" by simp
  show ?thesis unfolding merged_rows_def by (intro conjI n d k r)
qed

lemma sum_targets_spec:
  assumes "\<forall>T \<in> set Ts. distinct (map fst T)"
  shows "distinct (map fst (sum_targets Ts)) \<and>
         fst ` set (sum_targets Ts) = (\<Union>T \<in> set Ts. fst ` set T) \<and>
         (\<forall>(k, n) \<in> set (sum_targets Ts). n = (\<Sum>T\<leftarrow>Ts. fillna0 (map_of T k)))"
proof (cases Ts)
  case Nil
  then show ?thesis by (simp add: sum_targets_def)
next
  case (Cons first rest)
  let ?R = "merge_all 1 (map (\<lambda>(k, v). (k, [Some v])) first) rest"
  from assms Cons have "distinct (map fst first)" by simp
  then have "merged_rows 1 (map (\<lambda>(k, v). (k, [Some v])) first) [first]"
    by (rule start_rows)
  moreover from assms Cons have "\<forall>T \<in> set rest. distinct (map fst T)" by simp
  ultimately have "merged_rows (1 + length rest) ?R ([first] @ rest)"
    by (rule merge_all_rows)
  then have I': "1 + length rest = length ([first] @ rest) \<and> distinct (map fst ?R) \<and>
      fst ` set ?R = (\<Union>T \<in> set ([first] @ rest). fst ` set T) \<and>
      (\<forall>(k, vs) \<in> set ?R. vs = map (\<lambda>T. map_of T k) ([first] @ rest))"
    unfolding merged_rows_def .
  have ts: "[first] @ rest = Ts" using Cons by simp
  note dr = I' [THEN conjunct2, THEN conjunct1]
    and kr = I' [THEN conjunct2, THEN conjunct2, THEN conjunct1, unfolded ts]
    and rr = I' [THEN conjunct2, THEN conjunct2, THEN conjunct2, unfolded ts]
  have st: "sum_targets Ts = map (\<lambda>(k, vs). (k, sum_list (map fillna0 vs))) ?R"
    by (simp add: sum_targets_def Cons)
  have mf: "map fst (sum_targets Ts) = map fst ?R"
    by (simp add: st case_prod_unfold comp_def)
  have "distinct (map fst (sum_targets Ts))" using dr by (simp only: mf)
  moreover have "fst ` set (sum_targets Ts) = (\<Union>T \<in> set Ts. fst ` set T)"
  proof -
    have "fst ` set (sum_targets Ts) = set (map fst (sum_targets Ts))" by simp
    also have "\<dots> = fst ` set ?R" by (simp only: mf) simp
    finally show ?thesis using kr by simp
  qed
  moreover have "\<forall>(k, n) \<in> set (sum_targets Ts). n = (\<Sum>T\<leftarrow>Ts. fillna0 (map_of T k))"
  proof -
    have "n = (\<Sum>T\<leftarrow>Ts. fillna0 (map_of T k))" if "(k, n) \<in> set (sum_targets Ts)" for k n
    proof -
      from that obtain vs where "(k, vs) \<in> set ?R" "n = sum_list (map fillna0 vs)"
        unfolding st by auto
      with rr have "n = sum_list (map fillna0 (map (\<lambda>T. map_of T k) Ts))" by auto
      then show ?thesis by (simp add: comp_def)
    qed
    then show ?thesis by auto
  qed
  ultimately show ?thesis by blast
qed

lemma count_mastery_tables:
  "count_mastery u fp target_list cutoff =
     sum_targets (map (unit_table cutoff fp (sheets_for_targets u (sheet_names fp) target_list))
                      target_list)"
proof -
  have "unit_table cutoff fp hp =
      (\<lambda>tgt. let frames = List.map_filter
                    (\<lambda>(t, s). if t \<noteq> tgt then None
                              else mastery_frame cutoff (clean_cols (read_excel fp s))) hp
             in if frames \<noteq> [] then groupby_max (concat frames) else [])" for hp
    by (rule ext) (simp add: unit_table_def mastery_frames_def)
  then show ?thesis by (simp add: count_mastery_def Let_def)
qed

lemma entries_of_no_sheet:
  "tgt \<notin> fst ` set hp \<Longrightarrow> entries_of fp tgt hp = []"
proof (induction hp)
  case Nil
  show ?case by (simp add: entries_of_def map_filter_simps)
next
  case (Cons p hp)
  obtain t s where p: "p = (t, s)" by (cases p)
  from Cons.prems p have "t \<noteq> tgt" and "tgt \<notin> fst ` set hp" by auto
  with Cons.IH have "entries_of fp tgt hp = []" by simp
  with \<open>t \<noteq> tgt\<close> show ?case by (simp add: p entries_of_def map_filter_simps)
qed

lemma completed_iff:
  "completed cutoff d \<longleftrightarrow>
     (\<exists>x. d = Some x \<and> (cutoff = None \<or> (\<exists>c. cutoff = Some c \<and> x \<le> c)))"
proof (cases d)
  case None
  then show ?thesis by (simp add: completed_def)
next
  case (Some x)
  then show ?thesis by (cases cutoff) (simp_all add: completed_def del: split_paired_Ex)
qed

lemma count_mastery_sum:
  assumes "(k, n) \<in> set (count_mastery u fp target_list cutoff)"
  shows "n = mastery_spec u fp target_list cutoff k"
proof -
  let ?hp = "sheets_for_targets u (sheet_names fp) target_list"
  let ?Ts = "map (unit_table cutoff fp ?hp) target_list"
  have "\<forall>T \<in> set ?Ts. distinct (map fst T)" by (auto simp: unit_table_distinct)
  from sum_targets_spec [OF this] have
    "\<forall>(k, n) \<in> set (sum_targets ?Ts). n = (\<Sum>T\<leftarrow>?Ts. fillna0 (map_of T k))" by blast
  with assms have "n = (\<Sum>T\<leftarrow>?Ts. fillna0 (map_of T k))"
    by (auto simp: count_mastery_tables)
  also have "\<dots> = (\<Sum>tgt\<leftarrow>target_list. fillna0 (map_of (unit_table cutoff fp ?hp tgt) k))"
    by (simp add: comp_def)
  also have "\<dots> = mastery_spec u fp target_list cutoff k"
    by (simp add: unit_table_lookup mastery_spec_def unit_completed_def unit_entries_def)
  finally show ?thesis .
qed

lemma count_mastery_keys:
  "distinct (map fst (count_mastery u fp target_list cutoff)) \<and>
   fst ` set (count_mastery u fp target_list cutoff) = unit_students u fp target_list"
proof -
  let ?hp = "sheets_for_targets u (sheet_names fp) target_list"
  let ?Ts = "map (unit_table cutoff fp ?hp) target_list"
  have "\<forall>T \<in> set ?Ts. distinct (map fst T)" by (auto simp: unit_table_distinct)
  from sum_targets_spec [OF this] have d: "distinct (map fst (sum_targets ?Ts))"
    and k: "fst ` set (sum_targets ?Ts) = (\<Union>T \<in> set ?Ts. fst ` set T)" by blast+
  have "(\<Union>T \<in> set ?Ts. fst ` set T) = unit_students u fp target_list"
    by (simp add: unit_students_def unit_entries_def unit_table_fst)
  with d k show ?thesis by (simp add: count_mastery_tables)
qed

lemma count_mastery_bounds:
  assumes "(k, n) \<in> set (count_mastery u fp target_list cutoff)"
  shows "0 \<le> n \<and> n \<le> int (length target_list)"
proof -
  have "0 \<le> (\<Sum>t\<leftarrow>ts. if P t then 1 else (0::int)) \<and>
        (\<Sum>t\<leftarrow>ts. if P t then 1 else (0::int)) \<le> int (length ts)" for P and ts :: "ustring list"
    by (induction ts) auto
  from this [of "\<lambda>tgt. unit_completed u fp target_list cutoff tgt k" target_list]
  show ?thesis
    unfolding count_mastery_sum [OF assms] mastery_spec_def .
qed

text \<open>
  Claim C1. For every workbook, every catalog of pairwise different unit names and every
  cutoff, present or not: a row counts as completed exactly when its completion date is
  present and the cutoff is absent or not before the date; the Mastery Counter returns
  one row for each student with an entry in a sheet of some unit of the catalog; the
  count of a student is the number of units of the catalog for which some entry of the
  student, in any row of any sheet of the unit, counts as completed, so duplicate rows
  and sheets are reduced by a logical or and a student absent from a unit contributes 0
  for that unit; and a unit that no sheet is paired with is completed by no student.
\<close>

theorem count_mastery_spec:
  assumes "distinct target_list"
  shows
    "(completed cutoff d \<longleftrightarrow>
        (\<exists>x. d = Some x \<and> (cutoff = None \<or> (\<exists>c. cutoff = Some c \<and> x \<le> c)))) \<and>
     distinct (map fst (count_mastery u fp target_list cutoff)) \<and>
     fst ` set (count_mastery u fp target_list cutoff) = unit_students u fp target_list \<and>
     (\<forall>(k, n) \<in> set (count_mastery u fp target_list cutoff).
        n = mastery_spec u fp target_list cutoff k) \<and>
     (tgt \<notin> fst ` set (sheets_for_targets u (sheet_names fp) target_list) \<longrightarrow>
        \<not> unit_completed u fp target_list cutoff tgt k)"
proof (intro conjI impI)
  show "completed cutoff d \<longleftrightarrow>
      (\<exists>x. d = Some x \<and> (cutoff = None \<or> (\<exists>c. cutoff = Some c \<and> x \<le> c)))"
    by (rule completed_iff)
next
  show "distinct (map fst (count_mastery u fp target_list cutoff))"
    using count_mastery_keys by blast
next
  show "fst ` set (count_mastery u fp target_list cutoff) = unit_students u fp target_list"
    using count_mastery_keys by blast
next
  show "\<forall>(k, n) \<in> set (count_mastery u fp target_list cutoff).
      n = mastery_spec u fp target_list cutoff k"
    using count_mastery_sum by blast
next
  assume "tgt \<notin> fst ` set (sheets_for_targets u (sheet_names fp) target_list)"
  then have "unit_entries u fp target_list tgt = []"
    unfolding unit_entries_def by (rule entries_of_no_sheet)
  then show "\<not> unit_completed u fp target_list cutoff tgt k"
    by (simp add: unit_completed_def)
qed

section \<open>Report shaper: properties\<close>

lemma kou_less: "kou1_2 < kou3"
  by (simp add: kou1_2_def kou3_def)

lemma template_eq:
  "template m = map (Pair kou1_2) [0..m] @ map (Pair kou3) [0..m]"
  by (simp add: template_def)

lemma sorted_Pair_upto: "sorted (map (Pair c) [0..m])"
proof -
  have "sorted_wrt (\<lambda>x y. (c, x) \<le> (c, y)) [0..m]"
    by (rule sorted_wrt_mono_rel [OF _ sorted_upto]) simp
  then show ?thesis by (simp add: sorted_map)
qed

lemma template_sorted: "sorted (template m)"
  using kou_less by (auto simp: template_eq sorted_append sorted_Pair_upto)

lemma template_length: "0 \<le> m \<Longrightarrow> int (length (template m)) = 2 * (m + 1)"
  by (simp add: template_eq)

lemma template_mem: "(c, b) \<in> set (template m) \<longleftrightarrow> (c = kou1_2 \<or> c = kou3) \<and> 0 \<le> b \<and> b \<le> m"
  by (auto simp: template_eq)

lemma map_of_keyed:
  "map_of (map (\<lambda>k. (k, f k)) ks) x = (if x \<in> set ks then Some (f x) else None)"
  by (induction ks) auto

lemma group_empty:
  "filter (\<lambda>r. g r = c \<and> key r = b) kept = [] \<longleftrightarrow> (c, b) \<notin> set (map (\<lambda>r. (g r, key r)) kept)"
  by (induction kept) auto

lemma long_cell_key: "l_cohort (long_cell df key sc c b) = c \<and> l_key (long_cell df key sc c b) = b"
  by (simp add: long_cell_def Let_def)

lemma dist_cell_key: "d_cohort (dist_cell df key c b) = c \<and> d_key (dist_cell df key c b) = b"
  by (simp add: dist_cell_def Let_def)

lemma summarize_long_cells:
  "summarize_long df key sc m = map (\<lambda>(c, b). long_cell df key sc c b) (template m)"
proof -
  let ?kept = "filter (\<lambda>r. sc r \<noteq> None) df"
  let ?G = "\<lambda>p. (int (length (remdups (map (\<lambda>r. student_id (p_exam r))
                 (filter (\<lambda>r. grade_norm (p_exam r) = fst p \<and> key r = snd p) ?kept)))),
              mean (List.map_filter sc (filter (\<lambda>r. grade_norm (p_exam r) = fst p \<and> key r = snd p) ?kept)))"
  let ?ks = "remdups (map (\<lambda>r. (grade_norm (p_exam r), key r)) ?kept)"
  let ?g = "map (\<lambda>k. (k, ?G k)) ?ks"
  let ?out = "map (\<lambda>(c, b). case map_of ?g (c, b) of
                 None \<Rightarrow> \<lparr>l_cohort = c, l_key = b, l_count = 0, l_mean = None\<rparr>
               | Some (n, m) \<Rightarrow> \<lparr>l_cohort = c, l_key = b, l_count = n, l_mean = Some (round1 m)\<rparr>)
               (template m)"
  have cell: "(case map_of ?g (c, b) of
                 None \<Rightarrow> \<lparr>l_cohort = c, l_key = b, l_count = 0, l_mean = None\<rparr>
               | Some (n, m) \<Rightarrow> \<lparr>l_cohort = c, l_key = b, l_count = n, l_mean = Some (round1 m)\<rparr>)
             = long_cell df key sc c b" for c b
    unfolding map_of_keyed long_cell_def Let_def
    using group_empty [of "\<lambda>r. grade_norm (p_exam r)" c key b ?kept] by simp
  then have out: "?out = map (\<lambda>(c, b). long_cell df key sc c b) (template m)" by simp
  have "map (\<lambda>r. (l_cohort r, l_key r)) (map (\<lambda>(c, b). long_cell df key sc c b) (template m))
        = template m"
    by (simp add: long_cell_key case_prod_unfold comp_def)
  then have "sorted (map (\<lambda>r. (l_cohort r, l_key r)) ?out)"
    using template_sorted by (simp only: out)
  then have "sort_key (\<lambda>r. (l_cohort r, l_key r)) ?out = ?out"
    by (rule sort_key_id_if_sorted)
  moreover have "summarize_long df key sc m = sort_key (\<lambda>r. (l_cohort r, l_key r)) ?out"
    by (simp add: summarize_long_def Let_def case_prod_unfold)
  ultimately show ?thesis using out by simp
qed

lemma summarize_distribution_cells:
  "summarize_distribution df key m = map (\<lambda>(c, b). dist_cell df key c b) (template m)"
proof -
  let ?G = "\<lambda>p. int (length (remdups (map (\<lambda>r. student_id (p_exam r))
                 (filter (\<lambda>r. grade_norm (p_exam r) = fst p \<and> key r = snd p) df))))"
  let ?ks = "remdups (map (\<lambda>r. (grade_norm (p_exam r), key r)) df)"
  let ?g = "map (\<lambda>k. (k, ?G k)) ?ks"
  let ?out = "map (\<lambda>(c, b). case map_of ?g (c, b) of
                 None \<Rightarrow> \<lparr>d_cohort = c, d_key = b, d_count = 0\<rparr>
               | Some n \<Rightarrow> \<lparr>d_cohort = c, d_key = b, d_count = n\<rparr>)
               (template m)"
  have cell: "(case map_of ?g (c, b) of
                 None \<Rightarrow> \<lparr>d_cohort = c, d_key = b, d_count = 0\<rparr>
               | Some n \<Rightarrow> \<lparr>d_cohort = c, d_key = b, d_count = n\<rparr>)
             = dist_cell df key c b" for c b
    unfolding map_of_keyed dist_cell_def Let_def
    using group_empty [of "\<lambda>r. grade_norm (p_exam r)" c key b df] by simp
  then have out: "?out = map (\<lambda>(c, b). dist_cell df key c b) (template m)" by simp
  have "map (\<lambda>r. (d_cohort r, d_key r)) (map (\<lambda>(c, b). dist_cell df key c b) (template m))
        = template m"
    by (simp add: dist_cell_key case_prod_unfold comp_def)
  then have "sorted (map (\<lambda>r. (d_cohort r, d_key r)) ?out)"
    using template_sorted by (simp only: out)
  then have "sort_key (\<lambda>r. (d_cohort r, d_key r)) ?out = ?out"
    by (rule sort_key_id_if_sorted)
  moreover have "summarize_distribution df key m = sort_key (\<lambda>r. (d_cohort r, d_key r)) ?out"
    by (simp add: summarize_distribution_def Let_def case_prod_unfold)
  ultimately show ?thesis using out by simp
qed

lemma long_cell_empty:
  assumes "\<forall>r \<in> set df. \<not> (grade_norm (p_exam r) = c \<and> key r = b)"
  shows "long_cell df key sc c b = \<lparr>l_cohort = c, l_key = b, l_count = 0, l_mean = None\<rparr>"
proof -
  from assms have "filter (\<lambda>r. grade_norm (p_exam r) = c \<and> key r = b)
      (filter (\<lambda>r. sc r \<noteq> None) df) = []"
    by (simp add: filter_empty_conv)
  then show ?thesis by (simp add: long_cell_def)
qed

lemma dist_cell_empty:
  assumes "\<forall>r \<in> set df. \<not> (grade_norm (p_exam r) = c \<and> key r = b)"
  shows "dist_cell df key c b = \<lparr>d_cohort = c, d_key = b, d_count = 0\<rparr>"
proof -
  from assms have "filter (\<lambda>r. grade_norm (p_exam r) = c \<and> key r = b) df = []"
    by (simp add: filter_empty_conv)
  then show ?thesis by (simp add: dist_cell_def)
qed

lemma long_keys:
  "map (\<lambda>r. (l_cohort r, l_key r)) (summarize_long df key sc m) = template m"
  by (simp add: summarize_long_cells long_cell_key case_prod_unfold comp_def)

lemma dist_keys:
  "map (\<lambda>r. (d_cohort r, d_key r)) (summarize_distribution df key m) = template m"
  by (simp add: summarize_distribution_cells dist_cell_key case_prod_unfold comp_def)

lemma long_row_at:
  assumes "x \<in> set (summarize_long df key sc m)"
  shows "x = long_cell df key sc (l_cohort x) (l_key x)"
proof -
  from assms obtain c b where "x = long_cell df key sc c b"
    unfolding summarize_long_cells by auto
  then show ?thesis using long_cell_key [of df key sc c b] by simp
qed

lemma dist_row_at:
  assumes "x \<in> set (summarize_distribution df key m)"
  shows "x = dist_cell df key (d_cohort x) (d_key x)"
proof -
  from assms obtain c b where "x = dist_cell df key c b"
    unfolding summarize_distribution_cells by auto
  then show ?thesis using dist_cell_key [of df key c b] by simp
qed

text \<open>
  Claim C4. For every panel, every key, every score column and every maximum that is
  not negative, a long table and a distribution table have exactly 2 * (max_val + 1)
  rows; their cohorts and keys are, row by row, the two cohorts paired with the keys
  from 0 to max_val; and a row of a cohort and key that no row of the panel has holds
  the head count 0 and, in a long table, a missing mean.
\<close>

theorem dense_grid:
  assumes "0 \<le> max_val"
  shows
    "int (length (summarize_long df key sc max_val)) = 2 * (max_val + 1) \<and>
     int (length (summarize_distribution df key max_val)) = 2 * (max_val + 1) \<and>
     map (\<lambda>r. (l_cohort r, l_key r)) (summarize_long df key sc max_val)
       = [(c, b). c \<leftarrow> [kou1_2, kou3], b \<leftarrow> [0..max_val]] \<and>
     map (\<lambda>r. (d_cohort r, d_key r)) (summarize_distribution df key max_val)
       = [(c, b). c \<leftarrow> [kou1_2, kou3], b \<leftarrow> [0..max_val]] \<and>
     (\<forall>x \<in> set (summarize_long df key sc max_val).
        (\<forall>r \<in> set df. \<not> (grade_norm (p_exam r) = l_cohort x \<and> key r = l_key x)) \<longrightarrow>
        l_count x = 0 \<and> l_mean x = None) \<and>
     (\<forall>y \<in> set (summarize_distribution df key max_val).
        (\<forall>r \<in> set df. \<not> (grade_norm (p_exam r) = d_cohort y \<and> key r = d_key y)) \<longrightarrow>
        d_count y = 0)"
proof (intro conjI ballI impI)
  have "length (summarize_long df key sc max_val) = length (template max_val)"
    by (simp add: summarize_long_cells)
  with assms show "int (length (summarize_long df key sc max_val)) = 2 * (max_val + 1)"
    by (simp add: template_length)
next
  have "length (summarize_distribution df key max_val) = length (template max_val)"
    by (simp add: summarize_distribution_cells)
  with assms show "int (length (summarize_distribution df key max_val)) = 2 * (max_val + 1)"
    by (simp add: template_length)
next
  show "map (\<lambda>r. (l_cohort r, l_key r)) (summarize_long df key sc max_val)
       = [(c, b). c \<leftarrow> [kou1_2, kou3], b \<leftarrow> [0..max_val]]"
    by (simp only: long_keys template_def)
next
  show "map (\<lambda>r. (d_cohort r, d_key r)) (summarize_distribution df key max_val)
       = [(c, b). c \<leftarrow> [kou1_2, kou3], b \<leftarrow> [0..max_val]]"
    by (simp only: dist_keys template_def)
next
  fix x
  assume x: "x \<in> set (summarize_long df key sc max_val)"
    and e: "\<forall>r \<in> set df. \<not> (grade_norm (p_exam r) = l_cohort x \<and> key r = l_key x)"
  from long_row_at [OF x] long_cell_empty [OF e, of sc]
  have "x = \<lparr>l_cohort = l_cohort x, l_key = l_key x, l_count = 0, l_mean = None\<rparr>" by simp
  then have "l_count x = 0" "l_mean x = None"
    by (metis long_row.select_convs(3), metis long_row.select_convs(4))
  then show "l_count x = 0" and "l_mean x = None" .
next
  fix y
  assume y: "y \<in> set (summarize_distribution df key max_val)"
    and e: "\<forall>r \<in> set df. \<not> (grade_norm (p_exam r) = d_cohort y \<and> key r = d_key y)"
  from dist_row_at [OF y] dist_cell_empty [OF e]
  have "y = \<lparr>d_cohort = d_cohort y, d_key = d_key y, d_count = 0\<rparr>" by simp
  then show "d_count y = 0" by (metis dist_row.select_convs(3))
qed

section \<open>The example workbook, evaluated\<close>

lemma list_all2_last:
  "list_all2 P xs ys \<Longrightarrow> xs \<noteq> [] \<Longrightarrow> P (last xs) (last ys)"
  by (induction rule: list_all2_induct) (auto simp: list_all2_Nil)

lemma year_unit_name_last:
  assumes "year_unit_name u t s" and "norm_str t \<noteq> []"
  shows "ignorecase u (last (norm_str t)) (last (norm_str s))"
proof -
  from assms(1) obtain d mid e where n: "norm_str s = d @ mid @ e"
    and m: "list_all2 (ignorecase u) (norm_str t) e"
    unfolding year_unit_name_def by blast
  from m assms(2) have "e \<noteq> []" by auto
  with n have "last (norm_str s) = last e" by simp
  with list_all2_last [OF m assms(2)] show ?thesis by simp
qed

lemma find_year_unit_None:
  assumes "\<forall>t \<in> set tgts. norm_str t \<noteq> [] \<and> \<not> ignorecase u (last (norm_str t)) (last (norm_str s))"
  shows "find (\<lambda>t. year_unit_name u t s) tgts = None"
  using assms year_unit_name_last by (auto simp: find_None_iff)

lemmas name_defs = sheet_2024_results_def sheet_2024_eitango1800_def sheet_2024b_eitango1800_def
  eitango1800_def godo_kyote_kekka_def asc_def

lemma ex_sheet_names:
  "sheet_names ex_book = [sheet_2024_results, sheet_2024_eitango1800, sheet_2024b_eitango1800]"
  by (simp add: sheet_names_def ex_book_def)

lemma ex_read_excel:
  "read_excel ex_book sheet_2024_results = ex_results"
  "read_excel ex_book sheet_2024_eitango1800 = ex_unit_a"
  "read_excel ex_book sheet_2024b_eitango1800 = ex_unit_b"
  by (simp_all add: read_excel_def ex_book_def name_defs)

lemma ex_clean_cols:
  "clean_cols ex_results = ex_results"
  "clean_cols ex_unit_a = ex_unit_a"
  "clean_cols ex_unit_b = ex_unit_b"
  by (simp_all add: clean_cols_def ex_results_def ex_unit_a_def ex_unit_b_def strip_def
      isspace_def seito_bango_def gakunen_def eigo_def sugaku_1A_def sugaku_2BC_def
      kanzen_shutokubi_def)

lemma ex_norm_sheets:
  "norm_str sheet_2024_results = sheet_2024_results"
  "norm_str sheet_2024b_eitango1800 = sheet_2024b_eitango1800"
  by (simp_all add: norm_str_def isspace_def name_defs)

lemma ex_last:
  "last sheet_2024_results = 0x679C"
  "last sheet_2024_eitango1800 = 0x30"
  "last sheet_2024b_eitango1800 = 0x30"
  by (simp_all add: name_defs)

lemma year_unit_name_2024b:
  "year_unit_name ascii_tables eitango1800 sheet_2024b_eitango1800"
proof -
  have "norm_str sheet_2024b_eitango1800 = asc ''2024'' @ asc ''b'' @ eitango1800"
    by (simp add: ex_norm_sheets) (simp add: sheet_2024b_eitango1800_def asc_def)
  moreover have "length (asc ''2024'') = 4" by (simp add: asc_def)
  moreover have "list_all isdecimal (asc ''2024'')"
    by (simp add: asc_def isdecimal_ascii)
  moreover have "list_all2 (ignorecase ascii_tables) (norm_str eitango1800) eitango1800"
    by (simp add: norm_str_name ascii_tables_def list_all2_refl)
  ultimately show ?thesis unfolding year_unit_name_def by blast
qed

lemma ex_no_eng_results:
  "find (\<lambda>t. year_unit_name ascii_tables t sheet_2024_results) ENG_TARGETS = None"
  by (rule find_year_unit_None)
    (simp add: ex_norm_sheets ex_last, simp add: ENG_TARGETS_def norm_str_def isspace_def
      eitango1800_def asc_def ascii_tables_def ascii_lower_def)

lemma ex_no_math:
  "find (\<lambda>t. year_unit_name ascii_tables t sheet_2024_results) MATH_TARGETS = None"
  "find (\<lambda>t. year_unit_name ascii_tables t sheet_2024_eitango1800) MATH_TARGETS = None"
  "find (\<lambda>t. year_unit_name ascii_tables t sheet_2024b_eitango1800) MATH_TARGETS = None"
  by (rule find_year_unit_None,
      simp add: ex_norm_sheets norm_str_name ex_last,
      simp add: MATH_TARGETS_def norm_str_def isspace_def ascii_tables_def ascii_lower_def)+

lemma ex_hits_eng:
  "sheets_for_targets ascii_tables (sheet_names ex_book) ENG_TARGETS =
     [(eitango1800, sheet_2024_eitango1800), (eitango1800, sheet_2024b_eitango1800)]"
proof -
  have "find (\<lambda>t. year_unit_name ascii_tables t sheet_2024_eitango1800) ENG_TARGETS = Some eitango1800"
    "find (\<lambda>t. year_unit_name ascii_tables t sheet_2024b_eitango1800) ENG_TARGETS = Some eitango1800"
    using year_unit_name_2024 year_unit_name_2024b by (simp_all add: ENG_TARGETS_def)
  then show ?thesis
    by (simp add: ex_sheet_names sheets_for_targets_Cons sheets_for_targets_Nil ex_no_eng_results)
qed

lemma ex_hits_math:
  "sheets_for_targets ascii_tables (sheet_names ex_book) MATH_TARGETS = []"
  by (simp add: ex_sheet_names sheets_for_targets_Cons sheets_for_targets_Nil ex_no_math)

lemmas frame_defs = ex_unit_a_def ex_unit_b_def ex_results_def seito_bango_def seito_id_def
  kanzen_shutokubi_def gakunen_def eigo_def sugaku_1A_def sugaku_2BC_def kokugo_def asc_def

lemmas cell_defs = getcol_def cell_of_def cell_at_def number_cell_def date_cell_def
  text_cell_def blank_def

lemma ex_id_col:
  "id_col ex_unit_a = Some seito_bango"
  "id_col ex_unit_b = Some seito_bango"
  "id_col ex_results = Some seito_bango"
  by (simp_all add: id_col_def frame_defs)

lemma ex_kdates:
  "read_kdate_series ex_unit_a =
     Some [Some (datetime 2025 1 10), Some (datetime 2025 2 10), None]"
  "read_kdate_series ex_unit_b = Some [Some (datetime 2025 2 1)]"
  by (simp_all add: read_kdate_series_def frame_defs cell_defs)

lemma ex_ids:
  "map c_num (getcol ex_unit_a seito_bango) = [Some 7, Some 8, Some 9]"
  "map c_num (getcol ex_unit_b seito_bango) = [Some 7]"
  by (simp_all add: frame_defs cell_defs)

lemma astype_int_numeral: "astype_int 7 = 7" "astype_int 8 = 8" "astype_int 9 = 9"
  by (simp_all add: astype_int_def)

lemma ex_late_frames:
  "late_frame ex_unit_a =
     Some [(7, Some (datetime 2025 1 10)), (8, Some (datetime 2025 2 10)), (9, None)]"
  "late_frame ex_unit_b = Some [(7, Some (datetime 2025 2 1))]"
  by (simp_all add: late_frame_def ex_id_col ex_kdates ex_ids dropna_id_def astype_int_numeral
      groupby_min_def min_date_def)

lemma ex_mastery_frames:
  "mastery_frame (Some cutoff_2025) ex_unit_a = Some [(7, 1), (8, 0), (9, 0)]"
  "mastery_frame (Some cutoff_2025) ex_unit_b = Some [(7, 0)]"
  by (simp_all add: mastery_frame_def ex_id_col ex_kdates ex_ids dropna_id_def
      astype_int_numeral groupby_max_def completed_def datetime_def cutoff_2025_def)

lemma eitango1800_other:
  "eitango1800 \<notin> set (tl ENG_TARGETS)"
  by (simp add: ENG_TARGETS_def eitango1800_def asc_def)

lemma ENG_TARGETS_Cons: "ENG_TARGETS = eitango1800 # tl ENG_TARGETS"
  by (simp add: ENG_TARGETS_def)

lemma no_frames_other:
  assumes "\<forall>(t, s) \<in> set hp. t \<noteq> tgt"
  shows "List.map_filter (\<lambda>(t, s). if t \<noteq> tgt then None else f s) hp = []"
  using assms by (induction hp) (auto simp: map_filter_simps)

lemma sum_targets_single:
  "sum_targets (T # replicate n []) = map (\<lambda>(k, v). (k, v)) T"
proof -
  have "merge_all m base (replicate n []) = map (\<lambda>(k, vs). (k, vs @ replicate n None)) base"
    for m and base :: "(int \<times> int option list) list"
  proof (induction n arbitrary: m base)
    case 0
    show ?case by (simp add: case_prod_unfold)
  next
    case (Suc n)
    have "outer_merge m base [] = map (\<lambda>(k, vs). (k, vs @ [None])) base"
      by (induction base) (auto simp: outer_merge_def partners_def)
    then show ?case
      by (simp add: Suc.IH case_prod_unfold comp_def replicate_app_Cons_same)
  qed
  moreover have "sum_list (map fillna0 (replicate n (None :: int option))) = 0"
    by (induction n) (simp_all add: fillna0_def)
  ultimately show ?thesis
    by (simp add: sum_targets_def case_prod_unfold comp_def fillna0_def)
qed

lemma replicate_5: "[[], [], [], [], []] = replicate 5 []"
  by (simp add: numeral_eq_Suc)

lemma count_late_tables:
  "count_late_mastery u fp target_list (Some co) =
     sum_targets (map (late_table co fp (sheets_for_targets u (sheet_names fp) target_list))
                      target_list)"
proof -
  have "late_table co fp hp =
      (\<lambda>tgt. let frames = List.map_filter
                    (\<lambda>(t, s). if t \<noteq> tgt then None
                              else late_frame (clean_cols (read_excel fp s))) hp;
                 tgt_df = (if frames \<noteq> [] then concat frames else [])
             in map (\<lambda>(k, d). (k, late_flag co d)) tgt_df)" for hp
    by (rule ext) (simp add: late_table_def)
  then show ?thesis by (simp add: count_late_mastery_def Let_def)
qed

lemma late_table_other:
  assumes "\<forall>(t, s) \<in> set hp. t \<noteq> tgt"
  shows "late_table co fp hp tgt = []"
  by (simp add: late_table_def no_frames_other [OF assms])

lemma unit_table_other:
  assumes "\<forall>(t, s) \<in> set hp. t \<noteq> tgt"
  shows "unit_table cutoff fp hp tgt = []"
  by (simp add: unit_table_def mastery_frames_def no_frames_other [OF assms])

lemma ex_late_table:
  "late_table cutoff_2025 ex_book
     [(eitango1800, sheet_2024_eitango1800), (eitango1800, sheet_2024b_eitango1800)] eitango1800
   = [(7, 0), (8, 1), (9, 0), (7, 1)]"
  by (simp add: late_table_def map_filter_simps ex_read_excel ex_clean_cols ex_late_frames
      late_flag_def datetime_def cutoff_2025_def)

lemma ex_unit_table:
  "unit_table (Some cutoff_2025) ex_book
     [(eitango1800, sheet_2024_eitango1800), (eitango1800, sheet_2024b_eitango1800)] eitango1800
   = [(8, 0), (9, 0), (7, 1)]"
  by (simp add: unit_table_def mastery_frames_def map_filter_simps ex_read_excel ex_clean_cols
      ex_mastery_frames groupby_max_def)

lemma ex_other_tables:
  "map (late_table co ex_book
     [(eitango1800, sheet_2024_eitango1800), (eitango1800, sheet_2024b_eitango1800)])
     (tl ENG_TARGETS) = replicate 5 []"
  "map (unit_table cutoff ex_book
     [(eitango1800, sheet_2024_eitango1800), (eitango1800, sheet_2024b_eitango1800)])
     (tl ENG_TARGETS) = replicate 5 []"
proof -
  let ?hp = "[(eitango1800, sheet_2024_eitango1800), (eitango1800, sheet_2024b_eitango1800)]"
  have o: "\<forall>(t, s) \<in> set ?hp. t \<noteq> tgt" if "tgt \<in> set (tl ENG_TARGETS)" for tgt
    using that eitango1800_other by auto
  have "map (late_table co ex_book ?hp) (tl ENG_TARGETS) = map (\<lambda>tgt. []) (tl ENG_TARGETS)"
    by (rule map_cong) (simp_all add: late_table_other [OF o])
  then show "map (late_table co ex_book ?hp) (tl ENG_TARGETS) = replicate 5 []"
    by (simp add: ENG_TARGETS_def replicate_5)
  have "map (unit_table cutoff ex_book ?hp) (tl ENG_TARGETS) = map (\<lambda>tgt. []) (tl ENG_TARGETS)"
    by (rule map_cong) (simp_all add: unit_table_other [OF o])
  then show "map (unit_table cutoff ex_book ?hp) (tl ENG_TARGETS) = replicate 5 []"
    by (simp add: ENG_TARGETS_def replicate_5)
qed

lemma map_ENG_TARGETS: "map f ENG_TARGETS = f eitango1800 # map f (tl ENG_TARGETS)"
  by (subst ENG_TARGETS_Cons) simp

lemma ex_count_late:
  "count_late_mastery ascii_tables ex_book ENG_TARGETS (Some cutoff_2025)
     = [(7, 0), (8, 1), (9, 0), (7, 1)]"
  by (simp only: count_late_tables ex_hits_eng map_ENG_TARGETS ex_late_table ex_other_tables
      sum_targets_single) simp

lemma ex_count_mastery:
  "count_mastery ascii_tables ex_book ENG_TARGETS (Some cutoff_2025)
     = [(8, 0), (9, 0), (7, 1)]"
  by (simp only: count_mastery_tables ex_hits_eng map_ENG_TARGETS ex_unit_table ex_other_tables
      sum_targets_single) simp

lemma sum_targets_empty: "sum_targets (replicate (Suc n) []) = []"
  using sum_targets_single [of "[]" n] by simp

lemma ex_count_math:
  "count_mastery ascii_tables ex_book MATH_TARGETS cutoff = []"
  "count_late_mastery ascii_tables ex_book MATH_TARGETS (Some co) = []"
proof -
  have r6: "[[], [], [], [], [], []] = replicate (Suc 5) []"
    by (simp only: replicate.simps replicate_5 [symmetric])
  have r: "map (\<lambda>tgt. []) MATH_TARGETS = replicate (Suc 5) []"
    unfolding MATH_TARGETS_def list.map by (rule r6)
  have "map (unit_table cutoff ex_book []) MATH_TARGETS = map (\<lambda>tgt. []) MATH_TARGETS"
    by (rule map_cong) (simp_all add: unit_table_other)
  then show "count_mastery ascii_tables ex_book MATH_TARGETS cutoff = []"
    by (simp only: count_mastery_tables ex_hits_math r sum_targets_empty)
  have "map (late_table co ex_book []) MATH_TARGETS = map (\<lambda>tgt. []) MATH_TARGETS"
    by (rule map_cong) (simp_all add: late_table_other)
  then show "count_late_mastery ascii_tables ex_book MATH_TARGETS (Some co) = []"
    by (simp only: count_late_tables ex_hits_math r sum_targets_empty)
qed

lemma distinct_ENG_TARGETS: "distinct ENG_TARGETS"
  by (simp add: ENG_TARGETS_def eitango1800_def asc_def)

lemma distinct_MATH_TARGETS: "distinct MATH_TARGETS"
  by (simp add: MATH_TARGETS_def)

lemma ex_sheet_entries:
  "sheet_entries ex_unit_a =
     Some [(7, Some (datetime 2025 1 10)), (8, Some (datetime 2025 2 10)), (9, None)]"
  "sheet_entries ex_unit_b = Some [(7, Some (datetime 2025 2 1))]"
  by (simp_all add: sheet_entries_def ex_id_col ex_kdates ex_ids dropna_id_def astype_int_numeral)

lemma ex_unit_entries:
  "unit_entries ascii_tables ex_book ENG_TARGETS eitango1800 =
     [(7, Some (datetime 2025 1 10)), (8, Some (datetime 2025 2 10)), (9, None),
      (7, Some (datetime 2025 2 1))]"
  by (simp add: unit_entries_def ex_hits_eng entries_of_def map_filter_simps ex_read_excel
      ex_clean_cols ex_sheet_entries)

theorem count_mastery_spec_witness:
  "distinct ENG_TARGETS \<and>
   count_mastery ascii_tables ex_book ENG_TARGETS (Some cutoff_2025) = [(8, 0), (9, 0), (7, 1)] \<and>
   mastery_spec ascii_tables ex_book ENG_TARGETS (Some cutoff_2025) 7 = 1 \<and>
   mastery_spec ascii_tables ex_book ENG_TARGETS (Some cutoff_2025) 8 = 0 \<and>
   mastery_spec ascii_tables ex_book ENG_TARGETS (Some cutoff_2025) 9 = 0 \<and>
   unit_students ascii_tables ex_book ENG_TARGETS = {7, 8, 9}"
proof -
  note th = count_mastery_spec [OF distinct_ENG_TARGETS, of "Some cutoff_2025" None
      ascii_tables ex_book eitango1800 7]
  from th have "\<forall>(k, n) \<in> set (count_mastery ascii_tables ex_book ENG_TARGETS (Some cutoff_2025)).
      n = mastery_spec ascii_tables ex_book ENG_TARGETS (Some cutoff_2025) k" by blast
  then have "mastery_spec ascii_tables ex_book ENG_TARGETS (Some cutoff_2025) 7 = 1"
    "mastery_spec ascii_tables ex_book ENG_TARGETS (Some cutoff_2025) 8 = 0"
    "mastery_spec ascii_tables ex_book ENG_TARGETS (Some cutoff_2025) 9 = 0"
    by (simp_all add: ex_count_mastery)
  moreover from th have "fst ` set (count_mastery ascii_tables ex_book ENG_TARGETS (Some cutoff_2025))
      = unit_students ascii_tables ex_book ENG_TARGETS" by blast
  then have "unit_students ascii_tables ex_book ENG_TARGETS = {7, 8, 9}"
    by (auto simp: ex_count_mastery)
  ultimately show ?thesis using distinct_ENG_TARGETS ex_count_mastery by blast
qed

text \<open>
  Claim C2, at a workbook with two sheets of one unit. Student 7 has the completion
  dates 2025-01-10 in the first sheet and 2025-02-01 in the second, so the earliest
  date is not after the cutoff 2025-01-18. The Late Completion Counter takes the
  minimum within each sheet only and returns two rows for the student, with the late
  counts 0 and 1. Without a cutoff it returns no row.
\<close>

theorem count_late_mastery_two_sheets:
  "count_late_mastery ascii_tables ex_book ENG_TARGETS (Some cutoff_2025)
     = [(7, 0), (8, 1), (9, 0), (7, 1)] \<and>
   [d. (k, d) \<leftarrow> unit_entries ascii_tables ex_book ENG_TARGETS eitango1800, k = 7]
     = [Some (datetime 2025 1 10), Some (datetime 2025 2 1)] \<and>
   min_date [Some (datetime 2025 1 10), Some (datetime 2025 2 1)] = Some (datetime 2025 1 10) \<and>
   \<not> datetime 2025 1 10 > cutoff_2025 \<and>
   count_late_mastery u fp target_list None = []"
proof (intro conjI)
  show "count_late_mastery ascii_tables ex_book ENG_TARGETS (Some cutoff_2025)
     = [(7, 0), (8, 1), (9, 0), (7, 1)]"
    by (rule ex_count_late)
  show "[d. (k, d) \<leftarrow> unit_entries ascii_tables ex_book ENG_TARGETS eitango1800, k = 7]
     = [Some (datetime 2025 1 10), Some (datetime 2025 2 1)]"
    by (simp add: ex_unit_entries)
  show "min_date [Some (datetime 2025 1 10), Some (datetime 2025 2 1)] = Some (datetime 2025 1 10)"
    by (simp add: min_date_def datetime_def)
  show "\<not> datetime 2025 1 10 > cutoff_2025"
    by (simp add: datetime_def cutoff_2025_def)
  show "count_late_mastery u fp target_list None = []"
    by (simp add: count_late_mastery_def)
qed

lemma ex_row_fields:
  "grade_norm (p_exam ex_row) = kou1_2" "eng_mas ex_row = 0"
  by (simp_all add: ex_row_def)

theorem dense_grid_witness:
  "(0::int) \<le> 6 \<and>
   int (length (summarize_long [ex_row] eng_mas (\<lambda>r. score_eng (p_exam r)) 6)) = 14 \<and>
   int (length (summarize_distribution [ex_row] eng_late 6)) = 14 \<and>
   l_cohort (summarize_long [ex_row] eng_mas (\<lambda>r. score_eng (p_exam r)) 6 ! 13) = kou3 \<and>
   l_key (summarize_long [ex_row] eng_mas (\<lambda>r. score_eng (p_exam r)) 6 ! 13) = 6 \<and>
   l_count (summarize_long [ex_row] eng_mas (\<lambda>r. score_eng (p_exam r)) 6 ! 13) = 0 \<and>
   l_mean (summarize_long [ex_row] eng_mas (\<lambda>r. score_eng (p_exam r)) 6 ! 13) = None"
proof -
  let ?T = "summarize_long [ex_row] eng_mas (\<lambda>r. score_eng (p_exam r)) 6"
  have z: "(0::int) \<le> 6" by simp
  note th = dense_grid [OF z, of "[ex_row]" eng_mas "\<lambda>r. score_eng (p_exam r)"]
  note th2 = dense_grid [OF z, of "[ex_row]" eng_late "\<lambda>r. score_eng (p_exam r)"]
  from th have l: "int (length ?T) = 14" by simp
  from th2 have d: "int (length (summarize_distribution [ex_row] eng_late 6)) = 14" by simp
  from l have n: "13 < length ?T" by simp
  then have x: "?T ! 13 \<in> set ?T" by (rule nth_mem)
  from th have "map (\<lambda>r. (l_cohort r, l_key r)) ?T
      = [(c, b). c \<leftarrow> [kou1_2, kou3], b \<leftarrow> [0..6]]" by blast
  then have "map (\<lambda>r. (l_cohort r, l_key r)) ?T ! 13
      = [(c, b). c \<leftarrow> [kou1_2, kou3], b \<leftarrow> [0..6]] ! 13" by simp
  with n have "(l_cohort (?T ! 13), l_key (?T ! 13))
      = [(c, b). c \<leftarrow> [kou1_2, kou3], b \<leftarrow> [0..6]] ! 13" by simp
  also have "\<dots> = (kou3, 6)" by (simp add: upto.simps)
  finally have k: "l_cohort (?T ! 13) = kou3" "l_key (?T ! 13) = 6" by simp_all
  from th have e: "\<forall>x \<in> set ?T.
      (\<forall>r \<in> set [ex_row]. \<not> (grade_norm (p_exam r) = l_cohort x \<and> eng_mas r = l_key x)) \<longrightarrow>
        l_count x = 0 \<and> l_mean x = None" by blast
  from k kou_differ have "\<forall>r \<in> set [ex_row].
      \<not> (grade_norm (p_exam r) = l_cohort (?T ! 13) \<and> eng_mas r = l_key (?T ! 13))"
    by (simp add: ex_row_fields)
  with e x have "l_count (?T ! 13) = 0 \<and> l_mean (?T ! 13) = None" by blast
  with z l d k show ?thesis by blast
qed

section \<open>The panel: properties\<close>

lemma partners_mem: "v \<in> set (partners k R) \<longleftrightarrow> (k, v) \<in> set R"
  by (auto simp: partners_def)

lemma left_merge_fst: "fst ` set (left_merge key L R) = set L"
proof (induction L)
  case Nil
  show ?case by (simp add: left_merge_def)
next
  case (Cons l L)
  have "fst ` set (if partners (key l) R = [] then [(l, None)]
                   else map (\<lambda>v. (l, Some v)) (partners (key l) R)) = {l}"
    by (cases "partners (key l) R") (auto simp: image_image)
  moreover have "left_merge key (l # L) R =
      (if partners (key l) R = [] then [(l, None)]
       else map (\<lambda>v. (l, Some v)) (partners (key l) R)) @ left_merge key L R"
    by (simp add: left_merge_def)
  ultimately show ?case using Cons.IH by (simp only: set_append image_Un) simp
qed

lemma left_merge_Some:
  "(l, Some v) \<in> set (left_merge key L R) \<Longrightarrow> (key l, v) \<in> set R"
  by (auto simp: left_merge_def partners_mem split: if_splits)

lemma left_merge_fillna0:
  assumes "(l, e) \<in> set (left_merge key L R)"
  shows "l \<in> set L \<and> (fillna0 e = 0 \<or> (key l, fillna0 e) \<in> set R)"
proof -
  from assms have "l \<in> fst ` set (left_merge key L R)" by force
  then have "l \<in> set L" by (simp only: left_merge_fst)
  moreover have "fillna0 e = 0 \<or> (key l, fillna0 e) \<in> set R"
  proof (cases e)
    case None
    then show ?thesis by (simp add: fillna0_def)
  next
    case (Some v)
    with assms have "(key l, v) \<in> set R" by (simp add: left_merge_Some)
    with Some show ?thesis by (simp add: fillna0_def)
  qed
  ultimately show ?thesis by blast
qed

lemma merged_of_row:
  assumes "x \<in> set (merged_of u om fp)"
  shows "p_exam x \<in> set (read_exam u fp) \<and>
         (eng_mas x = 0 \<or> (student_id (p_exam x), eng_mas x)
            \<in> set (count_mastery u fp ENG_TARGETS (cutoff_for_stem (file_stem fp) (Some om)))) \<and>
         (math_mas x = 0 \<or> (student_id (p_exam x), math_mas x)
            \<in> set (count_mastery u fp MATH_TARGETS (cutoff_for_stem (file_stem fp) (Some om)))) \<and>
         tot_mas x = eng_mas x + math_mas x"
proof -
  let ?cut = "cutoff_for_stem (file_stem fp) (Some om)"
  let ?m1 = "left_merge student_id (read_exam u fp) (count_mastery u fp ENG_TARGETS ?cut)"
  let ?m2 = "left_merge (\<lambda>(r, e). student_id r) ?m1 (count_mastery u fp MATH_TARGETS ?cut)"
  let ?m3 = "left_merge (\<lambda>((r, e), m). student_id r) ?m2 (count_late_mastery u fp ENG_TARGETS ?cut)"
  let ?m4 = "left_merge (\<lambda>(((r, e), m), el). student_id r) ?m3
               (count_late_mastery u fp MATH_TARGETS ?cut)"
  from assms obtain q where q: "q \<in> set ?m4"
    and x: "x = (case q of ((((r, e), m), el), ml) \<Rightarrow>
               \<lparr>p_exam = r, eng_mas = fillna0 e, math_mas = fillna0 m,
                tot_mas = fillna0 e + fillna0 m, yyyymm_or_year = file_stem fp,
                eng_late = fillna0 el, math_late = fillna0 ml\<rparr>)"
    unfolding merged_of_def Let_def by auto
  obtain r e m el ml where qq: "q = ((((r, e), m), el), ml)"
    by (metis surj_pair)
  from q qq have "(((r, e), m), el) \<in> set ?m3"
    using left_merge_fillna0 by fastforce
  then have m2: "((r, e), m) \<in> set ?m2"
    using left_merge_fillna0 by fastforce
  from left_merge_fillna0 [OF m2] have m1: "(r, e) \<in> set ?m1"
    and mm: "fillna0 m = 0 \<or> (student_id r, fillna0 m) \<in> set (count_mastery u fp MATH_TARGETS ?cut)"
    by simp_all
  from left_merge_fillna0 [OF m1] have "r \<in> set (read_exam u fp)"
    and "fillna0 e = 0 \<or> (student_id r, fillna0 e) \<in> set (count_mastery u fp ENG_TARGETS ?cut)"
    by simp_all
  with mm x qq show ?thesis by simp
qed

lemma merged_of_exam: "p_exam ` set (merged_of u om fp) = set (read_exam u fp)"
proof -
  let ?cut = "cutoff_for_stem (file_stem fp) (Some om)"
  let ?m1 = "left_merge student_id (read_exam u fp) (count_mastery u fp ENG_TARGETS ?cut)"
  let ?m2 = "left_merge (\<lambda>(r, e). student_id r) ?m1 (count_mastery u fp MATH_TARGETS ?cut)"
  let ?m3 = "left_merge (\<lambda>((r, e), m). student_id r) ?m2 (count_late_mastery u fp ENG_TARGETS ?cut)"
  let ?m4 = "left_merge (\<lambda>(((r, e), m), el). student_id r) ?m3
               (count_late_mastery u fp MATH_TARGETS ?cut)"
  have "p_exam ` set (merged_of u om fp) = (\<lambda>q. fst (fst (fst (fst q)))) ` set ?m4"
    unfolding merged_of_def Let_def by (simp add: image_image case_prod_unfold)
  also have "\<dots> = fst ` fst ` fst ` fst ` set ?m4" by (simp add: image_image)
  also have "\<dots> = set (read_exam u fp)" by (simp only: left_merge_fst)
  finally show ?thesis .
qed

lemma length_ENG_TARGETS: "length ENG_TARGETS = 6"
  by (simp add: ENG_TARGETS_def)

lemma length_MATH_TARGETS: "length MATH_TARGETS = 6"
  by (simp add: MATH_TARGETS_def)

lemma merged_of_bounds:
  assumes "x \<in> set (merged_of u om fp)"
  shows "0 \<le> eng_mas x \<and> eng_mas x \<le> 6 \<and> 0 \<le> math_mas x \<and> math_mas x \<le> 6 \<and>
         tot_mas x = eng_mas x + math_mas x"
proof -
  let ?cut = "cutoff_for_stem (file_stem fp) (Some om)"
  from merged_of_row [OF assms] have
    e: "eng_mas x = 0 \<or> (student_id (p_exam x), eng_mas x) \<in> set (count_mastery u fp ENG_TARGETS ?cut)"
    and m: "math_mas x = 0 \<or> (student_id (p_exam x), math_mas x) \<in> set (count_mastery u fp MATH_TARGETS ?cut)"
    and t: "tot_mas x = eng_mas x + math_mas x" by blast+
  from e have "0 \<le> eng_mas x \<and> eng_mas x \<le> 6"
    using count_mastery_bounds [of "student_id (p_exam x)" "eng_mas x" u fp ENG_TARGETS ?cut]
    by (auto simp: length_ENG_TARGETS)
  moreover from m have "0 \<le> math_mas x \<and> math_mas x \<le> 6"
    using count_mastery_bounds [of "student_id (p_exam x)" "math_mas x" u fp MATH_TARGETS ?cut]
    by (auto simp: length_MATH_TARGETS)
  ultimately show ?thesis using t by blast
qed

section \<open>The example workbook: results sheet and panel\<close>

lemma ex_pick: "pick_exam_sheets (sheet_names ex_book) = [sheet_2024_results]"
  by (simp add: pick_exam_sheets_def ex_sheet_names name_defs)

lemma ex_grades:
  "normalize_grade_val u [0xFF13, 0x5E74] = kou3"
  "normalize_grade_val u (asc ''1'') = kou1_2"
  by (simp_all add: grade_eval)

lemma ex_exam_frame:
  "exam_frame u ex_results =
     Some [\<lparr>student_id = 7, grade_norm = kou3, score_eng = Some 50,
            score_math = Some 0, score_jpn = None\<rparr>,
           \<lparr>student_id = 8, grade_norm = kou1_2, score_eng = Some 80,
            score_math = Some 30, score_jpn = None\<rparr>]"
proof -
  have c: "columns ex_results = [seito_bango, gakunen, eigo, sugaku_1A, sugaku_2BC]"
    by (simp add: ex_results_def)
  have g: "find (contains gakunen) (columns ex_results) = Some gakunen"
    "find (contains sugaku_1A) (columns ex_results) = Some sugaku_1A"
    "find (contains sugaku_2BC) (columns ex_results) = Some sugaku_2BC"
    "find (contains kokugo) (columns ex_results) = None"
    by (simp_all add: frame_defs)
  have e: "eigo \<in> set (columns ex_results)" by (simp add: c)
  have i: "index_of seito_bango (columns ex_results) = Some 0"
    "index_of gakunen (columns ex_results) = Some 1"
    "index_of eigo (columns ex_results) = Some 2"
    "index_of sugaku_1A (columns ex_results) = Some 3"
    "index_of sugaku_2BC (columns ex_results) = Some 4"
    by (simp_all add: frame_defs)
  have r: "rows ex_results =
      [[number_cell 7, text_cell [0xFF13, 0x5E74], number_cell 50, blank, blank],
       [number_cell 8, text_cell (asc ''1''), number_cell 80, number_cell 30, blank]]"
    by (simp add: ex_results_def)
  show ?thesis
    unfolding exam_frame_def Let_def g ex_id_col
    by (simp add: e r cell_of_def i cell_at_def math_score_def number_cell_def text_cell_def
        blank_def fillna0_def astype_int_numeral ex_grades)
qed

lemma ex_exam_entries:
  "exam_entries u ex_book =
     [\<lparr>student_id = 7, grade_norm = kou3, score_eng = Some 50,
       score_math = Some 0, score_jpn = None\<rparr>,
      \<lparr>student_id = 8, grade_norm = kou1_2, score_eng = Some 80,
       score_math = Some 30, score_jpn = None\<rparr>]"
  by (simp add: exam_entries_def ex_pick map_filter_simps ex_read_excel ex_clean_cols ex_exam_frame)

lemma read_exam_entries:
  "read_exam u fp =
     (let out = exam_entries u fp
      in map (\<lambda>(k, g).
               let grp = filter (\<lambda>r. student_id r = k \<and> grade_norm r = g) out
               in \<lparr>student_id = k, grade_norm = g,
                   score_eng = max_score (map score_eng grp),
                   score_math = max_score (map score_math grp),
                   score_jpn = max_score (map score_jpn grp)\<rparr>)
             (remdups (map (\<lambda>r. (student_id r, grade_norm r)) out)))"
proof (cases "List.map_filter (\<lambda>s. exam_frame u (clean_cols (read_excel fp s)))
               (pick_exam_sheets (sheet_names fp)) = []")
  case True
  then show ?thesis by (simp add: read_exam_def exam_entries_def Let_def)
next
  case False
  then show ?thesis by (simp add: read_exam_def exam_entries_def Let_def)
qed

lemma ex_read_exam:
  "read_exam u ex_book =
     [\<lparr>student_id = 7, grade_norm = kou3, score_eng = Some 50,
       score_math = Some 0, score_jpn = None\<rparr>,
      \<lparr>student_id = 8, grade_norm = kou1_2, score_eng = Some 80,
       score_math = Some 30, score_jpn = None\<rparr>]"
  using kou_differ
  by (simp add: read_exam_entries ex_exam_entries Let_def max_score_def)

lemma ex_cutoff: "cutoff_for_stem (file_stem ex_book) (Some Map.empty) = Some cutoff_2025"
proof -
  have "file_stem ex_book = asc ''2024'' @ kekka" by (simp add: ex_book_def)
  then show ?thesis
    by (simp add: cutoff_for_stem_no_six [OF search6_2024] search4_2024 int_2024
        EXAM_CUTOFF_BY_YEAR_def cutoff_2025_def)
qed

lemma ex_merged:
  "merged_of ascii_tables Map.empty ex_book =
     [\<lparr>p_exam = \<lparr>student_id = 7, grade_norm = kou3, score_eng = Some 50,
                  score_math = Some 0, score_jpn = None\<rparr>,
       eng_mas = 1, math_mas = 0, tot_mas = 1, yyyymm_or_year = file_stem ex_book,
       eng_late = 0, math_late = 0\<rparr>,
      \<lparr>p_exam = \<lparr>student_id = 7, grade_norm = kou3, score_eng = Some 50,
                  score_math = Some 0, score_jpn = None\<rparr>,
       eng_mas = 1, math_mas = 0, tot_mas = 1, yyyymm_or_year = file_stem ex_book,
       eng_late = 1, math_late = 0\<rparr>,
      \<lparr>p_exam = \<lparr>student_id = 8, grade_norm = kou1_2, score_eng = Some 80,
                  score_math = Some 30, score_jpn = None\<rparr>,
       eng_mas = 0, math_mas = 0, tot_mas = 0, yyyymm_or_year = file_stem ex_book,
       eng_late = 1, math_late = 0\<rparr>]"
  unfolding merged_of_def Let_def ex_cutoff ex_read_exam ex_count_mastery ex_count_late
    ex_count_math
  by (simp add: left_merge_def partners_def fillna0_def)

section \<open>The claims on the panel, the extractor and the workbook\<close>

lemma panel_of_mem:
  "x \<in> set (panel_of u om files) \<longleftrightarrow> (\<exists>fp \<in> set files. x \<in> set (merged_of u om fp))"
  by (auto simp: panel_of_def)

lemma ex_row_in_panel: "ex_row \<in> set (panel_of ascii_tables Map.empty [ex_book])"
proof -
  have "file_stem ex_book = asc ''2024'' @ kekka" by (simp add: ex_book_def)
  then show ?thesis by (simp add: panel_of_def ex_merged ex_row_def)
qed

text \<open>
  Claim C5. For every row of the panel, the English mastery count and the Math mastery
  count lie between 0 and 6, the size of either catalog, the total is exactly their sum
  and so lies between 0 and 12; and for every catalog the count that the Mastery Counter
  returns for a student lies between 0 and the size of the catalog.
\<close>

theorem panel_mastery_bounds:
  "(x \<in> set (panel_of u om files) \<longrightarrow>
      0 \<le> eng_mas x \<and> eng_mas x \<le> 6 \<and> 0 \<le> math_mas x \<and> math_mas x \<le> 6 \<and>
      tot_mas x = eng_mas x + math_mas x \<and> 0 \<le> tot_mas x \<and> tot_mas x \<le> 12) \<and>
   ((k, n) \<in> set (count_mastery u fp target_list cutoff) \<longrightarrow>
      0 \<le> n \<and> n \<le> int (length target_list)) \<and>
   length ENG_TARGETS = 6 \<and> length MATH_TARGETS = 6"
proof (intro conjI impI)
  assume "x \<in> set (panel_of u om files)"
  then obtain f where "x \<in> set (merged_of u om f)" by (auto simp: panel_of_mem)
  from merged_of_bounds [OF this]
  show "0 \<le> eng_mas x" "eng_mas x \<le> 6" "0 \<le> math_mas x" "math_mas x \<le> 6"
    "tot_mas x = eng_mas x + math_mas x" "0 \<le> tot_mas x" "tot_mas x \<le> 12"
    by simp_all
next
  assume "(k, n) \<in> set (count_mastery u fp target_list cutoff)"
  from count_mastery_bounds [OF this]
  show "0 \<le> n" "n \<le> int (length target_list)" by simp_all
next
  show "length ENG_TARGETS = 6" by (rule length_ENG_TARGETS)
  show "length MATH_TARGETS = 6" by (rule length_MATH_TARGETS)
qed

theorem panel_mastery_bounds_witness:
  "ex_row \<in> set (panel_of ascii_tables Map.empty [ex_book]) \<and>
   0 \<le> eng_mas ex_row \<and> eng_mas ex_row \<le> 6 \<and> 0 \<le> math_mas ex_row \<and> math_mas ex_row \<le> 6 \<and>
   tot_mas ex_row = eng_mas ex_row + math_mas ex_row \<and> tot_mas ex_row \<le> 12 \<and>
   (7, 1) \<in> set (count_mastery ascii_tables ex_book ENG_TARGETS (Some cutoff_2025)) \<and>
   (1::int) \<le> int (length ENG_TARGETS)"
proof -
  have m: "(7, 1) \<in> set (count_mastery ascii_tables ex_book ENG_TARGETS (Some cutoff_2025))"
    by (simp add: ex_count_mastery)
  note th = panel_mastery_bounds [of ex_row ascii_tables Map.empty "[ex_book]" 7 1
      ex_book ENG_TARGETS "Some cutoff_2025"]
  from th ex_row_in_panel m show ?thesis by blast
qed

lemma read_exam_ids: "student_id ` set (read_exam u fp) = student_id ` set (exam_entries u fp)"
proof -
  let ?out = "exam_entries u fp"
  let ?F = "\<lambda>p. \<lparr>student_id = fst p, grade_norm = snd p,
      score_eng = max_score (map score_eng
        (filter (\<lambda>r. student_id r = fst p \<and> grade_norm r = snd p) ?out)),
      score_math = max_score (map score_math
        (filter (\<lambda>r. student_id r = fst p \<and> grade_norm r = snd p) ?out)),
      score_jpn = max_score (map score_jpn
        (filter (\<lambda>r. student_id r = fst p \<and> grade_norm r = snd p) ?out))\<rparr>"
  have "read_exam u fp = map ?F (remdups (map (\<lambda>r. (student_id r, grade_norm r)) ?out))"
    by (simp add: read_exam_entries Let_def case_prod_unfold)
  then have "student_id ` set (read_exam u fp)
      = (\<lambda>p. student_id (?F p)) ` set (map (\<lambda>r. (student_id r, grade_norm r)) ?out)"
    by (simp add: image_image)
  also have "\<dots> = fst ` set (map (\<lambda>r. (student_id r, grade_norm r)) ?out)" by simp
  also have "\<dots> = student_id ` set ?out" by (simp add: image_image)
  finally show ?thesis .
qed

lemma merged_of_ids:
  "(\<lambda>x. student_id (p_exam x)) ` set (merged_of u om fp) = student_id ` set (exam_entries u fp)"
proof -
  have "(\<lambda>x. student_id (p_exam x)) ` set (merged_of u om fp)
      = student_id ` p_exam ` set (merged_of u om fp)" by (simp add: image_image)
  then show ?thesis by (simp only: merged_of_exam read_exam_ids)
qed

lemma ex_unit_students: "unit_students ascii_tables ex_book ENG_TARGETS = {7, 8, 9}"
proof -
  have "fst ` set (count_mastery ascii_tables ex_book ENG_TARGETS (Some cutoff_2025))
      = unit_students ascii_tables ex_book ENG_TARGETS"
    using count_mastery_keys by blast
  then show ?thesis by (auto simp: ex_count_mastery)
qed

text \<open>
  Claim C10. For every file, the student ids of the merged table are exactly the
  student ids extracted from the results sheets of the file, and the student ids of
  the panel are those of all files together; so a student who is in no results sheet
  is in no row of the merged table, whatever the unit sheets hold for the student.
\<close>

theorem merged_students:
  "(\<lambda>x. student_id (p_exam x)) ` set (merged_of u om fp) = student_id ` set (exam_entries u fp) \<and>
   student_id ` set (read_exam u fp) = student_id ` set (exam_entries u fp) \<and>
   (\<lambda>x. student_id (p_exam x)) ` set (panel_of u om files)
     = (\<Union>f \<in> set files. student_id ` set (exam_entries u f)) \<and>
   (k \<notin> student_id ` set (exam_entries u fp) \<longrightarrow>
      k \<notin> (\<lambda>x. student_id (p_exam x)) ` set (merged_of u om fp))"
proof (intro conjI impI)
  show "(\<lambda>x. student_id (p_exam x)) ` set (merged_of u om fp) = student_id ` set (exam_entries u fp)"
    by (rule merged_of_ids)
  show "student_id ` set (read_exam u fp) = student_id ` set (exam_entries u fp)"
    by (rule read_exam_ids)
  have "(\<lambda>x. student_id (p_exam x)) ` set (panel_of u om files)
      = (\<Union>f \<in> set files. (\<lambda>x. student_id (p_exam x)) ` set (merged_of u om f))"
    by (auto simp: panel_of_def)
  then show "(\<lambda>x. student_id (p_exam x)) ` set (panel_of u om files)
     = (\<Union>f \<in> set files. student_id ` set (exam_entries u f))"
    by (simp only: merged_of_ids)
next
  assume "k \<notin> student_id ` set (exam_entries u fp)"
  then show "k \<notin> (\<lambda>x. student_id (p_exam x)) ` set (merged_of u om fp)"
    by (simp add: merged_of_ids)
qed

theorem merged_students_witness:
  "9 \<notin> student_id ` set (exam_entries ascii_tables ex_book) \<and>
   9 \<in> unit_students ascii_tables ex_book ENG_TARGETS \<and>
   9 \<notin> (\<lambda>x. student_id (p_exam x)) ` set (merged_of ascii_tables Map.empty ex_book) \<and>
   (\<lambda>x. student_id (p_exam x)) ` set (merged_of ascii_tables Map.empty ex_book) = {7, 8}"
proof -
  have a: "9 \<notin> student_id ` set (exam_entries ascii_tables ex_book)"
    by (simp add: ex_exam_entries)
  have b: "9 \<in> unit_students ascii_tables ex_book ENG_TARGETS"
    by (simp add: ex_unit_students)
  note th = merged_students [of ascii_tables Map.empty ex_book "[ex_book]" 9]
  from th [THEN conjunct2, THEN conjunct2, THEN conjunct2] a
  have c: "9 \<notin> (\<lambda>x. student_id (p_exam x)) ` set (merged_of ascii_tables Map.empty ex_book)"
    by (rule mp)
  note th [THEN conjunct1]
  then have d: "(\<lambda>x. student_id (p_exam x)) ` set (merged_of ascii_tables Map.empty ex_book) = {7, 8}"
    by (simp add: ex_exam_entries)
  show ?thesis by (intro conjI a b c d)
qed

lemma concat_option_map_filter:
  "concat (map (\<lambda>r. case g r of None \<Rightarrow> [] | Some q \<Rightarrow> [f r q]) rs)
     = List.map_filter (\<lambda>r. case g r of None \<Rightarrow> None | Some q \<Rightarrow> Some (f r q)) rs"
  by (induction rs) (simp_all add: map_filter_simps split: option.splits)

lemma exam_frame_rows:
  assumes "eigo \<in> set (columns df)" and "id_col df = Some ic"
    and "find (contains gakunen) (columns df) = Some gc"
  shows "exam_frame u df =
     Some (List.map_filter
       (\<lambda>r. case c_num (cell_of df ic r) of
               None \<Rightarrow> None
             | Some q \<Rightarrow>
                 Some \<lparr>student_id = astype_int q,
                       grade_norm = normalize_grade_val u (c_text (cell_of df gc r)),
                       score_eng = c_num (cell_of df eigo r),
                       score_math =
                         (case find (contains sugaku_1A) (columns df) of
                            None \<Rightarrow> None
                          | Some m1 \<Rightarrow>
                              (case find (contains sugaku_2BC) (columns df) of
                                 None \<Rightarrow> None
                               | Some m2 \<Rightarrow>
                                   Some ((case c_num (cell_of df m1 r) of None \<Rightarrow> 0 | Some a \<Rightarrow> a) +
                                         (case c_num (cell_of df m2 r) of None \<Rightarrow> 0 | Some b \<Rightarrow> b)))),
                       score_jpn =
                         (case find (contains kokugo) (columns df) of
                            None \<Rightarrow> None
                          | Some jc \<Rightarrow> c_num (cell_of df jc r))\<rparr>)
       (rows df))"
proof -
  have m: "\<And>r. math_score df (find (contains sugaku_1A) (columns df))
                 (find (contains sugaku_2BC) (columns df)) r =
       (case find (contains sugaku_1A) (columns df) of
          None \<Rightarrow> None
        | Some m1 \<Rightarrow>
            (case find (contains sugaku_2BC) (columns df) of
               None \<Rightarrow> None
             | Some m2 \<Rightarrow>
                 Some ((case c_num (cell_of df m1 r) of None \<Rightarrow> 0 | Some a \<Rightarrow> a) +
                       (case c_num (cell_of df m2 r) of None \<Rightarrow> 0 | Some b \<Rightarrow> b))))"
    by (simp add: math_score_def fillna0_def split: option.splits)
  show ?thesis
    unfolding exam_frame_def Let_def m
    using assms by (simp add: concat_option_map_filter)
qed


lemma read_exam_keys:
  "map (\<lambda>x. (student_id x, grade_norm x)) (read_exam u fp)
     = remdups (map (\<lambda>r. (student_id r, grade_norm r)) (exam_entries u fp))"
  by (simp add: read_exam_entries Let_def case_prod_unfold comp_def)

lemma read_exam_row:
  assumes "x \<in> set (read_exam u fp)"
  shows "score_eng x = max_score (map score_eng
           (filter (\<lambda>e. student_id e = student_id x \<and> grade_norm e = grade_norm x)
              (exam_entries u fp))) \<and>
         score_math x = max_score (map score_math
           (filter (\<lambda>e. student_id e = student_id x \<and> grade_norm e = grade_norm x)
              (exam_entries u fp))) \<and>
         score_jpn x = max_score (map score_jpn
           (filter (\<lambda>e. student_id e = student_id x \<and> grade_norm e = grade_norm x)
              (exam_entries u fp)))"
proof -
  from assms obtain k g where
    x: "x = \<lparr>student_id = k, grade_norm = g,
             score_eng = max_score (map score_eng
               (filter (\<lambda>r. student_id r = k \<and> grade_norm r = g) (exam_entries u fp))),
             score_math = max_score (map score_math
               (filter (\<lambda>r. student_id r = k \<and> grade_norm r = g) (exam_entries u fp))),
             score_jpn = max_score (map score_jpn
               (filter (\<lambda>r. student_id r = k \<and> grade_norm r = g) (exam_entries u fp)))\<rparr>"
    by (auto simp: read_exam_entries Let_def)
  show ?thesis by (simp add: x)
qed

lemma read_exam_one_row:
  "distinct (map (\<lambda>x. (student_id x, grade_norm x)) (read_exam u fp)) \<and>
   (\<lambda>x. (student_id x, grade_norm x)) ` set (read_exam u fp)
     = (\<lambda>e. (student_id e, grade_norm e)) ` set (exam_entries u fp)"
proof -
  have "set (map (\<lambda>x. (student_id x, grade_norm x)) (read_exam u fp))
      = set (map (\<lambda>r. (student_id r, grade_norm r)) (exam_entries u fp))"
    by (simp only: read_exam_keys set_remdups)
  then have i: "(\<lambda>x. (student_id x, grade_norm x)) ` set (read_exam u fp)
     = (\<lambda>e. (student_id e, grade_norm e)) ` set (exam_entries u fp)"
    by (simp only: set_map)
  have d: "distinct (map (\<lambda>x. (student_id x, grade_norm x)) (read_exam u fp))"
    by (simp only: read_exam_keys distinct_remdups)
  from d i show ?thesis by (rule conjI)
qed

lemma somes_set: "set [x. Some x \<leftarrow> vs] = {x. Some x \<in> set vs}"
  by (induction vs) (auto split: option.splits)

lemma case_list_None:
  "(case xs of [] \<Rightarrow> None | x # ys \<Rightarrow> Some (g x ys)) = None \<longleftrightarrow> xs = []"
  by (cases xs) simp_all

lemma case_list_Max:
  "(case xs of [] \<Rightarrow> None | x # ys \<Rightarrow> Some (Max (set (x # ys)))) = Some m
   \<Longrightarrow> xs \<noteq> [] \<and> m = Max (set xs)"
  by (cases xs) auto

lemma max_score_None: "max_score vs = None \<longleftrightarrow> (\<forall>v \<in> set vs. v = None)"
proof -
  let ?xs = "[x. Some x \<leftarrow> vs]"
  have "?xs = [] \<longleftrightarrow> set ?xs = {}" by (rule set_empty [symmetric])
  also have "\<dots> \<longleftrightarrow> {x. Some x \<in> set vs} = {}" by (simp only: somes_set)
  also have "\<dots> \<longleftrightarrow> (\<forall>v \<in> set vs. v = None)"
  proof
    assume e: "{x. Some x \<in> set vs} = {}"
    show "\<forall>v \<in> set vs. v = None"
    proof
      fix v assume v: "v \<in> set vs"
      show "v = None"
      proof (cases v)
        case None
        then show ?thesis .
      next
        case (Some a)
        with v have "a \<in> {x. Some x \<in> set vs}" by simp
        with e show ?thesis by simp
      qed
    qed
  next
    assume "\<forall>v \<in> set vs. v = None"
    then show "{x. Some x \<in> set vs} = {}" by auto
  qed
  finally have e: "?xs = [] \<longleftrightarrow> (\<forall>v \<in> set vs. v = None)" .
  show ?thesis unfolding max_score_def by (simp only: case_list_None e)
qed

lemma max_score_Some:
  assumes "max_score vs = Some m"
  shows "Some m \<in> set vs \<and> (\<forall>v. Some v \<in> set vs \<longrightarrow> v \<le> m)"
proof -
  let ?xs = "[x. Some x \<leftarrow> vs]"
  from assms have "?xs \<noteq> [] \<and> m = Max (set ?xs)"
    unfolding max_score_def by (rule case_list_Max)
  then have ne: "set ?xs \<noteq> {}" and m: "m = Max (set ?xs)"
    by (simp_all only: set_empty simp_thms)
  have fin: "finite (set ?xs)" by (rule finite_set)
  from fin ne have "Max (set ?xs) \<in> set ?xs" by (rule Max_in)
  then have "m \<in> set ?xs" by (simp only: m)
  then have "m \<in> {x. Some x \<in> set vs}" by (simp only: somes_set)
  then have a: "Some m \<in> set vs" by simp
  have b: "\<forall>v. Some v \<in> set vs \<longrightarrow> v \<le> m"
  proof (intro allI impI)
    fix v assume "Some v \<in> set vs"
    then have "v \<in> {x. Some x \<in> set vs}" by simp
    then have "v \<in> set ?xs" by (simp only: somes_set)
    with fin have "v \<le> Max (set ?xs)" by (rule Max_ge)
    then show "v \<le> m" by (simp only: m)
  qed
  from a b show ?thesis by (rule conjI)
qed


lemma summarize_long_kept:
  "summarize_long df key sc m = summarize_long (filter (\<lambda>r. sc r \<noteq> None) df) key sc m"
  by (simp add: summarize_long_cells long_cell_def)

lemma map_filter_member:
  "x \<in> set xs \<Longrightarrow> f x = Some y \<Longrightarrow> y \<in> set (List.map_filter f xs)"
  by (force simp: map_filter_def)

lemma exam_frame_blank_math:
  assumes "eigo \<in> set (columns df) \<and> id_col df = Some ic \<and>
    find (contains gakunen) (columns df) = Some gc \<and>
    find (contains sugaku_1A) (columns df) = Some c1 \<and>
    find (contains sugaku_2BC) (columns df) = Some c2 \<and>
    r0 \<in> set (rows df) \<and> c_num (cell_of df ic r0) = Some q0 \<and>
    c_num (cell_of df c1 r0) = None \<and> c_num (cell_of df c2 r0) = None"
  shows "\<exists>out. exam_frame u df = Some out \<and>
         \<lparr>student_id = astype_int q0,
           grade_norm = normalize_grade_val u (c_text (cell_of df gc r0)),
           score_eng = c_num (cell_of df eigo r0),
           score_math = Some 0,
           score_jpn = (case find (contains kokugo) (columns df) of
                          None \<Rightarrow> None
                        | Some jc \<Rightarrow> c_num (cell_of df jc r0))\<rparr> \<in> set out"
proof -
  from assms have a: "eigo \<in> set (columns df)" "id_col df = Some ic"
    "find (contains gakunen) (columns df) = Some gc" by simp_all
  from assms have r: "r0 \<in> set (rows df)" by simp
  note e = exam_frame_rows [OF a, of u]
  show ?thesis
    unfolding e
    apply (intro exI conjI)
     apply (rule refl)
    apply (rule map_filter_member [OF r])
    using assms apply simp
    done
qed

lemma ex_results_find:
  "find (contains gakunen) (columns ex_results) = Some gakunen"
  "find (contains sugaku_1A) (columns ex_results) = Some sugaku_1A"
  "find (contains sugaku_2BC) (columns ex_results) = Some sugaku_2BC"
  "find (contains kokugo) (columns ex_results) = None"
  by (simp_all add: frame_defs)

lemma ex_results_index:
  "index_of seito_bango (columns ex_results) = Some 0"
  "index_of gakunen (columns ex_results) = Some 1"
  "index_of eigo (columns ex_results) = Some 2"
  "index_of sugaku_1A (columns ex_results) = Some 3"
  "index_of sugaku_2BC (columns ex_results) = Some 4"
  by (simp_all add: frame_defs)

lemma ex_results_rows:
  "rows ex_results =
      [[number_cell 7, text_cell [0xFF13, 0x5E74], number_cell 50, blank, blank],
       [number_cell 8, text_cell (asc ''1''), number_cell 80, number_cell 30, blank]]"
  by (simp add: ex_results_def)

lemma ex_results_eigo: "eigo \<in> set (columns ex_results)"
  by (simp add: ex_results_def)

lemma ex_math_cells:
  "c_num (cell_of ex_results sugaku_1A (hd (rows ex_results))) = None"
  "c_num (cell_of ex_results sugaku_2BC (hd (rows ex_results))) = None"
  "c_num (cell_of ex_results seito_bango (hd (rows ex_results))) = Some 7"
  by (simp_all add: frame_defs cell_defs)

lemma ex_first_row:
  "hd (rows ex_results) \<in> set (rows ex_results)"
  "normalize_grade_val u (c_text (cell_of ex_results gakunen (hd (rows ex_results)))) = kou3"
  "c_num (cell_of ex_results eigo (hd (rows ex_results))) = Some 50"
  by (simp_all add: ex_results_rows cell_of_def ex_results_index cell_at_def number_cell_def
      text_cell_def ex_grades)

lemma ex_max_score:
  "max_score [None, Some 0] = Some 0"
  "max_score [None, None] = None"
  by (simp_all add: max_score_def)

text \<open>
  Claim C7, as the code has it. A results sheet that has the English column, a student
  number column and a grade column gives one row for each of its rows whose student
  number is numeric, in the order of the sheet: the student id is that number, the cohort
  is the normalized grade, the English score is the numeric reading of the English cell,
  the Japanese score is the numeric reading of the cell of the Japanese column, missing
  when the sheet has no such column, and the Math score is, when both math sub-columns
  are present in the sheet, the sum of the two sub-scores with a blank or unparseable
  sub-score counted as 0, and is missing when a sub-column is absent. So a row whose two
  math cells are both blank or unparseable has the Math score 0 under its own student id,
  not a missing one. The table of a file has exactly one row for each pair of student id
  and cohort of these rows, and each of its three scores is the maximum of the present
  scores of the rows of that pair, missing when none is present. A row with a missing
  score contributes to no cell of a long table, neither to its head count nor to its mean.
\<close>

theorem math_score_fill_zero:
  "(eigo \<in> set (columns df) \<and> id_col df = Some ic \<and>
    find (contains gakunen) (columns df) = Some gc \<longrightarrow>
      exam_frame u df =
        Some (List.map_filter
          (\<lambda>r. case c_num (cell_of df ic r) of
                  None \<Rightarrow> None
                | Some q \<Rightarrow>
                    Some \<lparr>student_id = astype_int q,
                       grade_norm = normalize_grade_val u (c_text (cell_of df gc r)),
                       score_eng = c_num (cell_of df eigo r),
                       score_math =
                         (case find (contains sugaku_1A) (columns df) of
                            None \<Rightarrow> None
                          | Some m1 \<Rightarrow>
                              (case find (contains sugaku_2BC) (columns df) of
                                 None \<Rightarrow> None
                               | Some m2 \<Rightarrow>
                                   Some ((case c_num (cell_of df m1 r) of None \<Rightarrow> 0 | Some a \<Rightarrow> a) +
                                         (case c_num (cell_of df m2 r) of None \<Rightarrow> 0 | Some b \<Rightarrow> b)))),
                       score_jpn =
                         (case find (contains kokugo) (columns df) of
                            None \<Rightarrow> None
                          | Some jc \<Rightarrow> c_num (cell_of df jc r))\<rparr>)
          (rows df))) \<and>
   (eigo \<in> set (columns df) \<and> id_col df = Some ic \<and>
    find (contains gakunen) (columns df) = Some gc \<and>
    find (contains sugaku_1A) (columns df) = Some c1 \<and>
    find (contains sugaku_2BC) (columns df) = Some c2 \<and>
    r0 \<in> set (rows df) \<and> c_num (cell_of df ic r0) = Some q0 \<and>
    c_num (cell_of df c1 r0) = None \<and> c_num (cell_of df c2 r0) = None \<longrightarrow>
      (\<exists>out. exam_frame u df = Some out \<and>
         \<lparr>student_id = astype_int q0,
           grade_norm = normalize_grade_val u (c_text (cell_of df gc r0)),
           score_eng = c_num (cell_of df eigo r0),
           score_math = Some 0,
           score_jpn = (case find (contains kokugo) (columns df) of
                          None \<Rightarrow> None
                        | Some jc \<Rightarrow> c_num (cell_of df jc r0))\<rparr> \<in> set out)) \<and>
   (x \<in> set (read_exam u fp) \<longrightarrow>
      score_eng x = max_score (map score_eng
        (filter (\<lambda>e. student_id e = student_id x \<and> grade_norm e = grade_norm x)
           (exam_entries u fp))) \<and>
      score_math x = max_score (map score_math
        (filter (\<lambda>e. student_id e = student_id x \<and> grade_norm e = grade_norm x)
           (exam_entries u fp))) \<and>
      score_jpn x = max_score (map score_jpn
        (filter (\<lambda>e. student_id e = student_id x \<and> grade_norm e = grade_norm x)
           (exam_entries u fp)))) \<and>
   (distinct (map (\<lambda>x. (student_id x, grade_norm x)) (read_exam u fp)) \<and>
    (\<lambda>x. (student_id x, grade_norm x)) ` set (read_exam u fp)
      = (\<lambda>e. (student_id e, grade_norm e)) ` set (exam_entries u fp)) \<and>
   (max_score vs = None \<longleftrightarrow> (\<forall>v \<in> set vs. v = None)) \<and>
   (max_score vs = Some m \<longrightarrow> Some m \<in> set vs \<and> (\<forall>v. Some v \<in> set vs \<longrightarrow> v \<le> m)) \<and>
   summarize_long panel key sc n = summarize_long (filter (\<lambda>r. sc r \<noteq> None) panel) key sc n"
proof -
  have c1: "(eigo \<in> set (columns df) \<and> id_col df = Some ic \<and>
    find (contains gakunen) (columns df) = Some gc \<longrightarrow>
      exam_frame u df =
        Some (List.map_filter
          (\<lambda>r. case c_num (cell_of df ic r) of
                  None \<Rightarrow> None
                | Some q \<Rightarrow>
                    Some \<lparr>student_id = astype_int q,
                       grade_norm = normalize_grade_val u (c_text (cell_of df gc r)),
                       score_eng = c_num (cell_of df eigo r),
                       score_math =
                         (case find (contains sugaku_1A) (columns df) of
                            None \<Rightarrow> None
                          | Some m1 \<Rightarrow>
                              (case find (contains sugaku_2BC) (columns df) of
                                 None \<Rightarrow> None
                               | Some m2 \<Rightarrow>
                                   Some ((case c_num (cell_of df m1 r) of None \<Rightarrow> 0 | Some a \<Rightarrow> a) +
                                         (case c_num (cell_of df m2 r) of None \<Rightarrow> 0 | Some b \<Rightarrow> b)))),
                       score_jpn =
                         (case find (contains kokugo) (columns df) of
                            None \<Rightarrow> None
                          | Some jc \<Rightarrow> c_num (cell_of df jc r))\<rparr>)
          (rows df)))"
    using exam_frame_rows [of df ic gc u] by blast
  have c2: "(eigo \<in> set (columns df) \<and> id_col df = Some ic \<and>
    find (contains gakunen) (columns df) = Some gc \<and>
    find (contains sugaku_1A) (columns df) = Some c1 \<and>
    find (contains sugaku_2BC) (columns df) = Some c2 \<and>
    r0 \<in> set (rows df) \<and> c_num (cell_of df ic r0) = Some q0 \<and>
    c_num (cell_of df c1 r0) = None \<and> c_num (cell_of df c2 r0) = None \<longrightarrow>
      (\<exists>out. exam_frame u df = Some out \<and>
         \<lparr>student_id = astype_int q0,
           grade_norm = normalize_grade_val u (c_text (cell_of df gc r0)),
           score_eng = c_num (cell_of df eigo r0),
           score_math = Some 0,
           score_jpn = (case find (contains kokugo) (columns df) of
                          None \<Rightarrow> None
                        | Some jc \<Rightarrow> c_num (cell_of df jc r0))\<rparr> \<in> set out))"
    using exam_frame_blank_math [of df ic gc c1 c2 r0 q0 u] by blast
  have c3: "(x \<in> set (read_exam u fp) \<longrightarrow>
      score_eng x = max_score (map score_eng
        (filter (\<lambda>e. student_id e = student_id x \<and> grade_norm e = grade_norm x)
           (exam_entries u fp))) \<and>
      score_math x = max_score (map score_math
        (filter (\<lambda>e. student_id e = student_id x \<and> grade_norm e = grade_norm x)
           (exam_entries u fp))) \<and>
      score_jpn x = max_score (map score_jpn
        (filter (\<lambda>e. student_id e = student_id x \<and> grade_norm e = grade_norm x)
           (exam_entries u fp))))"
    using read_exam_row [of x u fp] by blast
  have c4: "(distinct (map (\<lambda>x. (student_id x, grade_norm x)) (read_exam u fp)) \<and>
    (\<lambda>x. (student_id x, grade_norm x)) ` set (read_exam u fp)
      = (\<lambda>e. (student_id e, grade_norm e)) ` set (exam_entries u fp))"
    by (rule read_exam_one_row)
  have c5: "(max_score vs = None \<longleftrightarrow> (\<forall>v \<in> set vs. v = None))"
    by (rule max_score_None)
  have c6: "(max_score vs = Some m \<longrightarrow> Some m \<in> set vs \<and> (\<forall>v. Some v \<in> set vs \<longrightarrow> v \<le> m))"
    using max_score_Some [of vs m] by blast
  have c7: "summarize_long panel key sc n = summarize_long (filter (\<lambda>r. sc r \<noteq> None) panel) key sc n"
    by (rule summarize_long_kept)
  show ?thesis
    by (intro conjI c1 c2 c3 c4 [THEN conjunct1] c4 [THEN conjunct2] c5 c6 c7)
qed


theorem math_score_fill_zero_witness:
  "eigo \<in> set (columns ex_results) \<and>
   id_col ex_results = Some seito_bango \<and>
   find (contains gakunen) (columns ex_results) = Some gakunen \<and>
   find (contains sugaku_1A) (columns ex_results) = Some sugaku_1A \<and>
   find (contains sugaku_2BC) (columns ex_results) = Some sugaku_2BC \<and>
   hd (rows ex_results) \<in> set (rows ex_results) \<and>
   c_num (cell_of ex_results seito_bango (hd (rows ex_results))) = Some 7 \<and>
   c_num (cell_of ex_results sugaku_1A (hd (rows ex_results))) = None \<and>
   c_num (cell_of ex_results sugaku_2BC (hd (rows ex_results))) = None \<and>
   exam_frame ascii_tables ex_results =
     Some [\<lparr>student_id = 7, grade_norm = kou3, score_eng = Some 50,
            score_math = Some 0, score_jpn = None\<rparr>,
           \<lparr>student_id = 8, grade_norm = kou1_2, score_eng = Some 80,
            score_math = Some 30, score_jpn = None\<rparr>] \<and>
   \<lparr>student_id = 7, grade_norm = kou3, score_eng = Some 50,
     score_math = Some 0, score_jpn = None\<rparr> \<in> set (the (exam_frame ascii_tables ex_results)) \<and>
   hd (read_exam ascii_tables ex_book) \<in> set (read_exam ascii_tables ex_book) \<and>
   student_id (hd (read_exam ascii_tables ex_book)) = 7 \<and>
   score_eng (hd (read_exam ascii_tables ex_book)) = Some 50 \<and>
   score_math (hd (read_exam ascii_tables ex_book)) = Some 0 \<and>
   score_jpn (hd (read_exam ascii_tables ex_book)) = None \<and>
   max_score [None, Some 0] = Some 0 \<and>
   Some 0 \<in> set [None, Some (0 :: rat)] \<and>
   max_score [None, None] = None"
proof -
  let ?r = "hd (rows ex_results)"
  let ?x = "hd (read_exam ascii_tables ex_book)"
  note th = math_score_fill_zero [where df = ex_results and ic = seito_bango and gc = gakunen
      and u = ascii_tables and ?c1.0 = sugaku_1A and ?c2.0 = sugaku_2BC and ?r0.0 = ?r
      and ?q0.0 = 7 and x = ?x and fp = ex_book and vs = "[None, Some 0]" and m = 0]
  note th2 = math_score_fill_zero [where vs = "[None, None]"]
  have h1: "eigo \<in> set (columns ex_results) \<and> id_col ex_results = Some seito_bango \<and>
      find (contains gakunen) (columns ex_results) = Some gakunen"
    by (intro conjI ex_results_eigo ex_id_col ex_results_find)
  have h2: "eigo \<in> set (columns ex_results) \<and> id_col ex_results = Some seito_bango \<and>
      find (contains gakunen) (columns ex_results) = Some gakunen \<and>
      find (contains sugaku_1A) (columns ex_results) = Some sugaku_1A \<and>
      find (contains sugaku_2BC) (columns ex_results) = Some sugaku_2BC \<and>
      ?r \<in> set (rows ex_results) \<and> c_num (cell_of ex_results seito_bango ?r) = Some 7 \<and>
      c_num (cell_of ex_results sugaku_1A ?r) = None \<and>
      c_num (cell_of ex_results sugaku_2BC ?r) = None"
    by (intro conjI ex_results_eigo ex_id_col ex_results_find ex_first_row ex_math_cells)
  have h3: "?x \<in> set (read_exam ascii_tables ex_book)"
    by (simp add: ex_read_exam)
  have h6: "max_score [None, Some 0] = Some 0" by (rule ex_max_score)
  from th [THEN conjunct1] h1
  have "exam_frame ascii_tables ex_results =
        Some (List.map_filter
          (\<lambda>r. case c_num (cell_of ex_results seito_bango r) of
                  None \<Rightarrow> None
                | Some q \<Rightarrow>
                    Some \<lparr>student_id = astype_int q,
                       grade_norm = normalize_grade_val ascii_tables (c_text (cell_of ex_results gakunen r)),
                       score_eng = c_num (cell_of ex_results eigo r),
                       score_math =
                         (case find (contains sugaku_1A) (columns ex_results) of
                            None \<Rightarrow> None
                          | Some m1 \<Rightarrow>
                              (case find (contains sugaku_2BC) (columns ex_results) of
                                 None \<Rightarrow> None
                               | Some m2 \<Rightarrow>
                                   Some ((case c_num (cell_of ex_results m1 r) of None \<Rightarrow> 0 | Some a \<Rightarrow> a) +
                                         (case c_num (cell_of ex_results m2 r) of None \<Rightarrow> 0 | Some b \<Rightarrow> b)))),
                       score_jpn =
                         (case find (contains kokugo) (columns ex_results) of
                            None \<Rightarrow> None
                          | Some jc \<Rightarrow> c_num (cell_of ex_results jc r))\<rparr>)
          (rows ex_results))"
    by (rule mp)
  then have a: "exam_frame ascii_tables ex_results =
     Some [\<lparr>student_id = 7, grade_norm = kou3, score_eng = Some 50,
            score_math = Some 0, score_jpn = None\<rparr>,
           \<lparr>student_id = 8, grade_norm = kou1_2, score_eng = Some 80,
            score_math = Some 30, score_jpn = None\<rparr>]"
    by (simp add: ex_results_find ex_results_rows map_filter_simps cell_of_def ex_results_index
        cell_at_def number_cell_def text_cell_def blank_def astype_int_numeral ex_grades)
  from th [THEN conjunct2, THEN conjunct1] h2
  have "\<exists>out. exam_frame ascii_tables ex_results = Some out \<and>
         \<lparr>student_id = astype_int 7,
           grade_norm = normalize_grade_val ascii_tables (c_text (cell_of ex_results gakunen ?r)),
           score_eng = c_num (cell_of ex_results eigo ?r),
           score_math = Some 0,
           score_jpn = (case find (contains kokugo) (columns ex_results) of
                          None \<Rightarrow> None
                        | Some jc \<Rightarrow> c_num (cell_of ex_results jc ?r))\<rparr> \<in> set out"
    by (rule mp)
  then have b: "\<lparr>student_id = 7, grade_norm = kou3, score_eng = Some 50,
     score_math = Some 0, score_jpn = None\<rparr> \<in> set (the (exam_frame ascii_tables ex_results))"
    by (auto simp: ex_first_row ex_results_find astype_int_numeral)
  from th [THEN conjunct2, THEN conjunct2, THEN conjunct1] h3
  have c: "score_eng ?x = max_score (map score_eng
        (filter (\<lambda>e. student_id e = student_id ?x \<and> grade_norm e = grade_norm ?x)
           (exam_entries ascii_tables ex_book))) \<and>
      score_math ?x = max_score (map score_math
        (filter (\<lambda>e. student_id e = student_id ?x \<and> grade_norm e = grade_norm ?x)
           (exam_entries ascii_tables ex_book))) \<and>
      score_jpn ?x = max_score (map score_jpn
        (filter (\<lambda>e. student_id e = student_id ?x \<and> grade_norm e = grade_norm ?x)
           (exam_entries ascii_tables ex_book)))"
    by (rule mp)
  have i: "student_id ?x = 7" "grade_norm ?x = kou3" by (simp_all add: ex_read_exam)
  have f: "filter (\<lambda>e. student_id e = 7 \<and> grade_norm e = kou3) (exam_entries ascii_tables ex_book)
      = [\<lparr>student_id = 7, grade_norm = kou3, score_eng = Some 50,
           score_math = Some 0, score_jpn = None\<rparr>]"
    by (simp add: ex_exam_entries)
  from c have c1: "score_eng ?x = Some 50" and c2: "score_math ?x = Some 0"
    and c3: "score_jpn ?x = None"
    unfolding i f by (simp_all add: max_score_def)
  from th [THEN conjunct2, THEN conjunct2, THEN conjunct2, THEN conjunct2, THEN conjunct2,
      THEN conjunct1] h6
  have "Some 0 \<in> set [None, Some (0 :: rat)] \<and>
      (\<forall>v. Some v \<in> set [None, Some 0] \<longrightarrow> v \<le> (0 :: rat))"
    by (rule mp)
  then have d: "Some 0 \<in> set [None, Some (0 :: rat)]" by (rule conjunct1)
  from th2 [THEN conjunct2, THEN conjunct2, THEN conjunct2, THEN conjunct2, THEN conjunct1]
  have e: "max_score [None, None] = None" by simp
  show ?thesis
    by (intro conjI ex_results_eigo ex_id_col ex_results_find(1-3) ex_first_row(1) ex_math_cells
        a b h3 i(1) c1 c2 c3 h6 d e)
qed

theorem math_score_blank_counterexample:
  "c_num (cell_of ex_results sugaku_1A (hd (rows ex_results))) = None \<and>
   c_num (cell_of ex_results sugaku_2BC (hd (rows ex_results))) = None \<and>
   c_num (cell_of ex_results seito_bango (hd (rows ex_results))) = Some 7 \<and>
   map (\<lambda>r. (student_id r, score_math r)) (read_exam ascii_tables ex_book)
     = [(7, Some 0), (8, Some 30)]"
  by (simp add: ex_math_cells ex_read_exam)

lemma main_sheets:
  assumes "files \<noteq> []"
  shows "main u files om ts =
     Some [(title_eng_long,
              Long (summarize_long (panel_of u om files) eng_mas (\<lambda>r. score_eng (p_exam r)) 6)),
           (title_math_long,
              Long (summarize_long (panel_of u om files) math_mas (\<lambda>r. score_math (p_exam r)) 6)),
           (title_jpn_long,
              Long (summarize_long (panel_of u om files) tot_mas (\<lambda>r. score_jpn (p_exam r)) 12)),
           (title_eng_wide, Wide (summarize_wide
              (summarize_long (panel_of u om files) eng_mas (\<lambda>r. score_eng (p_exam r)) 6))),
           (title_math_wide, Wide (summarize_wide
              (summarize_long (panel_of u om files) math_mas (\<lambda>r. score_math (p_exam r)) 6))),
           (title_jpn_wide, Wide (summarize_wide
              (summarize_long (panel_of u om files) tot_mas (\<lambda>r. score_jpn (p_exam r)) 12))),
           (title_ref_eng, Dist (summarize_distribution (panel_of u om files) eng_late 6)),
           (title_ref_math, Dist (summarize_distribution (panel_of u om files) math_late 6)),
           (title_meta, Meta (map (meta_of u om ts) files))]"
  using assms by (simp add: main_def Let_def panel_of_def)

lemma main_no_file: "main u [] om ts = None"
  by (simp add: main_def)

lemma main_length: "files \<noteq> [] \<Longrightarrow> map_option length (main u files om ts) = Some 9"
  by (simp add: main_sheets)

lemma meta_of_fields:
  "meta_run (meta_of u om ts fp) = ts \<and>
   meta_file (meta_of u om ts fp) = file_name fp \<and>
   meta_key (meta_of u om ts fp) = file_stem fp \<and>
   meta_cutoff (meta_of u om ts fp)
     = (case cutoff_for_stem (file_stem fp) (Some om) of None \<Rightarrow> [] | Some c \<Rightarrow> strftime_ymd c) \<and>
   meta_students (meta_of u om ts fp)
     = card ((\<lambda>x. student_id (p_exam x)) ` set (merged_of u om fp))"
proof -
  have "length (remdups (map (\<lambda>r. student_id (p_exam r)) (merged_of u om fp)))
      = card (set (map (\<lambda>r. student_id (p_exam r)) (merged_of u om fp)))"
    by (rule length_remdups_card_conv)
  then show ?thesis by (simp add: meta_of_def)
qed

text \<open>
  Claim C8, as the code has it. A run over at least one file writes exactly 9 sheets in
  a fixed order: the three long tables of English, Math and Japanese, the three wide
  tables pivoted from them, the two distribution tables of the late counts, and the
  table of run data, which has one row for each file with the time of the run, the file
  name, the stem as key, the cutoff as text or the empty text, and the number of
  distinct student ids. A run over no file writes nothing.
\<close>

theorem main_nine_sheets:
  "(files \<noteq> [] \<longrightarrow>
      main u files om ts =
        Some [(title_eng_long,
                 Long (summarize_long (panel_of u om files) eng_mas (\<lambda>r. score_eng (p_exam r)) 6)),
              (title_math_long,
                 Long (summarize_long (panel_of u om files) math_mas (\<lambda>r. score_math (p_exam r)) 6)),
              (title_jpn_long,
                 Long (summarize_long (panel_of u om files) tot_mas (\<lambda>r. score_jpn (p_exam r)) 12)),
              (title_eng_wide, Wide (summarize_wide
                 (summarize_long (panel_of u om files) eng_mas (\<lambda>r. score_eng (p_exam r)) 6))),
              (title_math_wide, Wide (summarize_wide
                 (summarize_long (panel_of u om files) math_mas (\<lambda>r. score_math (p_exam r)) 6))),
              (title_jpn_wide, Wide (summarize_wide
                 (summarize_long (panel_of u om files) tot_mas (\<lambda>r. score_jpn (p_exam r)) 12))),
              (title_ref_eng, Dist (summarize_distribution (panel_of u om files) eng_late 6)),
              (title_ref_math, Dist (summarize_distribution (panel_of u om files) math_late 6)),
              (title_meta, Meta (map (meta_of u om ts) files))]) \<and>
   (files \<noteq> [] \<longrightarrow> map_option length (main u files om ts) = Some 9) \<and>
   main u [] om ts = None \<and>
   meta_run (meta_of u om ts fp) = ts \<and>
   meta_file (meta_of u om ts fp) = file_name fp \<and>
   meta_key (meta_of u om ts fp) = file_stem fp \<and>
   meta_cutoff (meta_of u om ts fp)
     = (case cutoff_for_stem (file_stem fp) (Some om) of None \<Rightarrow> [] | Some c \<Rightarrow> strftime_ymd c) \<and>
   meta_students (meta_of u om ts fp)
     = card ((\<lambda>x. student_id (p_exam x)) ` set (merged_of u om fp))"
proof (intro conjI impI)
  assume "files \<noteq> []"
  then show "main u files om ts =
        Some [(title_eng_long,
                 Long (summarize_long (panel_of u om files) eng_mas (\<lambda>r. score_eng (p_exam r)) 6)),
              (title_math_long,
                 Long (summarize_long (panel_of u om files) math_mas (\<lambda>r. score_math (p_exam r)) 6)),
              (title_jpn_long,
                 Long (summarize_long (panel_of u om files) tot_mas (\<lambda>r. score_jpn (p_exam r)) 12)),
              (title_eng_wide, Wide (summarize_wide
                 (summarize_long (panel_of u om files) eng_mas (\<lambda>r. score_eng (p_exam r)) 6))),
              (title_math_wide, Wide (summarize_wide
                 (summarize_long (panel_of u om files) math_mas (\<lambda>r. score_math (p_exam r)) 6))),
              (title_jpn_wide, Wide (summarize_wide
                 (summarize_long (panel_of u om files) tot_mas (\<lambda>r. score_jpn (p_exam r)) 12))),
              (title_ref_eng, Dist (summarize_distribution (panel_of u om files) eng_late 6)),
              (title_ref_math, Dist (summarize_distribution (panel_of u om files) math_late 6)),
              (title_meta, Meta (map (meta_of u om ts) files))]"
    by (rule main_sheets)
next
  assume "files \<noteq> []"
  then show "map_option length (main u files om ts) = Some 9" by (rule main_length)
next
  show "main u [] om ts = None" by (rule main_no_file)
next
  note m = meta_of_fields [of u om ts fp]
  show "meta_run (meta_of u om ts fp) = ts" by (rule m [THEN conjunct1])
  show "meta_file (meta_of u om ts fp) = file_name fp"
    by (rule m [THEN conjunct2, THEN conjunct1])
  show "meta_key (meta_of u om ts fp) = file_stem fp"
    by (rule m [THEN conjunct2, THEN conjunct2, THEN conjunct1])
  show "meta_cutoff (meta_of u om ts fp)
     = (case cutoff_for_stem (file_stem fp) (Some om) of None \<Rightarrow> [] | Some c \<Rightarrow> strftime_ymd c)"
    by (rule m [THEN conjunct2, THEN conjunct2, THEN conjunct2, THEN conjunct1])
  show "meta_students (meta_of u om ts fp)
     = card ((\<lambda>x. student_id (p_exam x)) ` set (merged_of u om fp))"
    by (rule m [THEN conjunct2, THEN conjunct2, THEN conjunct2, THEN conjunct2])
qed

lemma ex_files: "[ex_book] \<noteq> []"
  by simp

theorem main_nine_sheets_witness:
  "[ex_book] \<noteq> [] \<and>
   map_option length (main ascii_tables [ex_book] Map.empty ex_run_ts) = Some 9 \<and>
   map_option (map fst) (main ascii_tables [ex_book] Map.empty ex_run_ts)
     = Some [title_eng_long, title_math_long, title_jpn_long, title_eng_wide, title_math_wide,
             title_jpn_wide, title_ref_eng, title_ref_math, title_meta] \<and>
   meta_cutoff (meta_of ascii_tables Map.empty ex_run_ts ex_book) = asc ''2025-01-18'' \<and>
   meta_students (meta_of ascii_tables Map.empty ex_run_ts ex_book) = 2"
proof -
  note th = main_nine_sheets [of "[ex_book]" ascii_tables Map.empty ex_run_ts ex_book]
  from th [THEN conjunct2, THEN conjunct1] ex_files
  have a: "map_option length (main ascii_tables [ex_book] Map.empty ex_run_ts) = Some 9"
    by (rule mp)
  from th [THEN conjunct1] ex_files
  have "main ascii_tables [ex_book] Map.empty ex_run_ts = Some
      [(title_eng_long,
          Long (summarize_long (panel_of ascii_tables Map.empty [ex_book]) eng_mas (\<lambda>r. score_eng (p_exam r)) 6)),
       (title_math_long,
          Long (summarize_long (panel_of ascii_tables Map.empty [ex_book]) math_mas (\<lambda>r. score_math (p_exam r)) 6)),
       (title_jpn_long,
          Long (summarize_long (panel_of ascii_tables Map.empty [ex_book]) tot_mas (\<lambda>r. score_jpn (p_exam r)) 12)),
       (title_eng_wide, Wide (summarize_wide
          (summarize_long (panel_of ascii_tables Map.empty [ex_book]) eng_mas (\<lambda>r. score_eng (p_exam r)) 6))),
       (title_math_wide, Wide (summarize_wide
          (summarize_long (panel_of ascii_tables Map.empty [ex_book]) math_mas (\<lambda>r. score_math (p_exam r)) 6))),
       (title_jpn_wide, Wide (summarize_wide
          (summarize_long (panel_of ascii_tables Map.empty [ex_book]) tot_mas (\<lambda>r. score_jpn (p_exam r)) 12))),
       (title_ref_eng, Dist (summarize_distribution (panel_of ascii_tables Map.empty [ex_book]) eng_late 6)),
       (title_ref_math, Dist (summarize_distribution (panel_of ascii_tables Map.empty [ex_book]) math_late 6)),
       (title_meta, Meta (map (meta_of ascii_tables Map.empty ex_run_ts) [ex_book]))]"
    by (rule mp)
  then have b: "map_option (map fst) (main ascii_tables [ex_book] Map.empty ex_run_ts)
     = Some [title_eng_long, title_math_long, title_jpn_long, title_eng_wide, title_math_wide,
             title_jpn_wide, title_ref_eng, title_ref_math, title_meta]"
    by simp
  have "strftime_ymd cutoff_2025 = asc ''2025-01-18''"
    by (simp add: strftime_ymd_def cutoff_2025_def datetime_def dec_def asc_def upt_rec)
  with th have c: "meta_cutoff (meta_of ascii_tables Map.empty ex_run_ts ex_book) = asc ''2025-01-18''"
    by (simp add: ex_cutoff)
  have "(\<lambda>x. student_id (p_exam x)) ` set (merged_of ascii_tables Map.empty ex_book) = {7, 8}"
    by (simp add: merged_of_ids ex_exam_entries)
  with th have d: "meta_students (meta_of ascii_tables Map.empty ex_run_ts ex_book) = 2"
    by simp
  show ?thesis by (intro conjI ex_files a b c d)
qed

theorem main_eight_sheets_counterexample:
  "map_option length (main ascii_tables [ex_book] Map.empty ex_run_ts) = Some 9 \<and>
   map_option length (main ascii_tables [ex_book] Map.empty ex_run_ts) \<noteq> Some 8"
  by (simp add: main_length)

end
